(* ===== verification/Virtio_Prelude.thy ===== *)
theory Virtio_Prelude
  imports Main "HOL-Library.Word"
begin

text \<open>
  Shared foundations of the development: the machine integers of the Rust sources as words,
  the checked arithmetic of the standard library, the little-endian byte layout of the virtio
  structures, host byte order, and the generic facts on words and lists the component theories use.
\<close>

unbundle bit_operations_syntax

section \<open>Machine integers and checked arithmetic\<close>

type_synonym u8 = "8 word"
type_synonym u16 = "16 word"
type_synonym u32 = "32 word"
type_synonym u64 = "64 word"
type_synonym byte = u8

text \<open>Collections the component theories extend: how to evaluate the flags of a concrete descriptor, and
  that the operations of a queue keep it well formed.\<close>

named_theorems flag_simps
named_theorems wf_keeps

text \<open>\<open>checked_add\<close> and \<open>checked_sub\<close> of the unsigned integers (and of \<open>GuestAddress\<close>, a newtype
  over \<open>u64\<close>): \<open>None\<close> on overflow.\<close>

definition checked_add :: "'a::len word \<Rightarrow> 'a word \<Rightarrow> 'a word option" where
  "checked_add a b = (if unat a + unat b < 2 ^ LENGTH('a) then Some (a + b) else None)"

definition checked_sub :: "'a::len word \<Rightarrow> 'a word \<Rightarrow> 'a word option" where
  "checked_sub a b = (if b \<le> a then Some (a - b) else None)"

text \<open>\<open>checked_rem\<close>: \<open>None\<close> when the divisor is zero.\<close>

definition checked_rem :: "'a::len word \<Rightarrow> 'a word \<Rightarrow> 'a word option" where
  "checked_rem a b = (if b = 0 then None else Some (a mod b))"

text \<open>\<open>checked_shl\<close> fails only when the shift amount reaches the width; bits shifted out are lost.\<close>

definition checked_shl :: "'a::len word \<Rightarrow> nat \<Rightarrow> 'a word option" where
  "checked_shl a n = (if n < LENGTH('a) then Some (push_bit n a) else None)"

text \<open>\<open>usize\<close> is 64 bits wide on the supported hosts; lengths of slices are kept as \<open>nat\<close> and
  their checked addition is bounded by that width.\<close>

definition usize_checked_add :: "nat \<Rightarrow> nat \<Rightarrow> nat option" where
  "usize_checked_add a b = (if a + b < 2 ^ 64 then Some (a + b) else None)"

definition usize_saturating_add :: "nat \<Rightarrow> nat \<Rightarrow> nat" where
  "usize_saturating_add a b = (if a + b < 2 ^ 64 then a + b else 2 ^ 64 - 1)"

text \<open>\<open>Option::ok_or\<close> and \<open>Result::map_err\<close>.\<close>

definition ok_or :: "'e \<Rightarrow> 'a option \<Rightarrow> 'e + 'a" where
  "ok_or e x = (case x of None \<Rightarrow> Inl e | Some a \<Rightarrow> Inr a)"

definition map_err :: "('e \<Rightarrow> 'f) \<Rightarrow> 'e + 'a \<Rightarrow> 'f + 'a" where
  "map_err f x = (case x of Inl e \<Rightarrow> Inl (f e) | Inr a \<Rightarrow> Inr a)"

lemma ok_or_simps [simp]:
  "ok_or e None = Inl e"
  "ok_or e (Some a) = Inr a"
  by (simp_all add: ok_or_def)

lemma ok_or_eq_Inr [simp]: "ok_or e x = Inr a \<longleftrightarrow> x = Some a"
  by (cases x) auto

lemma map_err_simps [simp]:
  "map_err f (Inl e) = Inl (f e)"
  "map_err f (Inr a) = Inr a"
  by (simp_all add: map_err_def)

lemma map_err_eq_Inr [simp]: "map_err f x = Inr a \<longleftrightarrow> x = Inr a"
  by (cases x) auto

lemma map_err_eq_Inl: "map_err f x = Inl e' \<longleftrightarrow> (\<exists>e. x = Inl e \<and> e' = f e)"
  by (cases x) auto

lemma checked_add_eq_Some:
  "checked_add a b = Some c \<longleftrightarrow> c = a + b \<and> unat c = unat a + unat b"
  for a b c :: "'a::len word"
proof (cases "unat a + unat b < 2 ^ LENGTH('a)")
  case True
  then have "unat (a + b) = unat a + unat b"
    by (simp add: unat_word_ariths)
  with True show ?thesis by (auto simp: checked_add_def)
next
  case False
  have "unat c < 2 ^ LENGTH('a)" by (rule unsigned_less)
  with False have "unat c \<noteq> unat a + unat b" by linarith
  with False show ?thesis by (simp add: checked_add_def)
qed

lemma checked_add_SomeI:
  "unat a + unat b < 2 ^ LENGTH('a) \<Longrightarrow> checked_add a b = Some (a + b)"
  for a b :: "'a::len word"
  by (simp add: checked_add_def)

lemma checked_add_eq_None:
  "checked_add a b = None \<longleftrightarrow> 2 ^ LENGTH('a) \<le> unat a + unat b"
  for a b :: "'a::len word"
  by (auto simp: checked_add_def)

lemma checked_shl_9: "checked_shl x 9 = Some (push_bit 9 x)" for x :: u64
  by (simp add: checked_shl_def)

section \<open>Words and natural numbers\<close>

lemma unat_add_no_wrap:
  "unat a + unat b < 2 ^ LENGTH('a) \<Longrightarrow> unat (a + b) = unat a + unat b"
  for a b :: "'a::len word"
  by (simp add: unat_word_ariths)

lemma unat_add_of_nat:
  "unat a + n < 2 ^ LENGTH('a) \<Longrightarrow> unat (a + of_nat n) = unat a + n"
  for a :: "'a::len word"
  by (simp add: unat_word_ariths unat_of_nat)

lemma checked_add_of_nat:
  assumes "unat a + n < 2 ^ LENGTH('a)"
  shows "checked_add a (of_nat n) = Some (a + of_nat n :: 'a::len word)"
proof -
  have "unat (of_nat n :: 'a word) = n" using assms by (simp add: unat_of_nat)
  with assms show ?thesis by (simp add: checked_add_def)
qed

lemma unat_of_nat_less: "n < 2 ^ LENGTH('a) \<Longrightarrow> unat (of_nat n :: 'a::len word) = n"
  by (simp add: unat_of_nat)

lemma of_nat_unat_add: "a + of_nat n = b + of_nat n \<longleftrightarrow> a = b" for a b :: "'a::len word"
  by simp

lemma unat_u16_bound [simp]: "unat (x :: u16) < 65536"
  using unsigned_less[of x] by simp

lemma unat_u32_bound [simp]: "unat (x :: u32) < 4294967296"
  using unsigned_less[of x] by simp

lemma unat_u64_bound [simp]: "unat (x :: u64) < 18446744073709551616"
  using unsigned_less[of x] by simp

lemma unat_ucast_u16_u64 [simp]: "unat (ucast (x :: u16) :: u64) = unat x"
  by (simp add: unsigned_ucast_eq take_bit_nat_eq_self_iff)
    (rule less_trans [OF unat_u16_bound], simp)

lemma unat_ucast_u32_u64 [simp]: "unat (ucast (x :: u32) :: u64) = unat x"
  by (simp add: unsigned_ucast_eq take_bit_nat_eq_self_iff)
    (rule less_trans [OF unat_u32_bound], simp)

lemma unat_ucast_u16_u32 [simp]: "unat (ucast (x :: u16) :: u32) = unat x"
  by (simp add: unsigned_ucast_eq take_bit_nat_eq_self_iff)
    (rule less_trans [OF unat_u16_bound], simp)

lemma unat_mod_less: "b \<noteq> 0 \<Longrightarrow> unat (a mod b) < unat b" for a b :: "'a::len word"
  by (simp add: unat_mod word_gt_0_no unat_gt_0)

section \<open>Little-endian byte layout\<close>

text \<open>\<open>to_le_bytes\<close> and \<open>from_le_bytes\<close> of the unsigned integers, for any width in bytes.\<close>

definition le_bytes :: "nat \<Rightarrow> 'a::len word \<Rightarrow> byte list" where
  "le_bytes n v = map (\<lambda>i. ucast (drop_bit (8 * i) v)) [0..<n]"

fun le_word :: "byte list \<Rightarrow> 'a::len word" where
  "le_word [] = 0"
| "le_word (b # bs) = ucast b OR push_bit 8 (le_word bs)"

lemma length_le_bytes [simp]: "length (le_bytes n v) = n"
  by (simp add: le_bytes_def)

lemma nth_le_bytes: "i < n \<Longrightarrow> le_bytes n v ! i = ucast (drop_bit (8 * i) v)"
  by (simp add: le_bytes_def)

lemma bit_le_word:
  "bit (le_word bs :: 'a::len word) k \<longleftrightarrow>
     k < LENGTH('a) \<and> k < 8 * length bs \<and> bit (bs ! (k div 8)) (k mod 8)"
proof (induction bs arbitrary: k)
  case Nil
  then show ?case by simp
next
  case (Cons b bs)
  show ?case
  proof (cases "k < 8")
    case True
    then show ?thesis
      by (auto simp: bit_simps)
  next
    case False
    then have "k div 8 = Suc ((k - 8) div 8)" and "k mod 8 = (k - 8) mod 8"
      by (simp_all add: le_div_geq le_mod_geq)
    moreover have "\<not> bit b k"
      using False bit_imp_le_length[of b k] by auto
    ultimately show ?thesis
      using False by (auto simp: bit_simps Cons.IH)
  qed
qed

text \<open>Encoding and then decoding gives the value back, and conversely.\<close>

lemma le_word_le_bytes:
  assumes "LENGTH('a) = 8 * n"
  shows "le_word (le_bytes n v) = (v :: 'a::len word)"
proof (rule bit_word_eqI)
  fix k assume k: "k < LENGTH('a)"
  with assms have "k div 8 < n" by simp
  then show "bit (le_word (le_bytes n v) :: 'a word) k = bit v k"
    using k assms by (simp add: bit_le_word nth_le_bytes bit_simps)
qed

lemma le_bytes_le_word:
  assumes "LENGTH('a) = 8 * length bs"
  shows "le_bytes (length bs) (le_word bs :: 'a::len word) = bs"
proof (rule nth_equalityI)
  show "length (le_bytes (length bs) (le_word bs :: 'a word)) = length bs" by simp
next
  fix i assume "i < length (le_bytes (length bs) (le_word bs :: 'a word))"
  then have i: "i < length bs" by simp
  show "le_bytes (length bs) (le_word bs :: 'a word) ! i = bs ! i"
  proof (rule bit_word_eqI)
    fix k assume k: "k < LENGTH(8)"
    then have "8 * i + k < 8 * length bs" using i by simp
    then show "bit (le_bytes (length bs) (le_word bs :: 'a word) ! i) k = bit (bs ! i) k"
      using i k assms by (simp add: nth_le_bytes bit_simps bit_le_word add.commute)
  qed
qed

lemma le_word_16 [simp]: "le_word (le_bytes 2 v) = (v :: u16)"
  by (rule le_word_le_bytes) simp

lemma le_word_32 [simp]: "le_word (le_bytes 4 v) = (v :: u32)"
  by (rule le_word_le_bytes) simp

lemma le_word_64 [simp]: "le_word (le_bytes 8 v) = (v :: u64)"
  by (rule le_word_le_bytes) simp

section \<open>Host byte order\<close>

text \<open>The host the device model runs on. \<open>to_le\<close> and \<open>from_le\<close> are the identity on a little-endian
  host and swap the bytes on a big-endian one; a native integer is laid out in host order.\<close>

datatype endian = LittleEndian | BigEndian

definition native_bytes :: "endian \<Rightarrow> nat \<Rightarrow> 'a::len word \<Rightarrow> byte list" where
  "native_bytes e n v = (case e of LittleEndian \<Rightarrow> le_bytes n v | BigEndian \<Rightarrow> rev (le_bytes n v))"

definition native_word :: "endian \<Rightarrow> byte list \<Rightarrow> 'a::len word" where
  "native_word e bs = (case e of LittleEndian \<Rightarrow> le_word bs | BigEndian \<Rightarrow> le_word (rev bs))"

definition swap_bytes :: "'a::len word \<Rightarrow> 'a word" where
  "swap_bytes v = le_word (rev (le_bytes (LENGTH('a) div 8) v))"

definition to_le :: "endian \<Rightarrow> 'a::len word \<Rightarrow> 'a word" where
  "to_le e v = (case e of LittleEndian \<Rightarrow> v | BigEndian \<Rightarrow> swap_bytes v)"

definition from_le :: "endian \<Rightarrow> 'a::len word \<Rightarrow> 'a word" where
  "from_le e v = (case e of LittleEndian \<Rightarrow> v | BigEndian \<Rightarrow> swap_bytes v)"

lemma length_native_bytes [simp]: "length (native_bytes e n v) = n"
  by (cases e) (simp_all add: native_bytes_def)

text \<open>Storing \<open>to_le v\<close> natively always leaves the little-endian bytes of \<open>v\<close> in memory, and reading
  them back through \<open>from_le\<close> gives the little-endian value, whatever the host.\<close>

lemma native_bytes_to_le:
  assumes "LENGTH('a) = 8 * n"
  shows "native_bytes e n (to_le e (v :: 'a::len word)) = le_bytes n v"
proof (cases e)
  case LittleEndian
  then show ?thesis by (simp add: native_bytes_def to_le_def)
next
  case BigEndian
  have "le_bytes (length (rev (le_bytes n v))) (le_word (rev (le_bytes n v)) :: 'a word)
      = rev (le_bytes n v)"
    by (rule le_bytes_le_word) (simp add: assms)
  with BigEndian show ?thesis
    by (simp add: native_bytes_def to_le_def swap_bytes_def assms)
qed

lemma from_le_native_word:
  assumes "LENGTH('a) = 8 * length bs"
  shows "from_le e (native_word e bs :: 'a::len word) = le_word bs"
proof (cases e)
  case LittleEndian
  then show ?thesis by (simp add: native_word_def from_le_def)
next
  case BigEndian
  have "le_bytes (length (rev bs)) (le_word (rev bs) :: 'a word) = rev bs"
    by (rule le_bytes_le_word) (simp add: assms)
  with BigEndian show ?thesis
    by (simp add: native_word_def from_le_def swap_bytes_def assms)
qed

section \<open>Powers of two\<close>

text \<open>The test \<open>x & (x - 1) == 0\<close> the sources use for powers of two.\<close>

definition pow2_check :: "'a::len word \<Rightarrow> bool" where
  "pow2_check x \<longleftrightarrow> x AND (x - 1) = 0"

lemma nat_eq_pow2_times_odd:
  assumes "(n::nat) > 0"
  obtains k m where "n = 2 ^ k * m" and "odd m"
proof -
  have "\<exists>k m. n = 2 ^ k * m \<and> odd m"
    using assms
  proof (induction n rule: less_induct)
    case (less n)
    show ?case
    proof (cases "odd n")
      case True
      then have "n = 2 ^ 0 * n \<and> odd n" by simp
      then show ?thesis by blast
    next
      case False
      then have "n = 2 * (n div 2)" by simp
      moreover from this less.prems have "n div 2 < n" and "0 < n div 2" by simp_all
      then obtain k m where "n div 2 = 2 ^ k * m" and "odd m"
        using less.IH by blast
      ultimately have "n = 2 ^ Suc k * m \<and> odd m" by simp
      then show ?thesis by blast
    qed
  qed
  then show ?thesis using that by blast
qed

lemma pow2_check_pow2: "pow2_check (2 ^ k :: 'a::len word)"
proof -
  have "(2 ^ k :: 'a word) AND mask k = 0"
    by (rule bit_word_eqI) (auto simp: bit_simps)
  then show ?thesis
    by (simp add: pow2_check_def mask_eq_exp_minus_1)
qed

lemma div_mult_add: "r < a \<Longrightarrow> (a * j + r) div a = (j :: nat)"
  by simp

lemma pow2_check_imp_pow2:
  assumes "x \<noteq> 0" and chk: "pow2_check x"
  shows "\<exists>k < LENGTH('a). x = (2 ^ k :: 'a::len word)"
proof -
  from assms(1) have "unat x > 0" by (simp add: unat_gt_0)
  then obtain k m where n: "unat x = 2 ^ k * m" and "odd m"
    by (rule nat_eq_pow2_times_odd)
  from \<open>odd m\<close> obtain j where m: "m = 2 * j + 1" by (auto elim: oddE)
  have k: "(2::nat) ^ k \<ge> 1" by simp
  have x1: "unat (x - 1) = 2 ^ Suc k * j + (2 ^ k - 1)"
    using assms(1) k by (simp add: unat_minus_one n m algebra_simps)
  have x0: "unat x = 2 ^ Suc k * j + 2 ^ k" by (simp add: n m algebra_simps)
  have r0: "(2::nat) ^ k < 2 ^ Suc k" by simp
  then have "(2::nat) ^ k - 1 < 2 ^ Suc k" by linarith
  with r0 have "drop_bit (Suc k) (unat x) = j" and "drop_bit (Suc k) (unat (x - 1)) = j"
    unfolding x0 x1 drop_bit_eq_div by (simp_all only: div_mult_add)
  then have dx: "unat (drop_bit (Suc k) x) = j" and "unat (drop_bit (Suc k) (x - 1)) = j"
    by (simp_all only: unat_drop_bit_eq)
  then have "drop_bit (Suc k) x = drop_bit (Suc k) (x - 1)"
    by (simp add: word_unat_eq_iff)
  moreover have "drop_bit (Suc k) x AND drop_bit (Suc k) (x - 1) = 0"
    using chk by (simp add: pow2_check_def flip: drop_bit_and)
  ultimately have "drop_bit (Suc k) x = 0" by simp
  with dx have ux: "unat x = 2 ^ k" by (simp add: n m)
  have "x = of_nat (unat x)" by simp
  then have "x = 2 ^ k" by (simp only: ux) simp
  moreover from ux have "k < LENGTH('a)"
    using unsigned_less[of x, where 'a = nat] by (simp add: power_strict_increasing_iff)
  ultimately show ?thesis by blast
qed

lemma unat_pow2: "k < LENGTH('a) \<Longrightarrow> unat (2 ^ k :: 'a::len word) = 2 ^ k"
  using unat_of_nat_less [of "2 ^ k", where 'a = 'a] by simp

lemma pow2_check_iff:
  "x \<noteq> 0 \<and> pow2_check x \<longleftrightarrow> (\<exists>k < LENGTH('a). x = (2 ^ k :: 'a::len word))"
  by (auto simp: pow2_check_pow2 dest: pow2_check_imp_pow2)

section \<open>Alignment\<close>

lemma and_mask_eq_0_iff: "x AND mask n = 0 \<longleftrightarrow> 2 ^ n dvd unat (x :: 'a::len word)"
proof -
  have "unat (take_bit n x) = take_bit n (unat x)" by (rule unsigned_take_bit_eq)
  then have "unat (take_bit n x) = unat x mod 2 ^ n" by (simp only: take_bit_eq_mod)
  then show ?thesis
    by (metis take_bit_eq_mask unat_eq_zero dvd_eq_mod_eq_0)
qed

lemma and_alignment:
  "x AND 1 = 0 \<longleftrightarrow> 2 dvd unat (x :: 'a::len word)"
  "x AND 3 = 0 \<longleftrightarrow> 4 dvd unat x"
  "x AND 15 = 0 \<longleftrightarrow> 16 dvd unat x"
  using and_mask_eq_0_iff [of x 1] and_mask_eq_0_iff [of x 2] and_mask_eq_0_iff [of x 4]
  by (simp_all add: mask_eq_exp_minus_1)

end
