(* ===== verification/Guest_Memory.thy ===== *)
theory Guest_Memory
  imports Virtio_Prelude
begin

text \<open>
  The guest memory the device model works on. The crate \<open>vm-memory\<close> that implements it is not part
  of the repository, so its operations are a parameter of every definition that accesses memory: a
  record \<open>guest_memory\<close> of functions over an abstract memory state. What the sources rely on is the
  locale \<open>guest_mem\<close>: its laws state the documented behaviour of the accesses through a byte view
  \<open>peek\<close> and the ranges \<open>acc\<close> an access may touch.
\<close>

section \<open>The interface\<close>

text \<open>Memory orderings of the atomic accesses.\<close>

datatype ordering = Relaxed | Release | Acquire | AcqRel | SeqCst

text \<open>\<open>GuestMemoryError\<close>: the variants the sources name, and one for all the others.\<close>

datatype gm_error =
    InvalidGuestAddress u64
  | PartialBuffer (expected: nat) (completed: nat)
  | OtherGuestMemoryError nat

text \<open>\<open>VolatileMemoryError\<close>: no variant is named by the sources.\<close>

datatype vm_error = VolatileError nat

text \<open>A \<open>VolatileSlice\<close> is a pointer into guest memory and a length; the pointer is represented by the
  guest address it maps. Its methods \<open>offset\<close> and \<open>subslice\<close> and the copies through its pointer are
  operations of the parameter too.\<close>

record vslice =
  vs_addr :: u64
  vs_len :: nat

record 'm guest_memory =
  gm_endian :: endian
  gm_load :: "'m \<Rightarrow> u64 \<Rightarrow> nat \<Rightarrow> ordering \<Rightarrow> gm_error + byte list"
  gm_store :: "'m \<Rightarrow> u64 \<Rightarrow> byte list \<Rightarrow> ordering \<Rightarrow> 'm \<times> (gm_error + unit)"
  gm_read_slice :: "'m \<Rightarrow> u64 \<Rightarrow> nat \<Rightarrow> gm_error + byte list"
  gm_write_slice :: "'m \<Rightarrow> u64 \<Rightarrow> byte list \<Rightarrow> 'm \<times> (gm_error + unit)"
  gm_address_in_range :: "'m \<Rightarrow> u64 \<Rightarrow> bool"
  gm_check_address :: "'m \<Rightarrow> u64 \<Rightarrow> u64 option"
  gm_find_region :: "'m \<Rightarrow> u64 \<Rightarrow> u64 option"
  gm_region_get_slice :: "'m \<Rightarrow> u64 \<Rightarrow> u64 \<Rightarrow> nat \<Rightarrow> gm_error + vslice"
  gm_get_slice :: "'m \<Rightarrow> u64 \<Rightarrow> nat \<Rightarrow> gm_error + vslice"
  gm_slice_read :: "'m \<Rightarrow> vslice \<Rightarrow> byte list"
  gm_slice_write :: "'m \<Rightarrow> vslice \<Rightarrow> byte list \<Rightarrow> 'm"
  gm_slice_read_at :: "'m \<Rightarrow> vslice \<Rightarrow> nat \<Rightarrow> nat \<Rightarrow> vm_error + byte list"
  gm_slice_write_at :: "'m \<Rightarrow> vslice \<Rightarrow> byte list \<Rightarrow> nat \<Rightarrow> 'm \<times> (vm_error + nat)"
  gm_slice_offset :: "vslice \<Rightarrow> nat \<Rightarrow> vm_error + vslice"
  gm_subslice :: "vslice \<Rightarrow> nat \<Rightarrow> nat \<Rightarrow> vm_error + vslice"

text \<open>Atomic accesses to a \<open>u16\<close> in host byte order. The order of an atomic load or store is one the
  atomics accept: the others panic.\<close>

definition load_order :: "ordering \<Rightarrow> bool" where
  "load_order ord \<longleftrightarrow> ord = Relaxed \<or> ord = Acquire \<or> ord = SeqCst"

definition store_order :: "ordering \<Rightarrow> bool" where
  "store_order ord \<longleftrightarrow> ord = Relaxed \<or> ord = Release \<or> ord = SeqCst"

definition load_u16 :: "'m guest_memory \<Rightarrow> 'm \<Rightarrow> u64 \<Rightarrow> ordering \<Rightarrow> gm_error + u16" where
  "load_u16 G m a ord =
     (case gm_load G m a 2 ord of Inl e \<Rightarrow> Inl e | Inr bs \<Rightarrow> Inr (native_word (gm_endian G) bs))"

definition store_u16 :: "'m guest_memory \<Rightarrow> 'm \<Rightarrow> u64 \<Rightarrow> u16 \<Rightarrow> ordering \<Rightarrow> 'm \<times> (gm_error + unit)" where
  "store_u16 G m a v ord = gm_store G m a (native_bytes (gm_endian G) 2 v) ord"

section \<open>Byte views\<close>

text \<open>\<open>peek_bytes f a n\<close> are the \<open>n\<close> bytes from address \<open>a\<close>; \<open>poke f a bs\<close> is the view after \<open>bs\<close> was
  written at \<open>a\<close>.\<close>

definition peek_bytes :: "(u64 \<Rightarrow> byte) \<Rightarrow> u64 \<Rightarrow> nat \<Rightarrow> byte list" where
  "peek_bytes f a n = map (\<lambda>i. f (a + of_nat i)) [0..<n]"

definition poke :: "(u64 \<Rightarrow> byte) \<Rightarrow> u64 \<Rightarrow> byte list \<Rightarrow> u64 \<Rightarrow> byte" where
  "poke f a bs x = (if unat (x - a) < length bs then bs ! unat (x - a) else f x)"

text \<open>Two ranges that do not wrap and do not overlap.\<close>

definition disjoint_ranges :: "u64 \<Rightarrow> nat \<Rightarrow> u64 \<Rightarrow> nat \<Rightarrow> bool" where
  "disjoint_ranges a n b k \<longleftrightarrow> unat a + n \<le> unat b \<or> unat b + k \<le> unat a"

lemma length_peek_bytes [simp]: "length (peek_bytes f a n) = n"
  by (simp add: peek_bytes_def)

lemma nth_peek_bytes [simp]: "i < n \<Longrightarrow> peek_bytes f a n ! i = f (a + of_nat i)"
  by (simp add: peek_bytes_def)

lemma peek_bytes_append:
  "peek_bytes f a (n + k) = peek_bytes f a n @ peek_bytes f (a + of_nat n) k"
  by (rule nth_equalityI) (auto simp: nth_append add.assoc simp flip: of_nat_add)

lemma peek_bytes_poke_same:
  assumes "length bs \<le> 2 ^ 64"
  shows "peek_bytes (poke f a bs) a (length bs) = bs"
proof (rule nth_equalityI)
  fix i assume "i < length (peek_bytes (poke f a bs) a (length bs))"
  then have i: "i < length bs" by simp
  with assms have "i < 2 ^ LENGTH(64)" by simp
  then have "unat (of_nat i :: u64) = i" by (rule unat_of_nat_less)
  with i show "peek_bytes (poke f a bs) a (length bs) ! i = bs ! i"
    by (simp add: poke_def)
qed simp

lemma unat_diff_disjoint:
  assumes "disjoint_ranges a n b k" and "unat a + n \<le> 2 ^ 64" and "unat b + k \<le> 2 ^ 64" and "i < n"
  shows "\<not> unat (a + of_nat i - b) < k"
proof -
  have ai: "unat (a + of_nat i) = unat a + i"
    using assms(2,4) by (intro unat_add_of_nat) simp
  have "unat (a + of_nat i - b) =
      (if unat b \<le> unat a + i then unat a + i - unat b else unat a + i + 2 ^ 64 - unat b)"
    by (simp add: unat_sub_if' ai)
  with assms show ?thesis by (auto simp: disjoint_ranges_def)
qed

lemma poke_disjoint:
  assumes "disjoint_ranges a n b (length bs)" and "unat a + n \<le> 2 ^ 64"
    and "unat b + length bs \<le> 2 ^ 64" and "i < n"
  shows "poke f b bs (a + of_nat i) = f (a + of_nat i)"
  using unat_diff_disjoint [OF assms] by (simp add: poke_def)

lemma peek_bytes_poke_disjoint:
  assumes "disjoint_ranges a n b (length bs)" and "unat a + n \<le> 2 ^ 64"
    and "unat b + length bs \<le> 2 ^ 64"
  shows "peek_bytes (poke f b bs) a n = peek_bytes f a n"
  using poke_disjoint [OF assms] by (intro nth_equalityI) simp_all

text \<open>Fields at offsets of one structure.\<close>

lemma peek_field_poke_same:
  "length bs = n \<Longrightarrow> n \<le> 2 ^ 64 \<Longrightarrow> peek_bytes (poke f a bs) a n = bs"
  using peek_bytes_poke_same [of bs f a] by simp

lemma peek_field_poke_other:
  assumes "i + n \<le> j \<or> j + length bs \<le> i" and "unat a + i + n < 2 ^ 64"
    and "unat a + j + length bs < 2 ^ 64"
  shows "peek_bytes (poke f (a + of_nat j) bs) (a + of_nat i) n = peek_bytes f (a + of_nat i) n"
proof -
  have "unat (a + of_nat i) = unat a + i" and "unat (a + of_nat j) = unat a + j"
    using assms(2,3) by (simp_all add: unat_add_of_nat)
  with assms show ?thesis
    by (intro peek_bytes_poke_disjoint) (auto simp: disjoint_ranges_def)
qed

text \<open>A write into a structure leaves what is disjoint from the whole structure unchanged.\<close>

lemma peek_outside_poke_field:
  assumes "disjoint_ranges b k a n" and "unat b + k \<le> 2 ^ 64" and "unat a + n < 2 ^ 64"
    and "j + length bs \<le> n"
  shows "peek_bytes (poke f (a + of_nat j) bs) b k = peek_bytes f b k"
proof -
  have "unat (a + of_nat j) = unat a + j"
    using assms(3,4) by (simp add: unat_add_of_nat)
  with assms show ?thesis
    by (intro peek_bytes_poke_disjoint) (auto simp: disjoint_ranges_def)
qed

section \<open>The laws the sources rely on\<close>

locale guest_mem =
  fixes G :: "'m guest_memory"
    and peek :: "'m \<Rightarrow> u64 \<Rightarrow> byte"
    and acc :: "'m \<Rightarrow> u64 \<Rightarrow> nat \<Rightarrow> bool"
  assumes acc_no_wrap: "acc m a n \<Longrightarrow> unat a + n < 2 ^ 64"
    and acc_sub: "acc m a n \<Longrightarrow> i + k \<le> n \<Longrightarrow> acc m (a + of_nat i) k"
    and read_law: "acc m a n \<Longrightarrow> gm_read_slice G m a n = Inr (peek_bytes (peek m) a n)"
    and write_law: "acc m a (length bs) \<Longrightarrow>
        \<exists>m'. gm_write_slice G m a bs = (m', Inr ()) \<and> peek m' = poke (peek m) a bs \<and> acc m' = acc m"
    and load_law: "acc m a n \<Longrightarrow> n \<in> {1, 2, 4, 8} \<Longrightarrow> n dvd unat a \<Longrightarrow> load_order ord \<Longrightarrow>
        gm_load G m a n ord = Inr (peek_bytes (peek m) a n)"
    and store_law: "acc m a (length bs) \<Longrightarrow> length bs \<in> {1, 2, 4, 8} \<Longrightarrow> length bs dvd unat a \<Longrightarrow>
        store_order ord \<Longrightarrow>
        \<exists>m'. gm_store G m a bs ord = (m', Inr ()) \<and> peek m' = poke (peek m) a bs \<and> acc m' = acc m"
    and in_range_law: "acc m a n \<Longrightarrow> 0 < n \<Longrightarrow> gm_address_in_range G m a"
    and region_start_law: "gm_find_region G m a = Some b \<Longrightarrow> b \<le> a"
    and region_slice_law: "acc m a n \<Longrightarrow>
        \<exists>b. gm_find_region G m a = Some b \<and>
            gm_region_get_slice G m b (a - b) n = Inr \<lparr>vs_addr = a, vs_len = n\<rparr>"
    and get_slice_law: "acc m a n \<Longrightarrow> gm_get_slice G m a n = Inr \<lparr>vs_addr = a, vs_len = n\<rparr>"
    and slice_read_law: "acc m a n \<Longrightarrow>
        gm_slice_read G m \<lparr>vs_addr = a, vs_len = n\<rparr> = peek_bytes (peek m) a n"
    and slice_write_law: "acc m a n \<Longrightarrow> length bs \<le> n \<Longrightarrow>
        peek (gm_slice_write G m \<lparr>vs_addr = a, vs_len = n\<rparr> bs) = poke (peek m) a bs \<and>
        acc (gm_slice_write G m \<lparr>vs_addr = a, vs_len = n\<rparr> bs) = acc m"
    and slice_read_at_law: "acc m a n \<Longrightarrow> off + k \<le> n \<Longrightarrow>
        gm_slice_read_at G m \<lparr>vs_addr = a, vs_len = n\<rparr> off k = Inr (peek_bytes (peek m) (a + of_nat off) k)"
    and slice_write_at_law: "acc m a n \<Longrightarrow> off + length bs \<le> n \<Longrightarrow>
        \<exists>m'. gm_slice_write_at G m \<lparr>vs_addr = a, vs_len = n\<rparr> bs off = (m', Inr (length bs)) \<and>
          peek m' = poke (peek m) (a + of_nat off) bs \<and> acc m' = acc m"
    and slice_offset_law: "k \<le> vs_len vs \<Longrightarrow>
        gm_slice_offset G vs k = Inr \<lparr>vs_addr = vs_addr vs + of_nat k, vs_len = vs_len vs - k\<rparr>"
    and subslice_law: "i + k \<le> vs_len vs \<Longrightarrow>
        gm_subslice G vs i k = Inr \<lparr>vs_addr = vs_addr vs + of_nat i, vs_len = k\<rparr>"
begin

lemma checked_add_acc:
  assumes "acc m a n" and "k \<le> n"
  shows "checked_add a (of_nat k) = Some (a + of_nat k)"
  using acc_no_wrap [OF assms(1)] assms(2) by (simp add: checked_add_eq_Some unat_of_nat_less unat_add_of_nat)

lemma write_at:
  assumes "acc m a n" and "i + length bs \<le> n"
  shows "\<exists>m'. gm_write_slice G m (a + of_nat i) bs = (m', Inr ()) \<and>
    peek m' = poke (peek m) (a + of_nat i) bs \<and> acc m' = acc m"
  using write_law [OF acc_sub [OF assms]] .

text \<open>The little-endian \<open>u16\<close> at an address, as every ring field is read and written.\<close>

lemma load_u16_le:
  assumes "acc m a 2" and "2 dvd unat a" and "load_order ord"
  shows "load_u16 G m a ord = Inr (native_word (gm_endian G) (peek_bytes (peek m) a 2))"
  using load_law [OF assms(1) _ assms(2,3)] by (simp add: load_u16_def)

lemma from_le_peek:
  "from_le e (native_word e (peek_bytes f a 2) :: u16) = le_word (peek_bytes f a 2)"
  by (rule from_le_native_word) simp

lemma store_u16_le:
  assumes "acc m a 2" and "2 dvd unat a" and "store_order ord"
  shows "\<exists>m'. store_u16 G m a (to_le (gm_endian G) v) ord = (m', Inr ()) \<and>
    peek m' = poke (peek m) a (le_bytes 2 v) \<and> acc m' = acc m"
proof -
  have "native_bytes (gm_endian G) 2 (to_le (gm_endian G) v) = le_bytes 2 v"
    by (rule native_bytes_to_le) simp
  then show ?thesis
    using store_law [of m a "le_bytes 2 v" ord] assms by (simp add: store_u16_def)
qed

end

end
