(* ===== verification/Descriptors.thy ===== *)
theory Descriptors
  imports Guest_Memory
begin

text \<open>
  The descriptors of the virtqueues: \<open>RawDescriptor\<close> (\<open>virtio-queue/src/desc/mod.rs\<close>), the split ring
  descriptor and the used ring element (\<open>desc/split.rs\<close>), and the packed descriptor and its event
  structure (\<open>desc/packed.rs\<close>). The fields of type \<open>Le16\<close>, \<open>Le32\<close> and \<open>Le64\<close> hold their value and are laid out
  in little-endian order; the layout functions give the bytes of each structure in guest memory.
\<close>

section \<open>Descriptor flags\<close>

definition VRING_DESC_F_NEXT :: u32 where "VRING_DESC_F_NEXT = 1"
definition VRING_DESC_F_WRITE :: u32 where "VRING_DESC_F_WRITE = 2"
definition VRING_DESC_F_INDIRECT :: u32 where "VRING_DESC_F_INDIRECT = 4"
definition VRING_USED_F_NO_NOTIFY :: u32 where "VRING_USED_F_NO_NOTIFY = 1"
definition VRING_DESC_ALIGN_SIZE :: u32 where "VRING_DESC_ALIGN_SIZE = 16"

lemmas vring_flag_defs = VRING_DESC_F_NEXT_def VRING_DESC_F_WRITE_def VRING_DESC_F_INDIRECT_def

section \<open>The unified raw descriptor\<close>

datatype raw_descriptor = RawDescriptor u64 u32 u16 u16

section \<open>Split descriptors\<close>

record split_desc =
  sd_addr :: u64
  sd_len :: u32
  sd_flags :: u16
  sd_next :: u16

definition split_desc_new :: "u64 \<Rightarrow> u32 \<Rightarrow> u16 \<Rightarrow> u16 \<Rightarrow> split_desc" where
  "split_desc_new addr len flags next =
     \<lparr>sd_addr = addr, sd_len = len, sd_flags = flags, sd_next = next\<rparr>"

definition refers_to_indirect_table :: "split_desc \<Rightarrow> bool" where
  "refers_to_indirect_table d \<longleftrightarrow> sd_flags d AND ucast VRING_DESC_F_INDIRECT \<noteq> 0"

definition has_next :: "split_desc \<Rightarrow> bool" where
  "has_next d \<longleftrightarrow> sd_flags d AND ucast VRING_DESC_F_NEXT \<noteq> 0"

definition is_write_only :: "split_desc \<Rightarrow> bool" where
  "is_write_only d \<longleftrightarrow> sd_flags d AND ucast VRING_DESC_F_WRITE \<noteq> 0"

definition split_set_addr :: "split_desc \<Rightarrow> u64 \<Rightarrow> split_desc" where
  "split_set_addr d a = d\<lparr>sd_addr := a\<rparr>"

definition split_set_len :: "split_desc \<Rightarrow> u32 \<Rightarrow> split_desc" where
  "split_set_len d l = d\<lparr>sd_len := l\<rparr>"

definition split_set_flags :: "split_desc \<Rightarrow> u16 \<Rightarrow> split_desc" where
  "split_set_flags d f = d\<lparr>sd_flags := f\<rparr>"

definition split_set_next :: "split_desc \<Rightarrow> u16 \<Rightarrow> split_desc" where
  "split_set_next d n = d\<lparr>sd_next := n\<rparr>"

text \<open>The element of the used ring.\<close>

record virtq_used_elem =
  ue_id :: u32
  ue_len :: u32

definition virtq_used_elem_new :: "u32 \<Rightarrow> u32 \<Rightarrow> virtq_used_elem" where
  "virtq_used_elem_new i l = \<lparr>ue_id = i, ue_len = l\<rparr>"

section \<open>Packed descriptors\<close>

record packed_desc =
  pd_addr :: u64
  pd_len :: u32
  pd_id :: u16
  pd_flags :: u16

definition packed_desc_new :: "u64 \<Rightarrow> u32 \<Rightarrow> u16 \<Rightarrow> u16 \<Rightarrow> packed_desc" where
  "packed_desc_new addr len i flags =
     \<lparr>pd_addr = addr, pd_len = len, pd_id = i, pd_flags = flags\<rparr>"

definition packed_refers_to_indirect_table :: "packed_desc \<Rightarrow> bool" where
  "packed_refers_to_indirect_table d \<longleftrightarrow> pd_flags d AND ucast VRING_DESC_F_INDIRECT \<noteq> 0"

definition packed_has_next :: "packed_desc \<Rightarrow> bool" where
  "packed_has_next d \<longleftrightarrow> pd_flags d AND ucast VRING_DESC_F_NEXT \<noteq> 0"

definition packed_is_write_only :: "packed_desc \<Rightarrow> bool" where
  "packed_is_write_only d \<longleftrightarrow> pd_flags d AND ucast VRING_DESC_F_WRITE \<noteq> 0"

definition packed_set_addr :: "packed_desc \<Rightarrow> u64 \<Rightarrow> packed_desc" where
  "packed_set_addr d a = d\<lparr>pd_addr := a\<rparr>"

definition packed_set_len :: "packed_desc \<Rightarrow> u32 \<Rightarrow> packed_desc" where
  "packed_set_len d l = d\<lparr>pd_len := l\<rparr>"

definition packed_set_flags :: "packed_desc \<Rightarrow> u16 \<Rightarrow> packed_desc" where
  "packed_set_flags d f = d\<lparr>pd_flags := f\<rparr>"

definition packed_set_id :: "packed_desc \<Rightarrow> u16 \<Rightarrow> packed_desc" where
  "packed_set_id d i = d\<lparr>pd_id := i\<rparr>"

record packed_desc_event =
  pe_off_wrap :: u16
  pe_flags :: u16

definition packed_desc_event_new :: "u16 \<Rightarrow> u16 \<Rightarrow> packed_desc_event" where
  "packed_desc_event_new off_wrap flags = \<lparr>pe_off_wrap = off_wrap, pe_flags = flags\<rparr>"

section \<open>Conversions\<close>

definition raw_of_split :: "split_desc \<Rightarrow> raw_descriptor" where
  "raw_of_split d = RawDescriptor (sd_addr d) (sd_len d) (sd_flags d) (sd_next d)"

definition raw_of_packed :: "packed_desc \<Rightarrow> raw_descriptor" where
  "raw_of_packed d = RawDescriptor (pd_addr d) (pd_len d) (pd_id d) (pd_flags d)"

fun split_of_raw :: "raw_descriptor \<Rightarrow> split_desc" where
  "split_of_raw (RawDescriptor a l x y) = split_desc_new a l x y"

fun packed_of_raw :: "raw_descriptor \<Rightarrow> packed_desc" where
  "packed_of_raw (RawDescriptor a l x y) = packed_desc_new a l x y"

section \<open>Layout in guest memory\<close>

definition split_desc_bytes :: "split_desc \<Rightarrow> byte list" where
  "split_desc_bytes d =
     le_bytes 8 (sd_addr d) @ le_bytes 4 (sd_len d) @ le_bytes 2 (sd_flags d) @ le_bytes 2 (sd_next d)"

definition split_desc_of_bytes :: "byte list \<Rightarrow> split_desc" where
  "split_desc_of_bytes bs =
     \<lparr>sd_addr = le_word (take 8 bs),
      sd_len = le_word (take 4 (drop 8 bs)),
      sd_flags = le_word (take 2 (drop 12 bs)),
      sd_next = le_word (take 2 (drop 14 bs))\<rparr>"

fun raw_desc_bytes :: "raw_descriptor \<Rightarrow> byte list" where
  "raw_desc_bytes (RawDescriptor a l x y) =
     le_bytes 8 a @ le_bytes 4 l @ le_bytes 2 x @ le_bytes 2 y"

definition raw_desc_of_bytes :: "byte list \<Rightarrow> raw_descriptor" where
  "raw_desc_of_bytes bs =
     RawDescriptor (le_word (take 8 bs)) (le_word (take 4 (drop 8 bs)))
       (le_word (take 2 (drop 12 bs))) (le_word (take 2 (drop 14 bs)))"

definition packed_desc_bytes :: "packed_desc \<Rightarrow> byte list" where
  "packed_desc_bytes d =
     le_bytes 8 (pd_addr d) @ le_bytes 4 (pd_len d) @ le_bytes 2 (pd_id d) @ le_bytes 2 (pd_flags d)"

definition used_elem_bytes :: "virtq_used_elem \<Rightarrow> byte list" where
  "used_elem_bytes u = le_bytes 4 (ue_id u) @ le_bytes 4 (ue_len u)"

definition used_elem_of_bytes :: "byte list \<Rightarrow> virtq_used_elem" where
  "used_elem_of_bytes bs = \<lparr>ue_id = le_word (take 4 bs), ue_len = le_word (take 4 (drop 4 bs))\<rparr>"

lemma layout_lengths [simp]:
  "length (split_desc_bytes d) = 16"
  "length (raw_desc_bytes r) = 16"
  "length (packed_desc_bytes p) = 16"
  "length (used_elem_bytes u) = 8"
  by (simp_all add: split_desc_bytes_def packed_desc_bytes_def used_elem_bytes_def)
    (cases r, simp)

section \<open>Facts\<close>

lemma split_desc_new_simps [simp]:
  "sd_addr (split_desc_new a l f n) = a"
  "sd_len (split_desc_new a l f n) = l"
  "sd_flags (split_desc_new a l f n) = f"
  "sd_next (split_desc_new a l f n) = n"
  by (simp_all add: split_desc_new_def)

lemma desc_flags_bit [flag_simps]:
  "has_next d \<longleftrightarrow> bit (sd_flags d) 0"
  "is_write_only d \<longleftrightarrow> bit (sd_flags d) 1"
  "refers_to_indirect_table d \<longleftrightarrow> bit (sd_flags d) 2"
proof -
  have and_exp: "x AND 2 ^ k \<noteq> 0 \<longleftrightarrow> bit x k" if "k < 16" for x :: u16 and k
  proof -
    have "x AND 2 ^ k = (if bit x k then 2 ^ k else 0)"
      using that by (intro bit_word_eqI) (auto simp: bit_simps)
    moreover have "(2 ^ k :: u16) \<noteq> 0"
      using that by (simp add: exp_eq_zero_iff)
    ultimately show ?thesis by simp
  qed
  show "has_next d \<longleftrightarrow> bit (sd_flags d) 0"
    using and_exp[of 0 "sd_flags d"] by (simp add: has_next_def vring_flag_defs)
  show "is_write_only d \<longleftrightarrow> bit (sd_flags d) 1"
    using and_exp[of 1 "sd_flags d"] by (simp add: is_write_only_def vring_flag_defs)
  show "refers_to_indirect_table d \<longleftrightarrow> bit (sd_flags d) 2"
    using and_exp[of 2 "sd_flags d"] by (simp add: refers_to_indirect_table_def vring_flag_defs)
qed

declare bit_numeral_rec [flag_simps]

lemma split_of_raw_of_split [simp]: "split_of_raw (raw_of_split d) = d"
  by (simp add: raw_of_split_def split_desc_new_def)

lemma raw_of_split_of_raw [simp]: "raw_of_split (split_of_raw r) = r"
  by (cases r) (simp add: raw_of_split_def)

lemma packed_of_raw_of_packed [simp]: "packed_of_raw (raw_of_packed d) = d"
  by (simp add: raw_of_packed_def packed_desc_new_def)

lemma split_desc_of_bytes_inverse [simp]: "split_desc_of_bytes (split_desc_bytes d) = d"
  by (simp add: split_desc_of_bytes_def split_desc_bytes_def)

lemma used_elem_of_bytes_inverse [simp]: "used_elem_of_bytes (used_elem_bytes u) = u"
  by (simp add: used_elem_of_bytes_def used_elem_bytes_def)

lemma raw_desc_of_bytes_inverse [simp]: "raw_desc_of_bytes (raw_desc_bytes r) = r"
  by (cases r) (simp add: raw_desc_of_bytes_def)

lemma raw_desc_bytes_of_split [simp]: "raw_desc_bytes (raw_of_split d) = split_desc_bytes d"
  by (simp add: raw_of_split_def split_desc_bytes_def)

lemma split_desc_of_bytes_raw [simp]:
  "split_desc_of_bytes (raw_desc_bytes r) = split_of_raw r"
  by (cases r) (simp add: split_desc_of_bytes_def split_desc_new_def)

end
