(* ===== verification/Queue_Error.thy ===== *)
theory Queue_Error
  imports Guest_Memory
begin

text \<open>
  The error type of the crate \<open>virtio-queue\<close> (\<open>virtio-queue/src/lib.rs\<close>), its \<open>Display\<close> implementation and the
  comparison of errors by their displayed text (\<open>virtio-queue/src/queue.rs\<close>). The texts of the errors
  of \<open>vm-memory\<close> are parameters.
\<close>

datatype queue_error =
    AddressOverflow
  | GuestMemory gm_error
  | InvalidIndirectDescriptor
  | InvalidIndirectDescriptorTable
  | InvalidChain
  | InvalidDescriptorIndex
  | InvalidMaxSize
  | InvalidSize
  | InvalidDescTableAlign
  | InvalidAvailRingAlign
  | InvalidUsedRingAlign
  | InvalidAvailRingIndex
  | QueueNotReady
  | VolatileMemoryError vm_error
  | DescriptorChainOverflow
  | FindMemoryRegion
  | GuestMemoryError gm_error
  | SplitOutOfBounds nat

section \<open>Display\<close>

text \<open>Decimal formatting of an unsigned number.\<close>

fun show_nat :: "nat \<Rightarrow> string" where
  "show_nat n = (if n < 10 then [char_of (48 + n)] else show_nat (n div 10) @ [char_of (48 + n mod 10)])"

declare show_nat.simps [simp del]

fun queue_error_display :: "(gm_error \<Rightarrow> string) \<Rightarrow> (vm_error \<Rightarrow> string) \<Rightarrow> queue_error \<Rightarrow> string" where
  "queue_error_display g v AddressOverflow = ''address overflow''"
| "queue_error_display g v (GuestMemory _) = ''error accessing guest memory''"
| "queue_error_display g v InvalidChain = ''invalid descriptor chain''"
| "queue_error_display g v InvalidIndirectDescriptor = ''invalid indirect descriptor''"
| "queue_error_display g v InvalidIndirectDescriptorTable = ''invalid indirect descriptor table''"
| "queue_error_display g v InvalidDescriptorIndex = ''invalid descriptor index''"
| "queue_error_display g v InvalidMaxSize = ''invalid queue maximum size''"
| "queue_error_display g v InvalidSize = ''invalid queue size''"
| "queue_error_display g v InvalidDescTableAlign =
     ''virtio queue descriptor table breaks alignment constraints''"
| "queue_error_display g v InvalidAvailRingAlign =
     ''virtio queue available ring breaks alignment constraints''"
| "queue_error_display g v InvalidUsedRingAlign =
     ''virtio queue used ring breaks alignment constraints''"
| "queue_error_display g v InvalidAvailRingIndex =
     ''invalid available ring index (more descriptors to process than queue size)''"
| "queue_error_display g v QueueNotReady =
     ''trying to process requests on a queue that's not ready''"
| "queue_error_display g v (VolatileMemoryError e) = ''volatile memory error: '' @ v e"
| "queue_error_display g v DescriptorChainOverflow =
     ''the combined length of all the buffers in a `DescriptorChain` would overflow''"
| "queue_error_display g v FindMemoryRegion = ''no memory region for this address range''"
| "queue_error_display g v (GuestMemoryError e) = ''descriptor guest memory error: '' @ g e"
| "queue_error_display g v (SplitOutOfBounds off) =
     ''`DescriptorChain` split is out of bounds: '' @ show_nat off"

text \<open>Errors are equal when they display the same text.\<close>

definition queue_error_eq ::
    "(gm_error \<Rightarrow> string) \<Rightarrow> (vm_error \<Rightarrow> string) \<Rightarrow> queue_error \<Rightarrow> queue_error \<Rightarrow> bool" where
  "queue_error_eq g v e e' \<longleftrightarrow> queue_error_display g v e = queue_error_display g v e'"

section \<open>What the comparison distinguishes\<close>

text \<open>The variant of an error and the text of its payload; the payload of \<open>GuestMemory\<close> is not
  displayed.\<close>

fun queue_error_key :: "(gm_error \<Rightarrow> string) \<Rightarrow> (vm_error \<Rightarrow> string) \<Rightarrow> queue_error \<Rightarrow> nat \<times> string" where
  "queue_error_key g v AddressOverflow = (0, [])"
| "queue_error_key g v (GuestMemory _) = (1, [])"
| "queue_error_key g v InvalidIndirectDescriptor = (2, [])"
| "queue_error_key g v InvalidIndirectDescriptorTable = (3, [])"
| "queue_error_key g v InvalidChain = (4, [])"
| "queue_error_key g v InvalidDescriptorIndex = (5, [])"
| "queue_error_key g v InvalidMaxSize = (6, [])"
| "queue_error_key g v InvalidSize = (7, [])"
| "queue_error_key g v InvalidDescTableAlign = (8, [])"
| "queue_error_key g v InvalidAvailRingAlign = (9, [])"
| "queue_error_key g v InvalidUsedRingAlign = (10, [])"
| "queue_error_key g v InvalidAvailRingIndex = (11, [])"
| "queue_error_key g v QueueNotReady = (12, [])"
| "queue_error_key g v (VolatileMemoryError e) = (13, v e)"
| "queue_error_key g v DescriptorChainOverflow = (14, [])"
| "queue_error_key g v FindMemoryRegion = (15, [])"
| "queue_error_key g v (GuestMemoryError e) = (16, g e)"
| "queue_error_key g v (SplitOutOfBounds off) = (17, show_nat off)"

lemma queue_error_eq_key:
  "queue_error_eq g v e e' \<longleftrightarrow> queue_error_key g v e = queue_error_key g v e'"
  by (cases e; cases e') (simp_all add: queue_error_eq_def)

end
