(* ===== verification/Descriptor_Chain.thy ===== *)
theory Descriptor_Chain
  imports Descriptors Queue_Error
begin

text \<open>
  \<open>DescriptorChain\<close> and its iterators (\<open>virtio-queue/src/chain.rs\<close>). A chain does not store the memory
  object; it is an argument of the operations instead. Iterating a chain visits guest controlled
  links, so the main results are about arbitrary memory: the iteration ends, it yields a bounded
  number of descriptors whose lengths add up to less than \<open>2 ^ 32\<close>, and it never yields an indirect
  descriptor. For chains a driver lays out properly it yields exactly the descriptors laid out.
\<close>

section \<open>The chain\<close>

record desc_chain =
  dc_desc_table :: u64
  dc_queue_size :: u16
  dc_head_index :: u16
  dc_next_index :: u16
  dc_ttl :: u16
  dc_yielded_bytes :: u32
  dc_is_indirect :: bool

definition chain_with_ttl :: "u64 \<Rightarrow> u16 \<Rightarrow> u16 \<Rightarrow> u16 \<Rightarrow> desc_chain" where
  "chain_with_ttl desc_table queue_size ttl head_index =
     \<lparr>dc_desc_table = desc_table,
      dc_queue_size = queue_size,
      dc_head_index = head_index,
      dc_next_index = head_index,
      dc_ttl = ttl,
      dc_yielded_bytes = 0,
      dc_is_indirect = False\<rparr>"

definition chain_new :: "u64 \<Rightarrow> u16 \<Rightarrow> u16 \<Rightarrow> desc_chain" where
  "chain_new desc_table queue_size head_index =
     chain_with_ttl desc_table queue_size queue_size head_index"

text \<open>Alters the chain to iterate over the indirect table that \<open>desc\<close> defines.\<close>

definition switch_to_indirect_table :: "desc_chain \<Rightarrow> split_desc \<Rightarrow> queue_error + desc_chain" where
  "switch_to_indirect_table c desc =
     (if dc_is_indirect c then Inl InvalidIndirectDescriptor
      else if sd_len desc AND (VRING_DESC_ALIGN_SIZE - 1) \<noteq> 0 then Inl InvalidIndirectDescriptorTable
      else let table_len = sd_len desc div VRING_DESC_ALIGN_SIZE in
        if table_len > 65535 then Inl InvalidIndirectDescriptorTable
        else Inr (c\<lparr>dc_desc_table := sd_addr desc,
                    dc_queue_size := ucast table_len,
                    dc_next_index := 0,
                    dc_ttl := ucast table_len,
                    dc_is_indirect := True\<rparr>))"

text \<open>\<open>read_obj::<Descriptor>\<close>.\<close>

definition read_split_desc :: "'m guest_memory \<Rightarrow> 'm \<Rightarrow> u64 \<Rightarrow> gm_error + split_desc" where
  "read_split_desc G m a =
     (case gm_read_slice G m a 16 of Inl e \<Rightarrow> Inl e | Inr bs \<Rightarrow> Inr (split_desc_of_bytes bs))"

lemma switch_indirect:
  "switch_to_indirect_table c desc = Inr c' \<Longrightarrow> dc_is_indirect c' \<and> \<not> dc_is_indirect c"
  by (auto simp: switch_to_indirect_table_def Let_def split: if_splits)

section \<open>Iteration\<close>

function chain_next :: "'m guest_memory \<Rightarrow> 'm \<Rightarrow> desc_chain \<Rightarrow> desc_chain \<times> split_desc option" where
  "chain_next G m c =
     (if dc_ttl c = 0 \<or> dc_next_index c \<ge> dc_queue_size c then (c, None)
      else case checked_add (dc_desc_table c) (ucast (dc_next_index c) * 16) of
        None \<Rightarrow> (c, None)
      | Some desc_addr \<Rightarrow>
          (case read_split_desc G m desc_addr of
             Inl _ \<Rightarrow> (c, None)
           | Inr desc \<Rightarrow>
               if refers_to_indirect_table desc then
                 (case switch_to_indirect_table c desc of
                    Inl _ \<Rightarrow> (c, None)
                  | Inr c' \<Rightarrow> chain_next G m c')
               else
                 (case checked_add (dc_yielded_bytes c) (sd_len desc) of
                    None \<Rightarrow> (c, None)
                  | Some yielded_bytes \<Rightarrow>
                      let c1 = c\<lparr>dc_yielded_bytes := yielded_bytes\<rparr> in
                      if has_next desc
                      then (c1\<lparr>dc_next_index := sd_next desc, dc_ttl := dc_ttl c1 - 1\<rparr>, Some desc)
                      else (c1\<lparr>dc_ttl := 0\<rparr>, Some desc))))"
  by pat_completeness auto
termination
  by (relation "measure (\<lambda>(G, m, c). if dc_is_indirect c then 0 else 1)")
    (auto dest: switch_indirect)

declare chain_next.simps [simp del]

text \<open>What is left to visit: the direct part may still switch to an indirect table, at most once.\<close>

definition chain_bound :: "desc_chain \<Rightarrow> nat" where
  "chain_bound c =
     (if dc_is_indirect c then unat (dc_ttl c) else unat (dc_ttl c) + 65534)"

lemma unat_minus_1_less: "x \<noteq> 0 \<Longrightarrow> Suc (unat (x - 1)) = unat (x :: 'a::len word)"
  using unat_gt_0[of x] by (simp add: unat_minus_one)

text \<open>One step of the iteration, inverted: the descriptor comes from the current table or from the
  indirect table the chain switched to.\<close>

lemma chain_next_Some:
  assumes "chain_next G m c = (c', Some d)"
  shows "\<not> refers_to_indirect_table d \<and> Suc (chain_bound c') \<le> chain_bound c \<and>
    unat (dc_yielded_bytes c') = unat (dc_yielded_bytes c) + unat (sd_len d)"
  using assms
proof (induction G m c rule: chain_next.induct)
  case (1 G m c)
  have ttl: "dc_ttl c \<noteq> 0"
    using "1.prems" by (subst (asm) chain_next.simps) (auto split: if_splits)
  from "1.prems" ttl obtain a desc where
      a: "\<not> (dc_ttl c = 0 \<or> dc_next_index c \<ge> dc_queue_size c)"
         "checked_add (dc_desc_table c) (ucast (dc_next_index c) * 16) = Some a"
         "read_split_desc G m a = Inr desc"
    by (subst (asm) chain_next.simps) (auto split: if_splits option.splits sum.splits)
  show ?case
  proof (cases "refers_to_indirect_table desc")
    case True
    with a "1.prems" obtain c1 where c1: "switch_to_indirect_table c desc = Inr c1"
        and n: "chain_next G m c1 = (c', Some d)"
      by (subst (asm) chain_next.simps) (auto split: sum.splits)
    have "Suc (chain_bound c') \<le> chain_bound c1"
      "unat (dc_yielded_bytes c') = unat (dc_yielded_bytes c1) + unat (sd_len d)"
      "\<not> refers_to_indirect_table d"
      using "1.IH" [OF a True c1 n] by auto
    moreover have "chain_bound c1 \<le> chain_bound c"
      using c1 ttl unat_gt_0[of "dc_ttl c"] unat_u16_bound[of "dc_ttl c1"]
      by (auto simp: chain_bound_def switch_to_indirect_table_def Let_def split: if_splits
          simp del: unat_u16_bound)
    moreover have "dc_yielded_bytes c1 = dc_yielded_bytes c"
      using c1 by (auto simp: switch_to_indirect_table_def Let_def split: if_splits)
    ultimately show ?thesis by auto
  next
    case False
    with a "1.prems" ttl unat_minus_1_less [OF ttl] show ?thesis
      by (subst (asm) chain_next.simps)
        (auto simp: chain_bound_def checked_add_eq_Some Let_def split: if_splits option.splits)
  qed
qed

text \<open>Driving the iterator to its end.\<close>

function chain_collect :: "'m guest_memory \<Rightarrow> 'm \<Rightarrow> desc_chain \<Rightarrow> split_desc list" where
  "chain_collect G m c =
     (case chain_next G m c of
        (_, None) \<Rightarrow> []
      | (c', Some d) \<Rightarrow> d # chain_collect G m c')"
  by pat_completeness auto
termination
  by (relation "measure (\<lambda>(G, m, c). chain_bound c)")
    (auto dest!: sym [of "(_, _)"] chain_next_Some)

declare chain_collect.simps [simp del]

lemma chain_collect_None: "chain_next G m c = (c', None) \<Longrightarrow> chain_collect G m c = []"
  by (subst chain_collect.simps) simp

lemma chain_collect_Some:
  "chain_next G m c = (c', Some d) \<Longrightarrow> chain_collect G m c = d # chain_collect G m c'"
  by (subst chain_collect.simps) simp

section \<open>The iterators over readable or writable descriptors\<close>

record rw_iter =
  rw_chain :: desc_chain
  rw_writable :: bool

definition chain_readable :: "desc_chain \<Rightarrow> rw_iter" where
  "chain_readable c = \<lparr>rw_chain = c, rw_writable = False\<rparr>"

definition chain_writable :: "desc_chain \<Rightarrow> rw_iter" where
  "chain_writable c = \<lparr>rw_chain = c, rw_writable = True\<rparr>"

function rw_next :: "'m guest_memory \<Rightarrow> 'm \<Rightarrow> rw_iter \<Rightarrow> rw_iter \<times> split_desc option" where
  "rw_next G m it =
     (case chain_next G m (rw_chain it) of
        (c, None) \<Rightarrow> (it\<lparr>rw_chain := c\<rparr>, None)
      | (c, Some v) \<Rightarrow>
          if is_write_only v = rw_writable it then (it\<lparr>rw_chain := c\<rparr>, Some v)
          else rw_next G m (it\<lparr>rw_chain := c\<rparr>))"
  by pat_completeness auto
termination
  by (relation "measure (\<lambda>(G, m, it). chain_bound (rw_chain it))")
    (auto dest!: sym [of "(_, _)"] chain_next_Some)

declare rw_next.simps [simp del]

lemma rw_next_bound:
  "rw_next G m it = (it', Some d) \<Longrightarrow>
     Suc (chain_bound (rw_chain it')) \<le> chain_bound (rw_chain it) \<and> rw_writable it' = rw_writable it"
proof (induction G m it rule: rw_next.induct)
  case (1 G m it)
  show ?case
  proof (cases "chain_next G m (rw_chain it)")
    case (Pair c r)
    with "1.prems" obtain v where r: "r = Some v"
      by (subst (asm) rw_next.simps) (auto split: option.splits)
    have b: "Suc (chain_bound c) \<le> chain_bound (rw_chain it)"
      using chain_next_Some [of G m "rw_chain it" c v] Pair r by simp
    show ?thesis
    proof (cases "is_write_only v = rw_writable it")
      case True
      with "1.prems" Pair r b show ?thesis by (subst (asm) rw_next.simps) auto
    next
      case False
      with "1.prems" Pair r have "rw_next G m (it\<lparr>rw_chain := c\<rparr>) = (it', Some d)"
        by (subst (asm) rw_next.simps) auto
      with "1.IH" [OF Pair[symmetric] r False] Pair r b show ?thesis by auto
    qed
  qed
qed

function rw_collect :: "'m guest_memory \<Rightarrow> 'm \<Rightarrow> rw_iter \<Rightarrow> split_desc list" where
  "rw_collect G m it =
     (case rw_next G m it of (_, None) \<Rightarrow> [] | (it', Some d) \<Rightarrow> d # rw_collect G m it')"
  by pat_completeness auto
termination
  by (relation "measure (\<lambda>(G, m, it). chain_bound (rw_chain it))")
    (auto dest!: sym [of "(_, _)"] rw_next_bound)

declare rw_collect.simps [simp del]

section \<open>Iteration over arbitrary memory\<close>

lemma chain_induct [case_names None Some]:
  assumes none: "\<And>G m c c'. chain_next G m c = (c', None) \<Longrightarrow> P G m c"
    and some: "\<And>G m c c' d. chain_next G m c = (c', Some d) \<Longrightarrow> P G m c' \<Longrightarrow> P G m c"
  shows "P G m c"
proof (induction G m c rule: chain_collect.induct)
  case (1 G m c)
  show ?case
  proof (cases "chain_next G m c")
    case (Pair c' r)
    then show ?thesis
      by (cases r) (auto intro: none some "1.IH" [OF Pair[symmetric]])
  qed
qed

lemma chain_collect_length: "length (chain_collect G m c) \<le> chain_bound c"
  by (induction G m c rule: chain_induct)
    (auto simp: chain_collect_None chain_collect_Some dest: chain_next_Some)

lemma chain_collect_bytes:
  "unat (dc_yielded_bytes c) + sum_list (map (\<lambda>d. unat (sd_len d)) (chain_collect G m c)) < 2 ^ 32"
  by (induction G m c rule: chain_induct)
    (auto simp: chain_collect_None chain_collect_Some dest: chain_next_Some)

lemma chain_collect_direct: "\<forall>d \<in> set (chain_collect G m c). \<not> refers_to_indirect_table d"
  by (induction G m c rule: chain_induct)
    (auto simp: chain_collect_None chain_collect_Some dest: chain_next_Some)

lemma rw_collect_filter:
  "rw_collect G m it =
     filter (\<lambda>d. is_write_only d = rw_writable it) (chain_collect G m (rw_chain it))"
proof (induction G m "rw_chain it" arbitrary: it rule: chain_induct)
  case (None G m c')
  then show ?case
    by (subst rw_collect.simps, subst rw_next.simps) (simp add: chain_collect_None)
next
  case (Some G m c' d)
  have IH: "rw_collect G m (it\<lparr>rw_chain := c'\<rparr>) =
      filter (\<lambda>d. is_write_only d = rw_writable it) (chain_collect G m c')"
    using Some.hyps(2) [of "it\<lparr>rw_chain := c'\<rparr>"] by simp
  show ?case
  proof (cases "is_write_only d = rw_writable it")
    case True
    with Some.hyps(1) have "rw_next G m it = (it\<lparr>rw_chain := c'\<rparr>, Some d)"
      by (subst rw_next.simps) simp
    with IH True Some.hyps(1) show ?thesis
      by (subst rw_collect.simps) (simp add: chain_collect_Some)
  next
    case False
    with Some.hyps(1) have "rw_next G m it = rw_next G m (it\<lparr>rw_chain := c'\<rparr>)"
      by (subst rw_next.simps) simp
    then have "rw_collect G m it = rw_collect G m (it\<lparr>rw_chain := c'\<rparr>)"
      by (simp add: rw_collect.simps [of G m it] rw_collect.simps [of G m "it\<lparr>rw_chain := c'\<rparr>"])
    with IH False Some.hyps(1) show ?thesis by (simp add: chain_collect_Some)
  qed
qed

section \<open>Chains a driver lays out\<close>

text \<open>Entry \<open>i\<close> of the table at \<open>tbl\<close> with \<open>qs\<close> entries holds the descriptor \<open>d\<close>.\<close>

definition table_entry :: "'m guest_memory \<Rightarrow> 'm \<Rightarrow> u64 \<Rightarrow> u16 \<Rightarrow> u16 \<Rightarrow> split_desc \<Rightarrow> bool" where
  "table_entry G m tbl qs i d \<longleftrightarrow>
     i < qs \<and> unat tbl + unat i * 16 < 2 ^ 64 \<and>
     read_split_desc G m (tbl + ucast i * 16) = Inr d"

text \<open>The descriptors \<open>ds\<close> are chained in the table, starting at entry \<open>i\<close>: every one but the last has
  the next flag and names the entry of its successor; none is indirect.\<close>

fun laid_out :: "'m guest_memory \<Rightarrow> 'm \<Rightarrow> u64 \<Rightarrow> u16 \<Rightarrow> u16 \<Rightarrow> split_desc list \<Rightarrow> bool" where
  "laid_out G m tbl qs i [] = False"
| "laid_out G m tbl qs i [d] =
     (table_entry G m tbl qs i d \<and> \<not> refers_to_indirect_table d \<and> \<not> has_next d)"
| "laid_out G m tbl qs i (d # d' # ds) =
     (table_entry G m tbl qs i d \<and> \<not> refers_to_indirect_table d \<and> has_next d \<and>
      laid_out G m tbl qs (sd_next d) (d' # ds))"

lemma table_entry_addr:
  assumes "unat tbl + unat i * 16 < 2 ^ 64"
  shows "checked_add (tbl :: u64) (ucast (i :: u16) * 16) = Some (tbl + ucast i * 16)"
proof -
  have "unat (ucast i * 16 :: u64) = unat i * 16"
    using unat_u16_bound[of i] by (simp add: unat_word_ariths del: unat_u16_bound)
  with assms show ?thesis by (simp add: checked_add_def)
qed

lemma chain_next_entry:
  assumes "table_entry G m (dc_desc_table c) (dc_queue_size c) (dc_next_index c) d"
    and "\<not> refers_to_indirect_table d" and "dc_ttl c \<noteq> 0"
    and "unat (dc_yielded_bytes c) + unat (sd_len d) < 2 ^ 32"
  shows "chain_next G m c =
    (if has_next d
     then (c\<lparr>dc_yielded_bytes := dc_yielded_bytes c + sd_len d, dc_next_index := sd_next d,
             dc_ttl := dc_ttl c - 1\<rparr>, Some d)
     else (c\<lparr>dc_yielded_bytes := dc_yielded_bytes c + sd_len d, dc_ttl := 0\<rparr>, Some d))"
  using assms
  by (subst chain_next.simps)
    (auto simp: table_entry_def table_entry_addr checked_add_SomeI Let_def)

lemma chain_collect_laid_out:
  assumes "laid_out G m (dc_desc_table c) (dc_queue_size c) (dc_next_index c) ds"
    and "length ds \<le> unat (dc_ttl c)"
    and "unat (dc_yielded_bytes c) + sum_list (map (\<lambda>d. unat (sd_len d)) ds) < 2 ^ 32"
  shows "chain_collect G m c = ds"
  using assms
proof (induction ds arbitrary: c)
  case Nil
  then show ?case by simp
next
  case (Cons d ds)
  have e: "table_entry G m (dc_desc_table c) (dc_queue_size c) (dc_next_index c) d"
      "\<not> refers_to_indirect_table d"
    using Cons.prems(1) by (cases ds; simp)+
  have t: "dc_ttl c \<noteq> 0" and b: "unat (dc_yielded_bytes c) + unat (sd_len d) < 2 ^ 32"
    using Cons.prems(2,3) by auto
  note step = chain_next_entry [OF e t b]
  show ?case
  proof (cases ds)
    case nil: Nil
    with Cons.prems(1) step obtain c' where
        "chain_next G m c = (c', Some d)" and "dc_ttl c' = 0"
      by simp
    moreover from this(2) have "chain_next G m c' = (c', None)"
      by (subst chain_next.simps) simp
    ultimately show ?thesis
      using nil by (simp add: chain_collect_Some chain_collect_None)
  next
    case more: (Cons d' ds')
    let ?c = "c\<lparr>dc_yielded_bytes := dc_yielded_bytes c + sd_len d, dc_next_index := sd_next d,
             dc_ttl := dc_ttl c - 1\<rparr>"
    have "chain_next G m c = (?c, Some d)"
      using step Cons.prems(1) more by simp
    moreover have "chain_collect G m ?c = ds"
      using Cons.prems more unat_minus_1_less [OF t] unat_add_no_wrap [of "dc_yielded_bytes c" "sd_len d"]
      by (intro Cons.IH) auto
    ultimately show ?thesis by (simp add: chain_collect_Some)
  qed
qed

text \<open>A chain whose head refers to an indirect table of \<open>n\<close> entries yields the descriptors laid out in
  that table.\<close>

lemma switch_to_indirect_table_Inr:
  assumes "\<not> dc_is_indirect c" and "unat (sd_len d) = 16 * n" and "n < 2 ^ 16"
  shows "switch_to_indirect_table c d =
    Inr (c\<lparr>dc_desc_table := sd_addr d, dc_queue_size := of_nat n, dc_next_index := 0,
           dc_ttl := of_nat n, dc_is_indirect := True\<rparr>)"
proof -
  have "sd_len d div 16 = of_nat n"
    using assms(2,3) by (simp add: word_unat_eq_iff unat_div unat_of_nat)
  moreover have "sd_len d AND 15 = 0" using assms(2) by (simp add: and_alignment)
  moreover have "\<not> (of_nat n > (65535 :: u32))"
    using assms(3) by (simp add: word_less_nat_alt unat_of_nat)
  moreover have "ucast (of_nat n :: u32) = (of_nat n :: u16)"
    using assms(3) by (simp add: word_unat_eq_iff unsigned_ucast_eq unat_of_nat take_bit_eq_mod)
  ultimately show ?thesis
    using assms(1) by (simp add: switch_to_indirect_table_def VRING_DESC_ALIGN_SIZE_def Let_def)
qed

lemma chain_collect_indirect:
  assumes "table_entry G m (dc_desc_table c) (dc_queue_size c) (dc_next_index c) d"
    and "refers_to_indirect_table d" and "dc_ttl c \<noteq> 0" and "\<not> dc_is_indirect c"
    and "unat (sd_len d) = 16 * n" and "n < 2 ^ 16"
    and "laid_out G m (sd_addr d) (of_nat n) 0 ds" and "length ds \<le> n"
    and "unat (dc_yielded_bytes c) + sum_list (map (\<lambda>d. unat (sd_len d)) ds) < 2 ^ 32"
  shows "chain_collect G m c = ds"
proof -
  let ?c = "c\<lparr>dc_desc_table := sd_addr d, dc_queue_size := of_nat n, dc_next_index := 0,
           dc_ttl := of_nat n, dc_is_indirect := True\<rparr>"
  have "chain_next G m c = chain_next G m ?c"
    using assms(1-3) switch_to_indirect_table_Inr [OF assms(4-6)]
    by (subst chain_next.simps) (auto simp: table_entry_def table_entry_addr)
  then have "chain_collect G m c = chain_collect G m ?c"
    by (simp add: chain_collect.simps [of G m c] chain_collect.simps [of G m ?c])
  also have "\<dots> = ds"
    using assms(6-9) by (intro chain_collect_laid_out) (simp_all add: unat_of_nat)
  finally show ?thesis .
qed

section \<open>Framing\<close>

context guest_mem
begin

text \<open>The descriptors laid out in a table depend on the bytes of the table only.\<close>

lemma read_split_desc_value:
  assumes "acc m tbl (16 * unat qs)" and "i < (qs :: u16)"
  shows "read_split_desc G m (tbl + ucast i * 16) =
    Inr (split_desc_of_bytes (peek_bytes (peek m) (tbl + of_nat (16 * unat i)) 16))"
proof -
  have "tbl + ucast i * 16 = tbl + of_nat (16 * unat i)" by simp
  moreover have "acc m (tbl + of_nat (16 * unat i)) 16"
    using assms by (intro acc_sub [of m tbl "16 * unat qs"]) (auto simp: word_less_nat_alt)
  ultimately show ?thesis using read_law by (simp add: read_split_desc_def del: of_nat_mult)
qed

lemma table_entry_frame:
  assumes "acc m tbl (16 * unat qs)" and "acc m' = acc m"
    and "peek_bytes (peek m') tbl (16 * unat qs) = peek_bytes (peek m) tbl (16 * unat qs)"
  shows "table_entry G m' tbl qs i d \<longleftrightarrow> table_entry G m tbl qs i d"
proof (cases "i < qs")
  case True
  have "peek m' (tbl + of_nat k) = peek m (tbl + of_nat k)" if "k < 16 * unat qs" for k
    using arg_cong [OF assms(3), of "\<lambda>xs. xs ! k"] that by simp
  moreover have "16 * unat i + k < 16 * unat qs" if "k < 16" for k
    using True that by (simp add: word_less_nat_alt)
  ultimately have "peek_bytes (peek m') (tbl + of_nat (16 * unat i)) 16 =
      peek_bytes (peek m) (tbl + of_nat (16 * unat i)) 16"
    by (intro nth_equalityI) (simp_all add: add.assoc del: of_nat_mult flip: of_nat_add)
  then show ?thesis
    using True read_split_desc_value [of m tbl qs i] read_split_desc_value [of m' tbl qs i] assms(1,2)
    by (simp add: table_entry_def)
qed (simp add: table_entry_def)

lemma laid_out_frame:
  assumes "acc m tbl (16 * unat qs)" and "acc m' = acc m"
    and "peek_bytes (peek m') tbl (16 * unat qs) = peek_bytes (peek m) tbl (16 * unat qs)"
  shows "laid_out G m' tbl qs i ds \<longleftrightarrow> laid_out G m tbl qs i ds"
proof (induction ds arbitrary: i)
  case (Cons d ds)
  then show ?case by (cases ds) (simp_all add: table_entry_frame [OF assms])
qed simp

end

end
