(* ===== verification/Queue_Core.thy ===== *)
theory Queue_Core
  imports Descriptor_Chain
begin

text \<open>
  \<open>Queue\<close> (\<open>virtio-queue/src/queue.rs\<close>) with the constants of \<open>defs.rs\<close>: configuration of a split
  virtqueue, its validation, the available and used ring indices, notification suppression and the
  used ring. The invariant \<open>wf_queue\<close> is established by \<open>queue_new\<close> and kept by every operation.
\<close>

section \<open>Constants\<close>

definition VIRTQ_USED_RING_HEADER_SIZE :: u64 where "VIRTQ_USED_RING_HEADER_SIZE = 4"
definition VIRTQ_USED_RING_META_SIZE :: u64 where
  "VIRTQ_USED_RING_META_SIZE = VIRTQ_USED_RING_HEADER_SIZE + 2"
definition VIRTQ_USED_ELEMENT_SIZE :: u64 where "VIRTQ_USED_ELEMENT_SIZE = 8"
definition VIRTQ_AVAIL_RING_HEADER_SIZE :: u64 where "VIRTQ_AVAIL_RING_HEADER_SIZE = 4"
definition VIRTQ_AVAIL_RING_META_SIZE :: u64 where
  "VIRTQ_AVAIL_RING_META_SIZE = VIRTQ_AVAIL_RING_HEADER_SIZE + 2"
definition VIRTQ_AVAIL_ELEMENT_SIZE :: u64 where "VIRTQ_AVAIL_ELEMENT_SIZE = 2"
definition DEFAULT_DESC_TABLE_ADDR :: u64 where "DEFAULT_DESC_TABLE_ADDR = 0"
definition DEFAULT_AVAIL_RING_ADDR :: u64 where "DEFAULT_AVAIL_RING_ADDR = 0"
definition DEFAULT_USED_RING_ADDR :: u64 where "DEFAULT_USED_RING_ADDR = 0"
definition MAX_QUEUE_SIZE :: u16 where "MAX_QUEUE_SIZE = 32768"

lemmas queue_const_defs =
  VIRTQ_USED_RING_HEADER_SIZE_def VIRTQ_USED_RING_META_SIZE_def VIRTQ_USED_ELEMENT_SIZE_def
  VIRTQ_AVAIL_RING_HEADER_SIZE_def VIRTQ_AVAIL_RING_META_SIZE_def VIRTQ_AVAIL_ELEMENT_SIZE_def
  DEFAULT_DESC_TABLE_ADDR_def DEFAULT_AVAIL_RING_ADDR_def DEFAULT_USED_RING_ADDR_def

section \<open>The queue\<close>

record queue =
  q_max_size :: u16
  q_next_avail :: u16
  q_next_used :: u16
  q_event_idx_enabled :: bool
  q_num_added :: u16
  q_size :: u16
  q_ready :: bool
  q_desc_table :: u64
  q_avail_ring :: u64
  q_used_ring :: u64

definition try_set_size :: "queue \<Rightarrow> u16 \<Rightarrow> queue \<times> (queue_error + unit)" where
  "try_set_size q sz =
     (if sz > q_max_size q \<or> sz = 0 \<or> sz AND (sz - 1) \<noteq> 0 then (q, Inl InvalidSize)
      else (q\<lparr>q_size := sz\<rparr>, Inr ()))"

definition try_set_desc_table_address :: "queue \<Rightarrow> u64 \<Rightarrow> queue \<times> (queue_error + unit)" where
  "try_set_desc_table_address q desc_table =
     (if desc_table AND 15 \<noteq> 0 then (q, Inl InvalidDescTableAlign)
      else (q\<lparr>q_desc_table := desc_table\<rparr>, Inr ()))"

definition try_set_avail_ring_address :: "queue \<Rightarrow> u64 \<Rightarrow> queue \<times> (queue_error + unit)" where
  "try_set_avail_ring_address q avail_ring =
     (if avail_ring AND 1 \<noteq> 0 then (q, Inl InvalidAvailRingAlign)
      else (q\<lparr>q_avail_ring := avail_ring\<rparr>, Inr ()))"

definition try_set_used_ring_address :: "queue \<Rightarrow> u64 \<Rightarrow> queue \<times> (queue_error + unit)" where
  "try_set_used_ring_address q used_ring =
     (if used_ring AND 3 \<noteq> 0 then (q, Inl InvalidUsedRingAlign)
      else (q\<lparr>q_used_ring := used_ring\<rparr>, Inr ()))"

subsection \<open>Ring fields\<close>

definition set_avail_event ::
    "'m guest_memory \<Rightarrow> queue \<Rightarrow> 'm \<Rightarrow> u16 \<Rightarrow> ordering \<Rightarrow> 'm \<times> (queue_error + unit)" where
  "set_avail_event G q m val ord =
     (let avail_event_offset =
            VIRTQ_USED_RING_HEADER_SIZE + VIRTQ_USED_ELEMENT_SIZE * ucast (q_size q) in
      case checked_add (q_used_ring q) avail_event_offset of
        None \<Rightarrow> (m, Inl AddressOverflow)
      | Some addr \<Rightarrow>
          (case store_u16 G m addr (to_le (gm_endian G) val) ord of
             (m', r) \<Rightarrow> (m', map_err GuestMemory r)))"

definition set_used_flags ::
    "'m guest_memory \<Rightarrow> queue \<Rightarrow> 'm \<Rightarrow> u16 \<Rightarrow> ordering \<Rightarrow> 'm \<times> (queue_error + unit)" where
  "set_used_flags G q m val ord =
     (case store_u16 G m (q_used_ring q) (to_le (gm_endian G) val) ord of
        (m', r) \<Rightarrow> (m', map_err GuestMemory r))"

definition set_notification ::
    "'m guest_memory \<Rightarrow> queue \<Rightarrow> 'm \<Rightarrow> bool \<Rightarrow> 'm \<times> (queue_error + unit)" where
  "set_notification G q m enable =
     (if enable then
        (if q_event_idx_enabled q then set_avail_event G q m (q_next_avail q) Relaxed
         else set_used_flags G q m 0 Relaxed)
      else if \<not> q_event_idx_enabled q then
        set_used_flags G q m (ucast VRING_USED_F_NO_NOTIFY) Relaxed
      else (m, Inr ()))"

definition used_event :: "'m guest_memory \<Rightarrow> queue \<Rightarrow> 'm \<Rightarrow> ordering \<Rightarrow> queue_error + u16" where
  "used_event G q m ord =
     (let used_event_offset =
            VIRTQ_AVAIL_RING_HEADER_SIZE + ucast (q_size q) * VIRTQ_AVAIL_ELEMENT_SIZE in
      case checked_add (q_avail_ring q) used_event_offset of
        None \<Rightarrow> Inl AddressOverflow
      | Some used_event_addr \<Rightarrow>
          (case load_u16 G m used_event_addr ord of
             Inl e \<Rightarrow> Inl (GuestMemory e)
           | Inr v \<Rightarrow> Inr (from_le (gm_endian G) v)))"

subsection \<open>The trait \<open>QueueT\<close>\<close>

definition queue_new :: "u16 \<Rightarrow> queue_error + queue" where
  "queue_new max_size =
     (if max_size = 0 \<or> max_size > MAX_QUEUE_SIZE \<or> max_size AND (max_size - 1) \<noteq> 0
      then Inl InvalidMaxSize
      else Inr \<lparr>q_max_size = max_size,
                q_next_avail = 0,
                q_next_used = 0,
                q_event_idx_enabled = False,
                q_num_added = 0,
                q_size = max_size,
                q_ready = False,
                q_desc_table = DEFAULT_DESC_TABLE_ADDR,
                q_avail_ring = DEFAULT_AVAIL_RING_ADDR,
                q_used_ring = DEFAULT_USED_RING_ADDR\<rparr>)"

text \<open>The test \<open>is_none_or(|v| !mem.address_in_range(v))\<close> on the end of a ring.\<close>

definition end_out_of_range :: "'m guest_memory \<Rightarrow> 'm \<Rightarrow> u64 \<Rightarrow> u64 \<Rightarrow> bool" where
  "end_out_of_range G m start sz =
     (case checked_add start sz of None \<Rightarrow> True | Some v \<Rightarrow> \<not> gm_address_in_range G m v)"

definition is_valid :: "'m guest_memory \<Rightarrow> queue \<Rightarrow> 'm \<Rightarrow> bool" where
  "is_valid G q m =
     (let queue_size = ucast (q_size q) :: u64;
          desc_table_size = 16 * queue_size;
          avail_ring_size = VIRTQ_AVAIL_RING_META_SIZE + VIRTQ_AVAIL_ELEMENT_SIZE * queue_size;
          used_ring_size = VIRTQ_USED_RING_META_SIZE + VIRTQ_USED_ELEMENT_SIZE * queue_size in
      if \<not> q_ready q then False
      else if end_out_of_range G m (q_desc_table q) desc_table_size then False
      else if end_out_of_range G m (q_avail_ring q) avail_ring_size then False
      else if end_out_of_range G m (q_used_ring q) used_ring_size then False
      else True)"

definition queue_reset :: "queue \<Rightarrow> queue" where
  "queue_reset q = q\<lparr>q_ready := False,
     q_size := q_max_size q,
     q_desc_table := DEFAULT_DESC_TABLE_ADDR,
     q_avail_ring := DEFAULT_AVAIL_RING_ADDR,
     q_used_ring := DEFAULT_USED_RING_ADDR,
     q_next_avail := 0,
     q_next_used := 0,
     q_num_added := 0,
     q_event_idx_enabled := False\<rparr>"

definition set_size :: "queue \<Rightarrow> u16 \<Rightarrow> queue" where
  "set_size q sz = fst (try_set_size q sz)"

definition set_ready :: "queue \<Rightarrow> bool \<Rightarrow> queue" where
  "set_ready q ready = q\<lparr>q_ready := ready\<rparr>"

text \<open>The 64-bit address composed of the halves given and, for a half not given, of the current one.\<close>

definition compose_address :: "u64 \<Rightarrow> u32 option \<Rightarrow> u32 option \<Rightarrow> u64" where
  "compose_address current low high =
     (let l = ucast (case low of None \<Rightarrow> ucast current | Some v \<Rightarrow> v) :: u64;
          h = ucast (case high of None \<Rightarrow> ucast (drop_bit 32 current) | Some v \<Rightarrow> v) :: u64 in
      push_bit 32 h OR l)"

definition set_desc_table_address :: "queue \<Rightarrow> u32 option \<Rightarrow> u32 option \<Rightarrow> queue" where
  "set_desc_table_address q low high =
     fst (try_set_desc_table_address q (compose_address (q_desc_table q) low high))"

definition set_avail_ring_address :: "queue \<Rightarrow> u32 option \<Rightarrow> u32 option \<Rightarrow> queue" where
  "set_avail_ring_address q low high =
     fst (try_set_avail_ring_address q (compose_address (q_avail_ring q) low high))"

definition set_used_ring_address :: "queue \<Rightarrow> u32 option \<Rightarrow> u32 option \<Rightarrow> queue" where
  "set_used_ring_address q low high =
     fst (try_set_used_ring_address q (compose_address (q_used_ring q) low high))"

definition set_event_idx :: "queue \<Rightarrow> bool \<Rightarrow> queue" where
  "set_event_idx q enabled = q\<lparr>q_event_idx_enabled := enabled\<rparr>"

definition avail_idx :: "'m guest_memory \<Rightarrow> queue \<Rightarrow> 'm \<Rightarrow> ordering \<Rightarrow> queue_error + u16" where
  "avail_idx G q m ord =
     (case checked_add (q_avail_ring q) 2 of
        None \<Rightarrow> Inl AddressOverflow
      | Some addr \<Rightarrow>
          (case load_u16 G m addr ord of
             Inl e \<Rightarrow> Inl (GuestMemory e)
           | Inr v \<Rightarrow> Inr (from_le (gm_endian G) v)))"

definition used_idx :: "'m guest_memory \<Rightarrow> queue \<Rightarrow> 'm \<Rightarrow> ordering \<Rightarrow> queue_error + u16" where
  "used_idx G q m ord =
     (case checked_add (q_used_ring q) 2 of
        None \<Rightarrow> Inl AddressOverflow
      | Some addr \<Rightarrow>
          (case load_u16 G m addr ord of
             Inl e \<Rightarrow> Inl (GuestMemory e)
           | Inr v \<Rightarrow> Inr (from_le (gm_endian G) v)))"

definition add_used ::
    "'m guest_memory \<Rightarrow> queue \<Rightarrow> 'm \<Rightarrow> u16 \<Rightarrow> u32 \<Rightarrow> queue \<times> 'm \<times> (queue_error + unit)" where
  "add_used G q m head_index len =
     (if head_index \<ge> q_size q then (q, m, Inl InvalidDescriptorIndex)
      else
        let next_used_index = ucast (q_next_used q mod q_size q) :: u64;
            offset = VIRTQ_USED_RING_HEADER_SIZE + next_used_index * VIRTQ_USED_ELEMENT_SIZE in
        case checked_add (q_used_ring q) offset of
          None \<Rightarrow> (q, m, Inl AddressOverflow)
        | Some addr \<Rightarrow>
            (case gm_write_slice G m addr
                    (used_elem_bytes (virtq_used_elem_new (ucast head_index) len)) of
               (m1, Inl e) \<Rightarrow> (q, m1, Inl (GuestMemory e))
             | (m1, Inr _) \<Rightarrow>
                 let q1 = q\<lparr>q_next_used := q_next_used q + 1, q_num_added := q_num_added q + 1\<rparr> in
                 (case checked_add (q_used_ring q1) 2 of
                    None \<Rightarrow> (q1, m1, Inl AddressOverflow)
                  | Some idx_addr \<Rightarrow>
                      (case store_u16 G m1 idx_addr (to_le (gm_endian G) (q_next_used q1)) Release of
                         (m2, r) \<Rightarrow> (q1, m2, map_err GuestMemory r)))))"

definition enable_notification :: "'m guest_memory \<Rightarrow> queue \<Rightarrow> 'm \<Rightarrow> 'm \<times> (queue_error + bool)" where
  "enable_notification G q m =
     (case set_notification G q m True of
        (m', Inl e) \<Rightarrow> (m', Inl e)
      | (m', Inr _) \<Rightarrow>
          (m', case avail_idx G q m' Relaxed of
                 Inl e \<Rightarrow> Inl e
               | Inr idx \<Rightarrow> Inr (idx \<noteq> q_next_avail q)))"

definition disable_notification :: "'m guest_memory \<Rightarrow> queue \<Rightarrow> 'm \<Rightarrow> 'm \<times> (queue_error + unit)" where
  "disable_notification G q m = set_notification G q m False"

definition needs_notification :: "'m guest_memory \<Rightarrow> queue \<Rightarrow> 'm \<Rightarrow> queue \<times> (queue_error + bool)" where
  "needs_notification G q m =
     (let uidx = q_next_used q in
      if q_event_idx_enabled q then
        (case used_event G q m Relaxed of
           Inl e \<Rightarrow> (q, Inl e)
         | Inr uevent \<Rightarrow>
             let old = uidx - q_num_added q in
             (q\<lparr>q_num_added := 0\<rparr>, Inr (uidx - uevent - 1 < uidx - old)))
      else (q, Inr True))"

definition set_next_avail :: "queue \<Rightarrow> u16 \<Rightarrow> queue" where
  "set_next_avail q v = q\<lparr>q_next_avail := v\<rparr>"

definition set_next_used :: "queue \<Rightarrow> u16 \<Rightarrow> queue" where
  "set_next_used q v = q\<lparr>q_next_used := v\<rparr>"

definition queue_go_to_previous_position :: "queue \<Rightarrow> queue" where
  "queue_go_to_previous_position q = q\<lparr>q_next_avail := q_next_avail q - 1\<rparr>"

section \<open>The configuration invariant\<close>

definition wf_queue :: "queue \<Rightarrow> bool" where
  "wf_queue q \<longleftrightarrow>
     q_max_size q \<noteq> 0 \<and> pow2_check (q_max_size q) \<and> q_max_size q \<le> MAX_QUEUE_SIZE \<and>
     q_size q \<noteq> 0 \<and> pow2_check (q_size q) \<and> q_size q \<le> q_max_size q \<and>
     q_desc_table q AND 15 = 0 \<and> q_avail_ring q AND 1 = 0 \<and> q_used_ring q AND 3 = 0"

lemma queue_new_Inr:
  "queue_new n = Inr q \<longleftrightarrow>
     n \<noteq> 0 \<and> n \<le> MAX_QUEUE_SIZE \<and> pow2_check n \<and>
     q = \<lparr>q_max_size = n, q_next_avail = 0, q_next_used = 0, q_event_idx_enabled = False,
          q_num_added = 0, q_size = n, q_ready = False, q_desc_table = 0, q_avail_ring = 0,
          q_used_ring = 0\<rparr>"
  by (auto simp: queue_new_def pow2_check_def queue_const_defs)

lemma wf_queue_new: "queue_new n = Inr q \<Longrightarrow> wf_queue q"
  by (auto simp: queue_new_Inr wf_queue_def)

lemma wf_try_set:
  assumes "wf_queue q"
  shows "wf_queue (fst (try_set_size q n))"
    and "wf_queue (fst (try_set_desc_table_address q a))"
    and "wf_queue (fst (try_set_avail_ring_address q a))"
    and "wf_queue (fst (try_set_used_ring_address q a))"
  using assms
  by (auto simp: wf_queue_def try_set_size_def try_set_desc_table_address_def
      try_set_avail_ring_address_def try_set_used_ring_address_def pow2_check_def)

lemma wf_setters [wf_keeps]:
  assumes "wf_queue q"
  shows "wf_queue (set_size q n)"
    and "wf_queue (set_desc_table_address q low high)"
    and "wf_queue (set_avail_ring_address q low high)"
    and "wf_queue (set_used_ring_address q low high)"
    and "wf_queue (set_ready q b)" and "wf_queue (set_event_idx q b)"
    and "wf_queue (set_next_avail q v)" and "wf_queue (set_next_used q v)"
    and "wf_queue (queue_go_to_previous_position q)" and "wf_queue (queue_reset q)"
  using assms wf_try_set [OF assms]
  by (auto simp: set_size_def set_desc_table_address_def set_avail_ring_address_def
      set_used_ring_address_def)
    (auto simp: wf_queue_def set_ready_def set_event_idx_def set_next_avail_def set_next_used_def
      queue_go_to_previous_position_def queue_reset_def queue_const_defs)

lemma wf_add_used [wf_keeps]: "wf_queue q \<Longrightarrow> wf_queue (fst (add_used G q m h l))"
  by (auto simp: add_used_def wf_queue_def Let_def split: option.splits sum.splits prod.splits)

lemma wf_needs_notification [wf_keeps]: "wf_queue q \<Longrightarrow> wf_queue (fst (needs_notification G q m))"
  by (auto simp: needs_notification_def wf_queue_def Let_def split: sum.splits)

text \<open>Sizes as numbers.\<close>

lemma wf_queue_size_pow2:
  assumes "wf_queue q"
  obtains k where "k \<le> 15" and "unat (q_size q) = 2 ^ k"
proof -
  from assms obtain k where "k < LENGTH(16)" and "q_size q = 2 ^ k"
    using pow2_check_imp_pow2 [of "q_size q"] by (auto simp: wf_queue_def)
  then show ?thesis using that [of k] by (simp add: unat_pow2)
qed

lemma wf_queue_size_bounds:
  assumes "wf_queue q"
  shows "0 < unat (q_size q)" and "unat (q_size q) \<le> 32768"
  using assms
  by (auto simp: wf_queue_def unat_gt_0 word_le_nat_alt MAX_QUEUE_SIZE_def)

section \<open>Composing an address from its halves\<close>

lemma compose_address_halves:
  "ucast (compose_address a (Some l) h) = (l :: u32)"
  "ucast (drop_bit 32 (compose_address a l' (Some hi))) = (hi :: u32)"
  "ucast (drop_bit 32 (compose_address a l' None)) = (ucast (drop_bit 32 a) :: u32)"
  "ucast (compose_address a None h) = (ucast a :: u32)"
  by (rule bit_word_eqI,
      auto simp: compose_address_def Let_def bit_simps dest: bit_imp_le_length split: option.splits)+

lemma compose_address_both:
  "compose_address a (Some (ucast b)) (Some (ucast (drop_bit 32 b))) = b"
  by (rule bit_word_eqI) (auto simp: compose_address_def Let_def bit_simps)

lemma compose_address_none: "compose_address a None None = a"
  by (rule bit_word_eqI) (auto simp: compose_address_def Let_def bit_simps)

section \<open>Notification suppression\<close>

text \<open>In the circular sequence of \<open>u16\<close> indices, \<open>e\<close> lies among the \<open>n\<close> indices before \<open>u\<close> exactly when the
  wrapped distance test of \<open>needs_notification\<close> holds.\<close>

lemma wrapped_window:
  fixes u e n :: u16
  shows "u - e - 1 < n \<longleftrightarrow> (\<exists>k < unat n. e = u - n + of_nat k)"
proof
  assume lt: "u - e - 1 < n"
  define j where "j = unat (u - e - 1)"
  have j: "j < unat n" using lt by (simp add: j_def word_less_nat_alt)
  have "of_nat j = u - e - 1" by (simp add: j_def)
  then have "e = u - 1 - of_nat j" by simp
  moreover have "of_nat (unat n - 1 - j) = n - 1 - of_nat j"
    using j by (simp add: of_nat_diff)
  ultimately have "e = u - n + of_nat (unat n - 1 - j)" by simp
  moreover have "unat n - 1 - j < unat n" using j by simp
  ultimately show "\<exists>k < unat n. e = u - n + of_nat k" by blast
next
  assume "\<exists>k < unat n. e = u - n + of_nat k"
  then obtain k where k: "k < unat n" and e: "e = u - n + of_nat k" by blast
  have "of_nat (unat n - 1 - k) = n - 1 - of_nat k"
    using k by (simp add: of_nat_diff)
  then have d: "u - e - 1 = of_nat (unat n - 1 - k)" using e by simp
  have "unat n - 1 - k < 65536" using unat_u16_bound[of n] by linarith
  then have "unat (of_nat (unat n - 1 - k) :: u16) = unat n - 1 - k" by (simp add: unat_of_nat)
  with k show "u - e - 1 < n"
    unfolding word_less_nat_alt d by linarith
qed

lemma needs_notification_event_idx:
  assumes "q_event_idx_enabled q" and "used_event G q m Relaxed = Inr e"
  shows "needs_notification G q m =
    (q\<lparr>q_num_added := 0\<rparr>,
     Inr (\<exists>k < unat (q_num_added q). e = q_next_used q - q_num_added q + of_nat k))"
  using assms wrapped_window [of "q_next_used q" e "q_num_added q"]
  by (simp add: needs_notification_def Let_def)

section \<open>The rings in guest memory\<close>

text \<open>The addresses of the ring fields: entry \<open>i\<close> of a ring is at \<open>i\<close> modulo the queue size.\<close>

definition avail_slot :: "queue \<Rightarrow> u16 \<Rightarrow> u64" where
  "avail_slot q i = q_avail_ring q + of_nat (4 + 2 * (unat i mod unat (q_size q)))"

definition used_slot :: "queue \<Rightarrow> u16 \<Rightarrow> u64" where
  "used_slot q i = q_used_ring q + of_nat (4 + 8 * (unat i mod unat (q_size q)))"

text \<open>The contents of the rings in a byte view.\<close>

definition avail_idx_at :: "(u64 \<Rightarrow> byte) \<Rightarrow> queue \<Rightarrow> u16" where
  "avail_idx_at f q = le_word (peek_bytes f (q_avail_ring q + 2) 2)"

definition avail_head_at :: "(u64 \<Rightarrow> byte) \<Rightarrow> queue \<Rightarrow> u16 \<Rightarrow> u16" where
  "avail_head_at f q i = le_word (peek_bytes f (avail_slot q i) 2)"

definition used_idx_at :: "(u64 \<Rightarrow> byte) \<Rightarrow> queue \<Rightarrow> u16" where
  "used_idx_at f q = le_word (peek_bytes f (q_used_ring q + 2) 2)"

definition used_elem_at :: "(u64 \<Rightarrow> byte) \<Rightarrow> queue \<Rightarrow> u16 \<Rightarrow> virtq_used_elem" where
  "used_elem_at f q i = used_elem_of_bytes (peek_bytes f (used_slot q i) 8)"

text \<open>The rings of the queue lie in accessible memory.\<close>

definition avail_ring_acc :: "('m \<Rightarrow> u64 \<Rightarrow> nat \<Rightarrow> bool) \<Rightarrow> queue \<Rightarrow> 'm \<Rightarrow> bool" where
  "avail_ring_acc acc q m \<longleftrightarrow> acc m (q_avail_ring q) (6 + 2 * unat (q_size q))"

definition used_ring_acc :: "('m \<Rightarrow> u64 \<Rightarrow> nat \<Rightarrow> bool) \<Rightarrow> queue \<Rightarrow> 'm \<Rightarrow> bool" where
  "used_ring_acc acc q m \<longleftrightarrow> acc m (q_used_ring q) (6 + 8 * unat (q_size q))"

lemma slot_less: "wf_queue q \<Longrightarrow> unat i mod unat (q_size q) < unat (q_size q)"
  using wf_queue_size_bounds(1) by simp

lemma wf_queue_aligned:
  assumes "wf_queue q"
  shows "16 dvd unat (q_desc_table q)" and "2 dvd unat (q_avail_ring q)" and "4 dvd unat (q_used_ring q)"
  using assms by (simp_all add: wf_queue_def and_alignment)

lemma u64_of_slot:
  "4 + ucast (i mod s :: u16) * 2 = (of_nat (4 + 2 * (unat i mod unat s)) :: u64)"
  "4 + ucast (i mod s :: u16) * 8 = (of_nat (4 + 8 * (unat i mod unat s)) :: u64)"
  "4 + ucast s * 2 = (of_nat (4 + 2 * unat s) :: u64)"
  "4 + 8 * ucast s = (of_nat (4 + 8 * unat s) :: u64)"
  by (simp_all flip: unat_mod)

context guest_mem
begin

lemma avail_field_acc:
  assumes "wf_queue q" and "avail_ring_acc acc q m" and "k + 2 \<le> 6 + 2 * unat (q_size q)" and "even k"
  shows "acc m (q_avail_ring q + of_nat k) 2" and "2 dvd unat (q_avail_ring q + of_nat k)"
    and "unat (q_avail_ring q) + k < 2 ^ 64"
proof -
  have a: "acc m (q_avail_ring q) (6 + 2 * unat (q_size q))"
    using assms(2) by (simp add: avail_ring_acc_def)
  show "acc m (q_avail_ring q + of_nat k) 2" using acc_sub [OF a, of k 2] assms(3) by simp
  show b: "unat (q_avail_ring q) + k < 2 ^ 64" using acc_no_wrap [OF a] assms(3) by simp
  then have "unat (q_avail_ring q + of_nat k) = unat (q_avail_ring q) + k"
    by (intro unat_add_of_nat) simp
  then show "2 dvd unat (q_avail_ring q + of_nat k)"
    using wf_queue_aligned [OF assms(1)] assms(4) by simp
qed

lemma used_field_acc:
  assumes "wf_queue q" and "used_ring_acc acc q m" and "k + n \<le> 6 + 8 * unat (q_size q)"
  shows "acc m (q_used_ring q + of_nat k) n" and "even k \<Longrightarrow> 2 dvd unat (q_used_ring q + of_nat k)"
    and "unat (q_used_ring q) + k < 2 ^ 64"
proof -
  have a: "acc m (q_used_ring q) (6 + 8 * unat (q_size q))"
    using assms(2) by (simp add: used_ring_acc_def)
  show "acc m (q_used_ring q + of_nat k) n" using acc_sub [OF a, of k n] assms(3) by simp
  show b: "unat (q_used_ring q) + k < 2 ^ 64" using acc_no_wrap [OF a] assms(3) by simp
  then have "unat (q_used_ring q + of_nat k) = unat (q_used_ring q) + k"
    by (intro unat_add_of_nat) simp
  moreover have "even (unat (q_used_ring q))"
    using wf_queue_aligned(3) [OF assms(1)] by (metis dvd_trans even_numeral)
  ultimately show "even k \<Longrightarrow> 2 dvd unat (q_used_ring q + of_nat k)" by simp
qed

text \<open>The ring indices read from memory are the little-endian values at their offsets.\<close>

lemma avail_idx_value:
  assumes "wf_queue q" and "avail_ring_acc acc q m" and "load_order ord"
  shows "avail_idx G q m ord = Inr (avail_idx_at (peek m) q)"
proof -
  note f = avail_field_acc [OF assms(1,2), of 2]
  have "checked_add (q_avail_ring q) 2 = Some (q_avail_ring q + 2)"
    using checked_add_of_nat [of "q_avail_ring q" 2] f(3) by simp
  then show ?thesis
    using f(1,2) load_u16_le [of m "q_avail_ring q + 2" ord] assms(3)
    by (simp add: avail_idx_def avail_idx_at_def from_le_peek)
qed

lemma used_idx_value:
  assumes "wf_queue q" and "used_ring_acc acc q m" and "load_order ord"
  shows "used_idx G q m ord = Inr (used_idx_at (peek m) q)"
proof -
  note f = used_field_acc [OF assms(1,2), of 2 2]
  have "checked_add (q_used_ring q) 2 = Some (q_used_ring q + 2)"
    using checked_add_of_nat [of "q_used_ring q" 2] f(3) by simp
  then show ?thesis
    using f(1,2) load_u16_le [of m "q_used_ring q + 2" ord] assms(3)
    by (simp add: used_idx_def used_idx_at_def from_le_peek)
qed

lemma used_event_value:
  assumes "wf_queue q" and "avail_ring_acc acc q m" and "load_order ord"
  shows "used_event G q m ord =
    Inr (le_word (peek_bytes (peek m) (q_avail_ring q + of_nat (4 + 2 * unat (q_size q))) 2))"
proof -
  note f = avail_field_acc [OF assms(1,2), of "4 + 2 * unat (q_size q)"]
  show ?thesis
    using f load_u16_le [of m "q_avail_ring q + of_nat (4 + 2 * unat (q_size q))" ord] assms(3)
    by (simp add: used_event_def queue_const_defs u64_of_slot checked_add_of_nat from_le_peek
        del: of_nat_add of_nat_mult)
qed

lemma add_used_effect:
  assumes wf: "wf_queue q" and used: "used_ring_acc acc q m" and h: "h < q_size q"
  shows "\<exists>m'. add_used G q m h len =
      (q\<lparr>q_next_used := q_next_used q + 1, q_num_added := q_num_added q + 1\<rparr>, m', Inr ()) \<and>
    peek m' = poke (poke (peek m) (used_slot q (q_next_used q))
        (used_elem_bytes \<lparr>ue_id = ucast h, ue_len = len\<rparr>))
      (q_used_ring q + 2) (le_bytes 2 (q_next_used q + 1)) \<and> acc m' = acc m"
proof -
  let ?k = "4 + 8 * (unat (q_next_used q) mod unat (q_size q))"
  let ?bs = "used_elem_bytes \<lparr>ue_id = ucast h, ue_len = len\<rparr>"
  have sl: "used_slot q (q_next_used q) = q_used_ring q + of_nat ?k"
    by (simp only: used_slot_def)
  have kb: "?k + 8 \<le> 6 + 8 * unat (q_size q)"
    using slot_less [OF wf, of "q_next_used q"] by simp
  note f = used_field_acc [OF wf used kb]
  from write_law [of m "q_used_ring q + of_nat ?k" ?bs] f(1) obtain m1 where m1:
      "gm_write_slice G m (q_used_ring q + of_nat ?k) ?bs = (m1, Inr ())"
      "peek m1 = poke (peek m) (q_used_ring q + of_nat ?k) ?bs" "acc m1 = acc m"
    by auto
  have used1: "used_ring_acc acc q m1" using used m1(3) by (simp add: used_ring_acc_def)
  note g = used_field_acc [OF wf used1, of 2 2]
  from store_u16_le [of m1 "q_used_ring q + 2" Release "q_next_used q + 1"] g obtain m2 where m2:
      "store_u16 G m1 (q_used_ring q + 2) (to_le (gm_endian G) (q_next_used q + 1)) Release = (m2, Inr ())"
      "peek m2 = poke (peek m1) (q_used_ring q + 2) (le_bytes 2 (q_next_used q + 1))" "acc m2 = acc m1"
    by (auto simp: store_order_def)
  have c1: "checked_add (q_used_ring q) (of_nat ?k) = Some (q_used_ring q + of_nat ?k)"
    using f(3) by (intro checked_add_of_nat) simp
  have c2: "checked_add (q_used_ring q) 2 = Some (q_used_ring q + 2)"
    using checked_add_of_nat [of "q_used_ring q" 2] g(3) by simp
  have "add_used G q m h len =
      (q\<lparr>q_next_used := q_next_used q + 1, q_num_added := q_num_added q + 1\<rparr>, m2, Inr ())"
    using h c1 c2 m1(1) m2(1)
    by (simp add: add_used_def queue_const_defs u64_of_slot virtq_used_elem_new_def Let_def
        del: of_nat_add of_nat_mult)
  with m1 m2 sl show ?thesis by simp
qed

text \<open>An element and the index written to the used ring, seen from the ring's slots and from outside.\<close>

lemma used_ring_views:
  fixes f :: "u64 \<Rightarrow> byte" and ue :: virtq_used_elem and v :: u16
  assumes nw: "unat (q_used_ring q) + (6 + 8 * unat (q_size q)) < 2 ^ 64" and s: "s < unat (q_size q)"
  defines "g \<equiv> poke (poke f (q_used_ring q + of_nat (4 + 8 * s)) (used_elem_bytes ue)) (q_used_ring q + of_nat 2) (le_bytes 2 v)"
  shows "peek_bytes g (q_used_ring q + of_nat (4 + 8 * s)) 8 = used_elem_bytes ue"
    and "t < unat (q_size q) \<Longrightarrow> t \<noteq> s \<Longrightarrow>
      peek_bytes g (q_used_ring q + of_nat (4 + 8 * t)) 8 = peek_bytes f (q_used_ring q + of_nat (4 + 8 * t)) 8"
    and "disjoint_ranges b k (q_used_ring q) (6 + 8 * unat (q_size q)) \<Longrightarrow> unat b + k \<le> 2 ^ 64 \<Longrightarrow>
      peek_bytes g b k = peek_bytes f b k"
proof -
  have idx: "peek_bytes g (q_used_ring q + of_nat (4 + 8 * t)) 8 =
      peek_bytes (poke f (q_used_ring q + of_nat (4 + 8 * s)) (used_elem_bytes ue)) (q_used_ring q + of_nat (4 + 8 * t)) 8"
    if "t < unat (q_size q)" for t
    unfolding g_def using nw that by (intro peek_field_poke_other) auto
  show "peek_bytes g (q_used_ring q + of_nat (4 + 8 * s)) 8 = used_elem_bytes ue"
    unfolding idx [OF s] by (simp add: peek_field_poke_same)
  show "peek_bytes g (q_used_ring q + of_nat (4 + 8 * t)) 8 = peek_bytes f (q_used_ring q + of_nat (4 + 8 * t)) 8"
    if "t < unat (q_size q)" and "t \<noteq> s"
    unfolding idx [OF that(1)] using nw s that by (intro peek_field_poke_other) auto
  show "peek_bytes g b k = peek_bytes f b k"
    if "disjoint_ranges b k (q_used_ring q) (6 + 8 * unat (q_size q))" and "unat b + k \<le> 2 ^ 64"
  proof -
    have "4 + 8 * s + length (used_elem_bytes ue) \<le> 6 + 8 * unat (q_size q)" using s by simp
    from peek_outside_poke_field [OF that nw this] peek_outside_poke_field [OF that nw, of 2]
    show ?thesis unfolding g_def by simp
  qed
qed

text \<open>After \<open>add_used\<close> the element is in its slot, the index is published, and nothing else has
  changed: neither another slot of the used ring nor any memory outside that ring.\<close>

lemma add_used_readback:
  assumes wf: "wf_queue q" and used: "used_ring_acc acc q m" and h: "h < q_size q"
    and eq: "add_used G q m h len = (q', m', r)"
  shows "r = Inr ()" and "acc m' = acc m"
    and "q' = q\<lparr>q_next_used := q_next_used q + 1, q_num_added := q_num_added q + 1\<rparr>"
    and "used_elem_at (peek m') q (q_next_used q) = \<lparr>ue_id = ucast h, ue_len = len\<rparr>"
    and "used_idx_at (peek m') q = q_next_used q + 1"
    and "unat i mod unat (q_size q) \<noteq> unat (q_next_used q) mod unat (q_size q) \<Longrightarrow>
      used_elem_at (peek m') q i = used_elem_at (peek m) q i"
    and "disjoint_ranges b k (q_used_ring q) (6 + 8 * unat (q_size q)) \<Longrightarrow> unat b + k \<le> 2 ^ 64 \<Longrightarrow>
      peek_bytes (peek m') b k = peek_bytes (peek m) b k"
proof -
  let ?s = "unat (q_next_used q) mod unat (q_size q)" and ?ue = "\<lparr>ue_id = ucast h, ue_len = len\<rparr>"
  have pk: "peek m' = poke (poke (peek m) (q_used_ring q + of_nat (4 + 8 * ?s)) (used_elem_bytes ?ue))
        (q_used_ring q + of_nat 2) (le_bytes 2 (q_next_used q + 1))"
    and st: "r = Inr ()" "acc m' = acc m"
      "q' = q\<lparr>q_next_used := q_next_used q + 1, q_num_added := q_num_added q + 1\<rparr>"
    using add_used_effect [OF wf used h, of len] eq by (auto simp: used_slot_def)
  from st show "r = Inr ()" and "acc m' = acc m"
    and "q' = q\<lparr>q_next_used := q_next_used q + 1, q_num_added := q_num_added q + 1\<rparr>" .
  have nw: "unat (q_used_ring q) + (6 + 8 * unat (q_size q)) < 2 ^ 64"
    using used by (auto simp: used_ring_acc_def dest: acc_no_wrap)
  note views = used_ring_views [OF nw slot_less [OF wf, of "q_next_used q"], where f = "peek m" and ue = ?ue and v = "q_next_used q + 1",
      folded pk]
  show "used_elem_at (peek m') q (q_next_used q) = ?ue"
    unfolding used_elem_at_def used_slot_def views(1) by simp
  show "used_idx_at (peek m') q = q_next_used q + 1"
    unfolding used_idx_at_def pk by (simp add: peek_field_poke_same)
  show "used_elem_at (peek m') q i = used_elem_at (peek m) q i"
    if "unat i mod unat (q_size q) \<noteq> ?s"
    unfolding used_elem_at_def used_slot_def views(2) [OF slot_less [OF wf] that] by (rule refl)
  show "peek_bytes (peek m') b k = peek_bytes (peek m) b k"
    if "disjoint_ranges b k (q_used_ring q) (6 + 8 * unat (q_size q))" and "unat b + k \<le> 2 ^ 64"
    using that by (rule views(3))
qed

end

end
