(* ===== verification/Avail_Iter.thy ===== *)
theory Avail_Iter
  imports Queue_Core
begin

text \<open>
  \<open>AvailIter\<close>, \<open>Queue::iter\<close> and \<open>Queue::pop_descriptor_chain\<close> (\<open>virtio-queue/src/queue.rs\<close>): consuming the
  descriptor chain heads the driver made available. The iterator borrows \<open>next_avail\<close> of the queue
  mutably; the model keeps it in the iterator and writes it back to the queue.
\<close>

section \<open>The iterator\<close>

record avail_iter =
  ai_desc_table :: u64
  ai_avail_ring :: u64
  ai_queue_size :: u16
  ai_last_index :: u16
  ai_next_avail :: u16

definition avail_iter_new :: "u16 \<Rightarrow> queue \<Rightarrow> queue_error + avail_iter" where
  "avail_iter_new idx q =
     (if idx - q_next_avail q > q_size q then Inl InvalidAvailRingIndex
      else Inr \<lparr>ai_desc_table = q_desc_table q,
                ai_avail_ring = q_avail_ring q,
                ai_queue_size = q_size q,
                ai_last_index = idx,
                ai_next_avail = q_next_avail q\<rparr>)"

definition avail_iter_go_to_previous_position :: "avail_iter \<Rightarrow> avail_iter" where
  "avail_iter_go_to_previous_position it = it\<lparr>ai_next_avail := ai_next_avail it - 1\<rparr>"

definition avail_iter_next ::
    "'m guest_memory \<Rightarrow> 'm \<Rightarrow> avail_iter \<Rightarrow> avail_iter \<times> desc_chain option" where
  "avail_iter_next G m it =
     (if ai_next_avail it = ai_last_index it then (it, None)
      else case checked_rem (ai_next_avail it) (ai_queue_size it) of
        None \<Rightarrow> (it, None)
      | Some i \<Rightarrow>
          let elem_off = ucast i * VIRTQ_AVAIL_ELEMENT_SIZE;
              offset = VIRTQ_AVAIL_RING_HEADER_SIZE + elem_off in
          (case checked_add (ai_avail_ring it) offset of
             None \<Rightarrow> (it, None)
           | Some addr \<Rightarrow>
               (case load_u16 G m addr Acquire of
                  Inl _ \<Rightarrow> (it, None)
                | Inr v \<Rightarrow>
                    (it\<lparr>ai_next_avail := ai_next_avail it + 1\<rparr>,
                     Some (chain_new (ai_desc_table it) (ai_queue_size it)
                             (from_le (gm_endian G) v))))))"

definition queue_iter :: "'m guest_memory \<Rightarrow> queue \<Rightarrow> 'm \<Rightarrow> queue_error + avail_iter" where
  "queue_iter G q m =
     (if \<not> q_ready q \<or> q_avail_ring q = 0 then Inl QueueNotReady
      else case avail_idx G q m Acquire of
        Inl e \<Rightarrow> Inl e
      | Inr idx \<Rightarrow> avail_iter_new idx q)"

definition pop_descriptor_chain ::
    "'m guest_memory \<Rightarrow> queue \<Rightarrow> 'm \<Rightarrow> queue \<times> desc_chain option" where
  "pop_descriptor_chain G q m =
     (case queue_iter G q m of
        Inl _ \<Rightarrow> (q, None)
      | Inr it \<Rightarrow>
          (case avail_iter_next G m it of
             (it', r) \<Rightarrow> (q\<lparr>q_next_avail := ai_next_avail it'\<rparr>, r)))"

lemma wf_pop [wf_keeps]: "wf_queue q \<Longrightarrow> wf_queue (fst (pop_descriptor_chain G q m))"
  by (auto simp: pop_descriptor_chain_def wf_queue_def split: sum.splits prod.splits)

section \<open>Consuming all heads\<close>

lemma avail_iter_next_Some:
  assumes "avail_iter_next G m it = (it', Some c)"
  shows "it' = it\<lparr>ai_next_avail := ai_next_avail it + 1\<rparr> \<and> ai_next_avail it \<noteq> ai_last_index it"
  using assms
  by (auto simp: avail_iter_next_def Let_def split: if_splits option.splits sum.splits)

lemma distance_step:
  assumes "(n :: u16) \<noteq> l"
  shows "unat (l - n) = Suc (unat (l - (n + 1)))"
proof -
  have "l - n \<noteq> 0" using assms by simp
  from unat_minus_1_less [OF this] show ?thesis by (simp add: diff_diff_eq)
qed

function avail_iter_collect :: "'m guest_memory \<Rightarrow> 'm \<Rightarrow> avail_iter \<Rightarrow> desc_chain list" where
  "avail_iter_collect G m it =
     (case avail_iter_next G m it of
        (_, None) \<Rightarrow> []
      | (it', Some c) \<Rightarrow> c # avail_iter_collect G m it')"
  by pat_completeness auto
termination
  by (relation "measure (\<lambda>(G, m, it). unat (ai_last_index it - ai_next_avail it))")
    (auto dest!: sym [of "(_, _)"] avail_iter_next_Some simp: distance_step)

declare avail_iter_collect.simps [simp del]

lemma avail_iter_collect_length:
  "length (avail_iter_collect G m it) \<le> unat (ai_last_index it - ai_next_avail it)"
proof (induction G m it rule: avail_iter_collect.induct)
  case (1 G m it)
  show ?case
  proof (cases "avail_iter_next G m it")
    case (Pair it' r)
    then show ?thesis
      using "1.IH" [OF Pair[symmetric]] avail_iter_next_Some [of G m it it']
      by (cases r) (auto simp: avail_iter_collect.simps [of G m it] distance_step)
  qed
qed

lemma queue_iter_bound:
  assumes "queue_iter G q m = Inr it"
  shows "unat (ai_last_index it - ai_next_avail it) \<le> unat (q_size q)"
    and "ai_next_avail it = q_next_avail q"
  using assms
  by (auto simp: queue_iter_def avail_iter_new_def word_le_nat_alt not_less word_less_nat_alt
      split: if_splits sum.splits)

section \<open>Under the laws of guest memory\<close>

context guest_mem
begin

lemma avail_iter_next_head:
  assumes wf: "wf_queue q" and av: "avail_ring_acc acc q m"
    and it: "ai_avail_ring it = q_avail_ring q" "ai_queue_size it = q_size q"
    and ne: "ai_next_avail it \<noteq> ai_last_index it"
  shows "avail_iter_next G m it =
    (it\<lparr>ai_next_avail := ai_next_avail it + 1\<rparr>,
     Some (chain_new (ai_desc_table it) (q_size q) (avail_head_at (peek m) q (ai_next_avail it))))"
proof -
  let ?k = "4 + 2 * (unat (ai_next_avail it) mod unat (q_size q))"
  have kb: "?k + 2 \<le> 6 + 2 * unat (q_size q)"
    using slot_less [OF wf, of "ai_next_avail it"] by simp
  note f = avail_field_acc [OF wf av kb]
  have c: "checked_add (q_avail_ring q) (of_nat ?k) = Some (q_avail_ring q + of_nat ?k)"
    using f(3) by (intro checked_add_of_nat) simp
  have l: "load_u16 G m (q_avail_ring q + of_nat ?k) Acquire =
      Inr (native_word (gm_endian G) (peek_bytes (peek m) (q_avail_ring q + of_nat ?k) 2))"
    using f(1,2) by (intro load_u16_le) (simp_all add: load_order_def)
  have "q_size q \<noteq> 0" using wf by (simp add: wf_queue_def)
  with ne it c l show ?thesis
    by (simp add: avail_iter_next_def checked_rem_def queue_const_defs u64_of_slot Let_def
        avail_head_at_def avail_slot_def from_le_peek unat_mod del: of_nat_add of_nat_mult)
qed

text \<open>Draining the iterator yields the heads from \<open>next_avail\<close> up to the index read, in order.\<close>

lemma avail_iter_collect_heads:
  assumes wf: "wf_queue q" and av: "avail_ring_acc acc q m"
    and it: "ai_avail_ring it = q_avail_ring q" "ai_queue_size it = q_size q"
      "ai_desc_table it = q_desc_table q"
  shows "avail_iter_collect G m it =
    map (\<lambda>k. chain_new (q_desc_table q) (q_size q)
               (avail_head_at (peek m) q (ai_next_avail it + of_nat k)))
      [0..<unat (ai_last_index it - ai_next_avail it)]"
  using it
proof (induction "unat (ai_last_index it - ai_next_avail it)" arbitrary: it)
  case 0
  then have "ai_next_avail it = ai_last_index it" by (metis right_minus_eq unat_eq_zero)
  then have "avail_iter_next G m it = (it, None)" by (simp add: avail_iter_next_def)
  then show ?case using "0.hyps" [symmetric] by (simp only: avail_iter_collect.simps [of G m it]) simp
next
  case (Suc n)
  let ?it = "it\<lparr>ai_next_avail := ai_next_avail it + 1\<rparr>"
  have ne: "ai_next_avail it \<noteq> ai_last_index it" using Suc.hyps(2) by auto
  have n: "n = unat (ai_last_index ?it - ai_next_avail ?it)"
    using distance_step [OF ne] Suc.hyps(2) by simp
  have "avail_iter_collect G m it =
      chain_new (q_desc_table q) (q_size q) (avail_head_at (peek m) q (ai_next_avail it))
      # avail_iter_collect G m ?it"
    using avail_iter_next_head [OF wf av Suc.prems(1,2) ne] Suc.prems
    by (simp add: avail_iter_collect.simps [of G m it])
  also have "avail_iter_collect G m ?it =
      map (\<lambda>k. chain_new (q_desc_table q) (q_size q)
               (avail_head_at (peek m) q (ai_next_avail it + 1 + of_nat k))) [0..<n]"
    using Suc.hyps(1) [OF n] Suc.prems n by simp
  finally show ?case
    unfolding Suc.hyps(2) [symmetric]
    by (simp add: map_upt_Suc add.assoc del: upt_Suc)
qed

lemma queue_iter_ok:
  assumes "wf_queue q" and "avail_ring_acc acc q m" and "q_ready q" and "q_avail_ring q \<noteq> 0"
  shows "queue_iter G q m =
    (if unat (avail_idx_at (peek m) q - q_next_avail q) \<le> unat (q_size q)
     then Inr \<lparr>ai_desc_table = q_desc_table q, ai_avail_ring = q_avail_ring q,
               ai_queue_size = q_size q, ai_last_index = avail_idx_at (peek m) q,
               ai_next_avail = q_next_avail q\<rparr>
     else Inl InvalidAvailRingIndex)"
  using assms avail_idx_value [OF assms(1,2), of Acquire]
  by (simp add: queue_iter_def avail_iter_new_def load_order_def word_less_nat_alt)

lemma pop_descriptor_chain_ok:
  assumes "wf_queue q" and "avail_ring_acc acc q m" and "q_ready q" and "q_avail_ring q \<noteq> 0"
  shows "pop_descriptor_chain G q m =
    (if 0 < unat (avail_idx_at (peek m) q - q_next_avail q) \<and>
        unat (avail_idx_at (peek m) q - q_next_avail q) \<le> unat (q_size q)
     then (q\<lparr>q_next_avail := q_next_avail q + 1\<rparr>,
           Some (chain_new (q_desc_table q) (q_size q) (avail_head_at (peek m) q (q_next_avail q))))
     else (q, None))"
proof -
  let ?it = "\<lparr>ai_desc_table = q_desc_table q, ai_avail_ring = q_avail_ring q,
               ai_queue_size = q_size q, ai_last_index = avail_idx_at (peek m) q,
               ai_next_avail = q_next_avail q\<rparr>"
  have "avail_iter_next G m ?it =
      (if avail_idx_at (peek m) q = q_next_avail q then (?it, None)
       else (?it\<lparr>ai_next_avail := q_next_avail q + 1\<rparr>,
         Some (chain_new (q_desc_table q) (q_size q) (avail_head_at (peek m) q (q_next_avail q)))))"
    using avail_iter_next_head [OF assms(1,2), of ?it] by (auto simp: avail_iter_next_def)
  then show ?thesis
    by (auto simp: pop_descriptor_chain_def queue_iter_ok [OF assms] unat_gt_0)
qed

end

end
