(* ===== verification/Virtqueue.thy ===== *)
theory Virtqueue
  imports Avail_Iter
begin

text \<open>
  A driver and a device sharing a split virtqueue. The device steps are the operations of \<open>Queue\<close>; the
  driver steps write the available ring the way the virtio specification prescribes (and
  \<open>MockSplitQueue::update_avail_idx\<close> does), and otherwise write memory outside the fields the device
  relies on. Every interleaving of these steps implements a FIFO of descriptor chain heads in one
  direction and a log of completions in the other.
\<close>

section \<open>The abstract queue\<close>

text \<open>What the virtqueue promises: heads published by the driver are handed to the device in order,
  each once; completions reach the driver in order.\<close>

record vq_log =
  lg_published :: "u16 list"
  lg_popped :: "u16 list"
  lg_completed :: "(u16 \<times> u32) list"

record 'm vq_state =
  vq_queue :: queue
  vq_mem :: 'm
  vq_log :: vq_log

definition pending_heads :: "(u64 \<Rightarrow> byte) \<Rightarrow> queue \<Rightarrow> u16 list" where
  "pending_heads f q =
     map (\<lambda>k. avail_head_at f q (q_next_avail q + of_nat k)) [0..<unat (avail_idx_at f q - q_next_avail q)]"

text \<open>The device-visible fields of the rings are the same in two byte views.\<close>

definition same_rings :: "queue \<Rightarrow> (u64 \<Rightarrow> byte) \<Rightarrow> (u64 \<Rightarrow> byte) \<Rightarrow> bool" where
  "same_rings q f g \<longleftrightarrow>
     avail_idx_at f q = avail_idx_at g q \<and> (\<forall>i. avail_head_at f q i = avail_head_at g q i) \<and>
     used_idx_at f q = used_idx_at g q \<and> (\<forall>i. used_elem_at f q i = used_elem_at g q i)"

section \<open>Steps\<close>

inductive vq_step ::
    "'m guest_memory \<Rightarrow> ('m \<Rightarrow> u64 \<Rightarrow> byte) \<Rightarrow> ('m \<Rightarrow> u64 \<Rightarrow> nat \<Rightarrow> bool) \<Rightarrow> 'm vq_state \<Rightarrow> 'm vq_state \<Rightarrow> bool"
  for G :: "'m guest_memory" and peek :: "'m \<Rightarrow> u64 \<Rightarrow> byte" and acc :: "'m \<Rightarrow> u64 \<Rightarrow> nat \<Rightarrow> bool" where
  driver_publish: "vq_step G peek acc \<lparr>vq_queue = q, vq_mem = m, vq_log = l\<rparr>
      \<lparr>vq_queue = q, vq_mem = m', vq_log = l\<lparr>lg_published := lg_published l @ [h]\<rparr>\<rparr>"
    if "unat (avail_idx_at (peek m) q - q_next_avail q) < unat (q_size q)"
      and "peek m' = poke (poke (peek m) (avail_slot q (avail_idx_at (peek m) q)) (le_bytes 2 h))
        (q_avail_ring q + 2) (le_bytes 2 (avail_idx_at (peek m) q + 1))"
      and "acc m' = acc m"
| driver_other: "vq_step G peek acc \<lparr>vq_queue = q, vq_mem = m, vq_log = l\<rparr>
      \<lparr>vq_queue = q, vq_mem = m', vq_log = l\<rparr>"
    if "same_rings q (peek m') (peek m)" and "acc m' = acc m"
| device_pop: "vq_step G peek acc \<lparr>vq_queue = q, vq_mem = m, vq_log = l\<rparr>
      \<lparr>vq_queue = q', vq_mem = m, vq_log = l\<lparr>lg_popped := lg_popped l @ [dc_head_index c]\<rparr>\<rparr>"
    if "pop_descriptor_chain G q m = (q', Some c)"
| device_pop_none: "vq_step G peek acc \<lparr>vq_queue = q, vq_mem = m, vq_log = l\<rparr>
      \<lparr>vq_queue = q', vq_mem = m, vq_log = l\<rparr>"
    if "pop_descriptor_chain G q m = (q', None)"
| device_complete: "vq_step G peek acc \<lparr>vq_queue = q, vq_mem = m, vq_log = l\<rparr>
      \<lparr>vq_queue = q', vq_mem = m', vq_log = l\<lparr>lg_completed := lg_completed l @ [(h, len)]\<rparr>\<rparr>"
    if "add_used G q m h len = (q', m', Inr ())"
| device_notified: "vq_step G peek acc \<lparr>vq_queue = q, vq_mem = m, vq_log = l\<rparr>
      \<lparr>vq_queue = q', vq_mem = m, vq_log = l\<rparr>"
    if "needs_notification G q m = (q', r)"
| device_set_notification: "vq_step G peek acc \<lparr>vq_queue = q, vq_mem = m, vq_log = l\<rparr>
      \<lparr>vq_queue = q, vq_mem = m', vq_log = l\<rparr>"
    if "set_notification G q m en = (m', r)"

text \<open>An execution: any finite interleaving of steps.\<close>

inductive vq_run ::
    "'m guest_memory \<Rightarrow> ('m \<Rightarrow> u64 \<Rightarrow> byte) \<Rightarrow> ('m \<Rightarrow> u64 \<Rightarrow> nat \<Rightarrow> bool) \<Rightarrow> 'm vq_state \<Rightarrow> 'm vq_state \<Rightarrow> bool"
  for G peek acc where
  run_refl: "vq_run G peek acc s s"
| run_step: "vq_run G peek acc s s' \<Longrightarrow> vq_step G peek acc s' s'' \<Longrightarrow> vq_run G peek acc s s''"

inductive_cases vq_stepE: "vq_step G peek acc s s'"

section \<open>The invariant\<close>

definition queue_live :: "('m \<Rightarrow> u64 \<Rightarrow> nat \<Rightarrow> bool) \<Rightarrow> queue \<Rightarrow> 'm \<Rightarrow> bool" where
  "queue_live acc q m \<longleftrightarrow>
     wf_queue q \<and> q_ready q \<and> q_avail_ring q \<noteq> 0 \<and> avail_ring_acc acc q m \<and> used_ring_acc acc q m \<and>
     disjoint_ranges (q_avail_ring q) (6 + 2 * unat (q_size q)) (q_used_ring q) (6 + 8 * unat (q_size q))"

definition completed_ok :: "(u64 \<Rightarrow> byte) \<Rightarrow> queue \<Rightarrow> (u16 \<times> u32) list \<Rightarrow> bool" where
  "completed_ok f q cs \<longleftrightarrow>
     used_idx_at f q = q_next_used q \<and>
     (\<forall>j < min (unat (q_size q)) (length cs).
        used_elem_at f q (q_next_used q - of_nat (Suc j)) =
          \<lparr>ue_id = ucast (fst (rev cs ! j)), ue_len = snd (rev cs ! j)\<rparr>)"

definition vq_inv :: "('m \<Rightarrow> u64 \<Rightarrow> byte) \<Rightarrow> ('m \<Rightarrow> u64 \<Rightarrow> nat \<Rightarrow> bool) \<Rightarrow> 'm vq_state \<Rightarrow> bool" where
  "vq_inv peek acc s \<longleftrightarrow>
     queue_live acc (vq_queue s) (vq_mem s) \<and>
     unat (avail_idx_at (peek (vq_mem s)) (vq_queue s) - q_next_avail (vq_queue s))
       \<le> unat (q_size (vq_queue s)) \<and>
     lg_published (vq_log s) = lg_popped (vq_log s) @ pending_heads (peek (vq_mem s)) (vq_queue s) \<and>
     completed_ok (peek (vq_mem s)) (vq_queue s) (lg_completed (vq_log s))"

text \<open>A fresh queue: nothing published, nothing completed.\<close>

definition vq_init :: "('m \<Rightarrow> u64 \<Rightarrow> byte) \<Rightarrow> ('m \<Rightarrow> u64 \<Rightarrow> nat \<Rightarrow> bool) \<Rightarrow> 'm vq_state \<Rightarrow> bool" where
  "vq_init peek acc s \<longleftrightarrow>
     queue_live acc (vq_queue s) (vq_mem s) \<and>
     avail_idx_at (peek (vq_mem s)) (vq_queue s) = q_next_avail (vq_queue s) \<and>
     used_idx_at (peek (vq_mem s)) (vq_queue s) = q_next_used (vq_queue s) \<and>
     vq_log s = \<lparr>lg_published = [], lg_popped = [], lg_completed = []\<rparr>"

lemma vq_init_inv: "vq_init peek acc s \<Longrightarrow> vq_inv peek acc s"
  by (simp add: vq_init_def vq_inv_def pending_heads_def completed_ok_def)

section \<open>Slots\<close>

lemma mod_shift_neq: "0 < k \<Longrightarrow> k < s \<Longrightarrow> (x + k) mod s \<noteq> x mod (s :: nat)"
  by (metis add_diff_cancel_left' le_add1 mod_eq_dvd_iff_nat nat_dvd_not_less)

text \<open>The queue size divides \<open>2\<^sup>1\<^sup>6\<close>: the wrap-around of an index is invisible modulo the size.\<close>

lemma slot_add:
  assumes "wf_queue q"
  shows "unat (i + of_nat k :: u16) mod unat (q_size q) = (unat i + k) mod unat (q_size q)"
proof -
  obtain e where e: "e \<le> 15" "unat (q_size q) = 2 ^ e" by (rule wf_queue_size_pow2 [OF assms])
  have "unat (i + of_nat k :: u16) = (unat i + k) mod 2 ^ 16"
    by (simp add: unat_word_ariths unat_of_nat mod_simps)
  moreover have "(2 :: nat) ^ e dvd 2 ^ 16" using e(1) by (intro le_imp_power_dvd) simp
  ultimately show ?thesis using e(2) by (simp add: mod_mod_cancel)
qed

lemma slot_distinct:
  assumes "wf_queue q" and "0 < k" and "k < unat (q_size q)"
  shows "unat (i + of_nat k :: u16) mod unat (q_size q) \<noteq> unat i mod unat (q_size q)"
  using mod_shift_neq [OF assms(2,3)] by (simp add: slot_add [OF assms(1)])

lemma same_rings_refl [simp]: "same_rings q f f"
  by (simp add: same_rings_def)

lemma same_rings_inv:
  assumes "same_rings q f g"
  shows "pending_heads f q = pending_heads g q" and "completed_ok f q cs = completed_ok g q cs"
    and "avail_idx_at f q = avail_idx_at g q"
  using assms by (auto simp: same_rings_def pending_heads_def completed_ok_def)


section \<open>Framing of the rings\<close>

lemma peek_bytes_sub: "i + k \<le> n \<Longrightarrow> peek_bytes f (a + of_nat i) k = take k (drop i (peek_bytes f a n))"
  by (rule nth_equalityI) (simp_all add: add.assoc)

lemma avail_views_eq:
  assumes "wf_queue q"
    and "peek_bytes f (q_avail_ring q) (6 + 2 * unat (q_size q)) =
      peek_bytes g (q_avail_ring q) (6 + 2 * unat (q_size q))"
  shows "avail_idx_at f q = avail_idx_at g q" and "avail_head_at f q i = avail_head_at g q i"
proof -
  have "peek_bytes f (q_avail_ring q + of_nat k) 2 = peek_bytes g (q_avail_ring q + of_nat k) 2"
    if "k + 2 \<le> 6 + 2 * unat (q_size q)" for k
    using assms(2) peek_bytes_sub [OF that] by metis
  from this [of 2] this [of "4 + 2 * (unat i mod unat (q_size q))"] slot_less [OF assms(1), of i]
  show "avail_idx_at f q = avail_idx_at g q" and "avail_head_at f q i = avail_head_at g q i"
    by (simp_all add: avail_idx_at_def avail_head_at_def avail_slot_def)
qed

lemma used_views_eq:
  assumes "wf_queue q"
    and "peek_bytes f (q_used_ring q) (6 + 8 * unat (q_size q)) =
      peek_bytes g (q_used_ring q) (6 + 8 * unat (q_size q))"
  shows "used_idx_at f q = used_idx_at g q" and "used_elem_at f q i = used_elem_at g q i"
proof -
  have e: "peek_bytes f (q_used_ring q + of_nat k) n = peek_bytes g (q_used_ring q + of_nat k) n"
    if "k + n \<le> 6 + 8 * unat (q_size q)" for k n
    using assms(2) peek_bytes_sub [OF that] by metis
  from e [of 2 2] e [of "4 + 8 * (unat i mod unat (q_size q))" 8] slot_less [OF assms(1), of i]
  show "used_idx_at f q = used_idx_at g q" and "used_elem_at f q i = used_elem_at g q i"
    by (simp_all add: used_idx_at_def used_elem_at_def used_slot_def)
qed

lemma avail_idx_poke: "avail_idx_at (poke f (q_avail_ring q + 2) (le_bytes 2 i)) q = i"
  by (simp add: avail_idx_at_def peek_field_poke_same)

lemma disjoint_ranges_sym: "disjoint_ranges a n b k \<Longrightarrow> disjoint_ranges b k a n"
  by (auto simp: disjoint_ranges_def)

context guest_mem
begin

lemma queue_live_no_wrap:
  assumes "queue_live acc q m"
  shows "unat (q_avail_ring q) + (6 + 2 * unat (q_size q)) < 2 ^ 64"
    and "unat (q_used_ring q) + (6 + 8 * unat (q_size q)) < 2 ^ 64"
  using assms by (auto simp: queue_live_def avail_ring_acc_def used_ring_acc_def dest!: acc_no_wrap)

lemma poke_used_avail_views:
  assumes "queue_live acc q m" and "j + length bs \<le> 6 + 8 * unat (q_size q)"
  shows "avail_idx_at (poke f (q_used_ring q + of_nat j) bs) q = avail_idx_at f q"
    and "avail_head_at (poke f (q_used_ring q + of_nat j) bs) q i = avail_head_at f q i"
proof -
  have "peek_bytes (poke f (q_used_ring q + of_nat j) bs) (q_avail_ring q) (6 + 2 * unat (q_size q)) =
      peek_bytes f (q_avail_ring q) (6 + 2 * unat (q_size q))"
    using assms queue_live_no_wrap [OF assms(1)]
    by (intro peek_outside_poke_field) (auto simp: queue_live_def)
  with assms(1) show "avail_idx_at (poke f (q_used_ring q + of_nat j) bs) q = avail_idx_at f q"
    and "avail_head_at (poke f (q_used_ring q + of_nat j) bs) q i = avail_head_at f q i"
    by (auto simp: queue_live_def intro: avail_views_eq)
qed

lemma poke_avail_used_views:
  assumes "queue_live acc q m" and "j + length bs \<le> 6 + 2 * unat (q_size q)"
  shows "used_idx_at (poke f (q_avail_ring q + of_nat j) bs) q = used_idx_at f q"
    and "used_elem_at (poke f (q_avail_ring q + of_nat j) bs) q i = used_elem_at f q i"
proof -
  have "peek_bytes (poke f (q_avail_ring q + of_nat j) bs) (q_used_ring q) (6 + 8 * unat (q_size q)) =
      peek_bytes f (q_used_ring q) (6 + 8 * unat (q_size q))"
    using assms queue_live_no_wrap [OF assms(1)]
    by (intro peek_outside_poke_field) (auto simp: queue_live_def disjoint_ranges_sym)
  with assms(1) show "used_idx_at (poke f (q_avail_ring q + of_nat j) bs) q = used_idx_at f q"
    and "used_elem_at (poke f (q_avail_ring q + of_nat j) bs) q i = used_elem_at f q i"
    by (auto simp: queue_live_def intro: used_views_eq)
qed

section \<open>Every step keeps the invariant\<close>

text \<open>The heads of the available ring after a head was written at its index and the index advanced.\<close>

lemma publish_heads:
  assumes live: "queue_live acc q m"
    and g: "g = poke (poke f (avail_slot q (avail_idx_at f q)) (le_bytes 2 h))
        (q_avail_ring q + 2) (le_bytes 2 (avail_idx_at f q + 1))"
  shows "avail_head_at g q (avail_idx_at f q) = h"
    and "unat j mod unat (q_size q) \<noteq> unat (avail_idx_at f q) mod unat (q_size q) \<Longrightarrow>
      avail_head_at g q j = avail_head_at f q j"
proof -
  let ?a = "q_avail_ring q" and ?i = "avail_idx_at f q" and ?s = "unat (q_size q)"
  have wf: "wf_queue q" using live by (simp add: queue_live_def)
  note nw = queue_live_no_wrap(1) [OF live]
  have sb: "unat j mod ?s < ?s" for j :: u16 by (rule slot_less [OF wf])
  have g': "g = poke (poke f (?a + of_nat (4 + 2 * (unat ?i mod ?s))) (le_bytes 2 h))
        (?a + of_nat 2) (le_bytes 2 (?i + 1))"
    using g by (simp add: avail_slot_def)
  have slot: "avail_head_at g q j = avail_head_at (poke f (avail_slot q ?i) (le_bytes 2 h)) q j" for j
    unfolding avail_head_at_def avail_slot_def [of q j] g'
    using nw sb [of j] by (subst peek_field_poke_other) (auto simp: avail_slot_def)
  show "avail_head_at g q ?i = h"
    unfolding slot by (simp add: avail_head_at_def peek_field_poke_same)
  have other: "peek_bytes (poke f (?a + of_nat (4 + 2 * u)) (le_bytes 2 h)) (?a + of_nat (4 + 2 * t)) 2 =
      peek_bytes f (?a + of_nat (4 + 2 * t)) 2" if "t < ?s" and "u < ?s" and "t \<noteq> u" for t u
    using nw that by (intro peek_field_poke_other) auto
  show "avail_head_at g q j = avail_head_at f q j" if "unat j mod ?s \<noteq> unat ?i mod ?s"
    unfolding slot unfolding avail_head_at_def avail_slot_def other [OF sb sb that] by (rule refl)
qed

text \<open>A head written at the available index, and the index advanced, appends to the pending heads.\<close>

lemma publish_pending:
  assumes live: "queue_live acc q m" and room: "unat (avail_idx_at f q - q_next_avail q) < unat (q_size q)"
    and g: "g = poke (poke f (avail_slot q (avail_idx_at f q)) (le_bytes 2 h))
        (q_avail_ring q + 2) (le_bytes 2 (avail_idx_at f q + 1))"
  shows "avail_idx_at g q = avail_idx_at f q + 1" and "pending_heads g q = pending_heads f q @ [h]"
    and "unat (avail_idx_at g q - q_next_avail q) = Suc (unat (avail_idx_at f q - q_next_avail q))"
    and "used_idx_at g q = used_idx_at f q" and "used_elem_at g q i = used_elem_at f q i"
proof -
  let ?i = "avail_idx_at f q" and ?s = "unat (q_size q)"
  let ?n = "unat (?i - q_next_avail q)"
  have wf: "wf_queue q" using live by (simp add: queue_live_def)
  have idx: "avail_idx_at g q = ?i + 1" unfolding g by (simp add: avail_idx_poke)
  have sz: "?s \<le> 2 ^ 15" using wf_queue_size_bounds(2) [OF wf] by simp
  have d: "?i + 1 - q_next_avail q = of_nat (Suc ?n)" by simp
  have len: "unat (?i + 1 - q_next_avail q) = Suc ?n"
    unfolding d using room sz by (intro unat_of_nat_less) simp
  have kept: "avail_head_at g q (q_next_avail q + of_nat k) = avail_head_at f q (q_next_avail q + of_nat k)"
    if "k < ?n" for k
  proof (rule publish_heads(2) [OF live g])
    have "?i = q_next_avail q + of_nat k + of_nat (?n - k)" using that by (simp add: of_nat_diff)
    moreover have "0 < ?n - k" and "?n - k < ?s" using that room by linarith+
    ultimately show "unat (q_next_avail q + of_nat k) mod ?s \<noteq> unat ?i mod ?s"
      using slot_distinct [OF wf, of "?n - k" "q_next_avail q + of_nat k"] by metis
  qed
  show "avail_idx_at g q = ?i + 1" by (rule idx)
  show "pending_heads g q = pending_heads f q @ [h]"
    by (simp add: pending_heads_def idx len kept publish_heads(1) [OF live g])
  show "unat (avail_idx_at g q - q_next_avail q) = Suc ?n" by (simp only: idx len)
  have g': "g = poke (poke f (q_avail_ring q + of_nat (4 + 2 * (unat ?i mod ?s))) (le_bytes 2 h))
        (q_avail_ring q + of_nat 2) (le_bytes 2 (?i + 1))"
    using g by (simp add: avail_slot_def)
  show "used_idx_at g q = used_idx_at f q" and "used_elem_at g q i = used_elem_at f q i"
    unfolding g' using slot_less [OF wf, of ?i]
    by (simp_all add: poke_avail_used_views [OF live] del: of_nat_add of_nat_mult of_nat_numeral)
qed

text \<open>A completed chain is appended to the entries the driver finds in the used ring; the heads pending
  stay as they are.\<close>

lemma completed_step:
  assumes wf: "wf_queue q" and used: "used_ring_acc acc q m" and h: "h < q_size q"
    and eq: "add_used G q m h len = (q', m', r)" and ok: "completed_ok (peek m) q cs"
  shows "completed_ok (peek m') q' (cs @ [(h, len)])"
  unfolding completed_ok_def
proof (intro conjI allI impI)
  note rb = add_used_readback [OF wf used h eq]
  have fld: "used_elem_at f q' i = used_elem_at f q i" "used_idx_at f q' = used_idx_at f q" for f i
    by (simp_all add: rb(3) used_elem_at_def used_slot_def used_idx_at_def)
  show "used_idx_at (peek m') q' = q_next_used q'" by (simp add: fld rb(5)) (simp add: rb(3))
  fix j assume j: "j < min (unat (q_size q')) (length (cs @ [(h, len)]))"
  show "used_elem_at (peek m') q' (q_next_used q' - of_nat (Suc j)) =
      \<lparr>ue_id = ucast (fst (rev (cs @ [(h, len)]) ! j)), ue_len = snd (rev (cs @ [(h, len)]) ! j)\<rparr>"
  proof (cases j)
    case 0
    then show ?thesis using rb(4) by (simp add: fld) (simp add: rb(3))
  next
    case (Suc k)
    let ?i = "q_next_used q - of_nat (Suc k)"
    have kb: "Suc k < unat (q_size q)" "k < length cs" using j Suc by (simp_all add: rb(3))
    have "unat ?i mod unat (q_size q) \<noteq> unat (q_next_used q) mod unat (q_size q)"
      using slot_distinct [OF wf, of "Suc k" ?i] kb(1) by simp
    then have "used_elem_at (peek m') q ?i = used_elem_at (peek m) q ?i" by (rule rb(6))
    moreover have "q_next_used q' - of_nat (Suc j) = ?i" by (simp add: rb(3) Suc)
    ultimately show ?thesis using ok kb by (simp add: fld completed_ok_def Suc del: of_nat_Suc)
  qed
qed

lemma complete_ok:
  assumes live: "queue_live acc q m" and h: "h < q_size q"
    and eq: "add_used G q m h len = (q', m', r)" and ok: "completed_ok (peek m) q cs"
  shows "completed_ok (peek m') q' (cs @ [(h, len)])"
    and "pending_heads (peek m') q' = pending_heads (peek m) q" and "queue_live acc q' m'"
    and "avail_idx_at (peek m') q' - q_next_avail q' = avail_idx_at (peek m) q - q_next_avail q"
proof -
  have wf: "wf_queue q" and used: "used_ring_acc acc q m" using live by (simp_all add: queue_live_def)
  note rb = add_used_readback [OF wf used h eq]
  have fld: "avail_idx_at f q' = avail_idx_at f q" "avail_head_at f q' i = avail_head_at f q i" for f i
    by (simp_all add: rb(3) avail_idx_at_def avail_head_at_def avail_slot_def)
  have av: "peek_bytes (peek m') (q_avail_ring q) (6 + 2 * unat (q_size q)) =
      peek_bytes (peek m) (q_avail_ring q) (6 + 2 * unat (q_size q))"
    using live queue_live_no_wrap [OF live] by (intro rb(7)) (simp_all add: queue_live_def)
  note view = avail_views_eq [OF wf av]
  show "pending_heads (peek m') q' = pending_heads (peek m) q"
    and "avail_idx_at (peek m') q' - q_next_avail q' = avail_idx_at (peek m) q - q_next_avail q"
    unfolding pending_heads_def by (simp_all add: fld view) (simp_all add: rb(3))
  show "queue_live acc q' m'"
    using live by (simp add: queue_live_def rb(2,3) avail_ring_acc_def used_ring_acc_def wf_queue_def)
  show "completed_ok (peek m') q' (cs @ [(h, len)])" by (rule completed_step [OF wf used h eq ok])
qed

text \<open>The notification fields are neither ring indices nor ring entries.\<close>

lemma notification_field_frame:
  assumes live: "queue_live acc q m" and k: "k = 0 \<or> k = 4 + 8 * unat (q_size q)" and bs: "length bs = 2"
  shows "same_rings q (poke f (q_used_ring q + of_nat k) bs) f"
proof -
  have wf: "wf_queue q" using live by (simp add: queue_live_def)
  note nw = queue_live_no_wrap(2) [OF live]
  have fr: "peek_bytes (poke f (q_used_ring q + of_nat k) bs) (q_used_ring q + of_nat j) n =
      peek_bytes f (q_used_ring q + of_nat j) n" if "2 \<le> j" and "j + n \<le> 4 + 8 * unat (q_size q)" for j n
    using that k bs nw by (intro peek_field_poke_other) auto
  have "used_elem_at (poke f (q_used_ring q + of_nat k) bs) q i = used_elem_at f q i" for i
    using fr [of "4 + 8 * (unat i mod unat (q_size q))" 8] slot_less [OF wf, of i]
    by (simp add: used_elem_at_def used_slot_def)
  moreover have "used_idx_at (poke f (q_used_ring q + of_nat k) bs) q = used_idx_at f q"
    using fr [of 2 2] by (simp add: used_idx_at_def)
  ultimately show ?thesis
    using poke_used_avail_views [OF live, of k bs f] k bs by (auto simp: same_rings_def)
qed

lemma set_notification_frame:
  assumes live: "queue_live acc q m" and eq: "set_notification G q m en = (m', r)"
  shows "r = Inr ()" and "same_rings q (peek m') (peek m)" and "acc m' = acc m"
proof -
  have wf: "wf_queue q" and used: "used_ring_acc acc q m" using live by (simp_all add: queue_live_def)
  have st: "\<exists>m'. store_u16 G m (q_used_ring q + of_nat k) (to_le (gm_endian G) v) Relaxed = (m', Inr ()) \<and>
      same_rings q (peek m') (peek m) \<and> acc m' = acc m"
    if k: "k = 0 \<or> k = 4 + 8 * unat (q_size q)" for k v
  proof -
    note f = used_field_acc [OF wf used, of k 2]
    have "\<exists>m'. store_u16 G m (q_used_ring q + of_nat k) (to_le (gm_endian G) v) Relaxed = (m', Inr ()) \<and>
      peek m' = poke (peek m) (q_used_ring q + of_nat k) (le_bytes 2 v) \<and> acc m' = acc m"
      using f k by (intro store_u16_le) (auto simp: store_order_def)
    then show ?thesis using notification_field_frame [OF live k, of "le_bytes 2 v" "peek m"] by auto
  qed
  have "checked_add (q_used_ring q) (of_nat (4 + 8 * unat (q_size q))) =
      Some (q_used_ring q + of_nat (4 + 8 * unat (q_size q)))"
    using queue_live_no_wrap(2) [OF live] by (intro checked_add_of_nat) simp
  then have "r = Inr () \<and> same_rings q (peek m') (peek m) \<and> acc m' = acc m"
    using eq st [of 0 0] st [of 0 "ucast VRING_USED_F_NO_NOTIFY"]
      st [of "4 + 8 * unat (q_size q)" "q_next_avail q"]
    by (cases en; cases "q_event_idx_enabled q")
      (auto simp: set_notification_def set_avail_event_def set_used_flags_def queue_const_defs
        u64_of_slot same_rings_refl simp del: of_nat_add of_nat_mult)
  then show "r = Inr ()" and "same_rings q (peek m') (peek m)" and "acc m' = acc m" by simp_all
qed

lemma add_used_Inr_head: "add_used G q m h len = (q', m', Inr ()) \<Longrightarrow> h < q_size q"
  by (auto simp: add_used_def split: if_splits)

lemma needs_notification_frame:
  assumes "needs_notification G q m = (q', r)"
  shows "q' = q \<or> q' = q\<lparr>q_num_added := 0\<rparr>"
  using assms by (auto simp: needs_notification_def Let_def split: if_splits sum.splits)

lemma vq_inv_num_added:
  "vq_inv peek acc \<lparr>vq_queue = q\<lparr>q_num_added := n\<rparr>, vq_mem = m, vq_log = l\<rparr> =
   vq_inv peek acc \<lparr>vq_queue = q, vq_mem = m, vq_log = l\<rparr>"
  by (simp add: vq_inv_def queue_live_def avail_ring_acc_def used_ring_acc_def wf_queue_def
      pending_heads_def completed_ok_def avail_idx_at_def used_idx_at_def avail_head_at_def
      avail_slot_def used_elem_at_def used_slot_def)

lemma vq_inv_same_rings:
  assumes "vq_inv peek acc \<lparr>vq_queue = q, vq_mem = m, vq_log = l\<rparr>"
    and "same_rings q (peek m') (peek m)" and "acc m' = acc m"
  shows "vq_inv peek acc \<lparr>vq_queue = q, vq_mem = m', vq_log = l\<rparr>"
  using assms same_rings_inv [OF assms(2)]
  by (simp add: vq_inv_def queue_live_def avail_ring_acc_def used_ring_acc_def)

lemma pop_pending:
  assumes live: "queue_live acc q m"
    and n: "unat (avail_idx_at (peek m) q - q_next_avail q) \<le> unat (q_size q)"
  shows "pop_descriptor_chain G q m =
    (case pending_heads (peek m) q of
       [] \<Rightarrow> (q, None)
     | h # hs \<Rightarrow> (q\<lparr>q_next_avail := q_next_avail q + 1\<rparr>, Some (chain_new (q_desc_table q) (q_size q) h)))"
    and "pending_heads (peek m) q = h # hs \<Longrightarrow>
      pending_heads (peek m) (q\<lparr>q_next_avail := q_next_avail q + 1\<rparr>) = hs \<and>
      unat (avail_idx_at (peek m) q - (q_next_avail q + 1)) \<le> unat (q_size q)"
proof -
  let ?n = "unat (avail_idx_at (peek m) q - q_next_avail q)"
  have ok: "pop_descriptor_chain G q m =
    (if 0 < ?n then (q\<lparr>q_next_avail := q_next_avail q + 1\<rparr>,
       Some (chain_new (q_desc_table q) (q_size q) (avail_head_at (peek m) q (q_next_avail q))))
     else (q, None))"
    using live n pop_descriptor_chain_ok [of q m] by (simp add: queue_live_def)
  have ne: "pending_heads (peek m) q = [] \<longleftrightarrow> ?n = 0" by (simp add: pending_heads_def)
  have cons: "pending_heads (peek m) q =
      avail_head_at (peek m) q (q_next_avail q) #
      pending_heads (peek m) (q\<lparr>q_next_avail := q_next_avail q + 1\<rparr>) \<and>
      unat (avail_idx_at (peek m) q - (q_next_avail q + 1)) < ?n"
    if "0 < ?n"
  proof -
    have "q_next_avail q \<noteq> avail_idx_at (peek m) q" using that by auto
    from distance_step [OF this]
    have "?n = Suc (unat (avail_idx_at (peek m) q - (q_next_avail q + 1)))" by simp
    then show ?thesis
      by (simp add: pending_heads_def map_upt_Suc add.assoc avail_head_at_def avail_slot_def
          avail_idx_at_def del: upt_Suc)
  qed
  show "pop_descriptor_chain G q m =
    (case pending_heads (peek m) q of
       [] \<Rightarrow> (q, None)
     | h # hs \<Rightarrow> (q\<lparr>q_next_avail := q_next_avail q + 1\<rparr>, Some (chain_new (q_desc_table q) (q_size q) h)))"
    using ok ne cons by (cases "pending_heads (peek m) q") auto
  show "pending_heads (peek m) (q\<lparr>q_next_avail := q_next_avail q + 1\<rparr>) = hs \<and>
      unat (avail_idx_at (peek m) q - (q_next_avail q + 1)) \<le> unat (q_size q)"
    if "pending_heads (peek m) q = h # hs"
    using cons ne that n by auto
qed

lemma vq_inv_pop:
  assumes inv: "vq_inv peek acc \<lparr>vq_queue = q, vq_mem = m, vq_log = l\<rparr>"
    and eq: "pop_descriptor_chain G q m = (q', Some c)"
  shows "vq_inv peek acc \<lparr>vq_queue = q', vq_mem = m, vq_log = l\<lparr>lg_popped := lg_popped l @ [dc_head_index c]\<rparr>\<rparr>"
proof -
  have live: "queue_live acc q m" and n: "unat (avail_idx_at (peek m) q - q_next_avail q) \<le> unat (q_size q)"
    and pub: "lg_published l = lg_popped l @ pending_heads (peek m) q"
    and com: "completed_ok (peek m) q (lg_completed l)"
    using inv by (simp_all add: vq_inv_def)
  from pop_pending(1) [OF live n] eq obtain h hs where h: "pending_heads (peek m) q = h # hs"
      "q' = q\<lparr>q_next_avail := q_next_avail q + 1\<rparr>" "dc_head_index c = h"
    by (auto simp: chain_new_def chain_with_ttl_def split: list.splits)
  from pop_pending(2) [OF live n h(1)] live pub com h show ?thesis
    by (simp add: vq_inv_def queue_live_def avail_ring_acc_def used_ring_acc_def wf_queue_def
        completed_ok_def avail_idx_at_def used_idx_at_def used_elem_at_def used_slot_def)
qed

lemma vq_inv_step:
  assumes "vq_step G peek acc s s'" and "vq_inv peek acc s"
  shows "vq_inv peek acc s'"
  using assms
proof (induction rule: vq_step.induct)
  case (driver_publish m q m' h l)
  then have live: "queue_live acc q m" by (simp add: vq_inv_def)
  note p = publish_pending [OF live driver_publish(1,2)]
  have "queue_live acc q m'"
    using live driver_publish(3) by (simp add: queue_live_def avail_ring_acc_def used_ring_acc_def)
  with driver_publish p show ?case by (simp add: vq_inv_def completed_ok_def)
next
  case (driver_other q m' m l)
  then show ?case by (auto intro: vq_inv_same_rings)
next
  case (device_pop q m q' c l)
  then show ?case by (auto intro: vq_inv_pop)
next
  case (device_pop_none q m q' l)
  then show ?case
    using pop_pending(1) [of q m] by (auto simp: vq_inv_def split: list.splits)
next
  case (device_complete q m h len q' m' l)
  then have "queue_live acc q m" "completed_ok (peek m) q (lg_completed l)" by (simp_all add: vq_inv_def)
  from complete_ok [OF this(1) add_used_Inr_head [OF device_complete(1)] device_complete(1) this(2)]
  have "completed_ok (peek m') q' (lg_completed l @ [(h, len)])"
    "pending_heads (peek m') q' = pending_heads (peek m) q" "queue_live acc q' m'"
    "avail_idx_at (peek m') q' - q_next_avail q' = avail_idx_at (peek m) q - q_next_avail q" .
  moreover have "q_size q' = q_size q"
    using device_complete(1) by (auto simp: add_used_def Let_def split: if_splits option.splits prod.splits sum.splits)
  ultimately show ?case using device_complete(2) by (simp add: vq_inv_def)
next
  case (device_notified q m q' r l)
  then show ?case using needs_notification_frame [OF device_notified(1)] by (auto simp: vq_inv_num_added)
next
  case (device_set_notification q m en m' r l)
  then have "queue_live acc q m" by (simp add: vq_inv_def)
  from set_notification_frame(2,3) [OF this device_set_notification(1)] device_set_notification(2)
  show ?case by (auto intro: vq_inv_same_rings)
qed

lemma vq_inv_run: "vq_run G peek acc s s' \<Longrightarrow> vq_inv peek acc s \<Longrightarrow> vq_inv peek acc s'"
  by (induction rule: vq_run.induct) (auto intro: vq_inv_step)

text \<open>Enabling notifications reports exactly whether heads are already pending: none is missed between
  the device finding the queue empty and it asking to be notified.\<close>

lemma enable_notification_pending:
  assumes live: "queue_live acc q m"
  shows "\<exists>m'. enable_notification G q m = (m', Inr (pending_heads (peek m) q \<noteq> [])) \<and>
    same_rings q (peek m') (peek m) \<and> acc m' = acc m"
proof -
  obtain m' r where eq: "set_notification G q m True = (m', r)" by fastforce
  note f = set_notification_frame [OF live eq]
  have "wf_queue q" and "avail_ring_acc acc q m'"
    using live f(3) by (simp_all add: queue_live_def avail_ring_acc_def)
  from avail_idx_value [OF this, of Relaxed] same_rings_inv(3) [OF f(2)]
  have "avail_idx G q m' Relaxed = Inr (avail_idx_at (peek m) q)" by (simp add: load_order_def)
  with eq f show ?thesis
    by (auto simp: enable_notification_def pending_heads_def unat_eq_zero)
qed

end

end
