(* ===== verification/Queue_State.thy ===== *)
theory Queue_State
  imports Queue_Core
begin

text \<open>
  \<open>QueueState\<close> (\<open>virtio-queue/src/state.rs\<close>), its construction from a queue (\<open>Queue::state\<close>) and the
  validated restore (\<open>Queue::try_from\<close>), and the serialisable wrapper \<open>QueueStateSer\<close> of
  \<open>virtio-queue-ser/src/state.rs\<close> with its conversions.
\<close>

section \<open>Saving and restoring\<close>

record queue_state =
  st_max_size :: u16
  st_next_avail :: u16
  st_next_used :: u16
  st_event_idx_enabled :: bool
  st_size :: u16
  st_ready :: bool
  st_desc_table :: u64
  st_avail_ring :: u64
  st_used_ring :: u64

definition queue_state_of :: "queue \<Rightarrow> queue_state" where
  "queue_state_of q =
     \<lparr>st_max_size = q_max_size q,
      st_next_avail = q_next_avail q,
      st_next_used = q_next_used q,
      st_event_idx_enabled = q_event_idx_enabled q,
      st_size = q_size q,
      st_ready = q_ready q,
      st_desc_table = q_desc_table q,
      st_avail_ring = q_avail_ring q,
      st_used_ring = q_used_ring q\<rparr>"

text \<open>The \<open>Default\<close> instance derived for \<open>QueueState\<close>.\<close>

definition queue_state_default :: queue_state where
  "queue_state_default =
     \<lparr>st_max_size = 0, st_next_avail = 0, st_next_used = 0, st_event_idx_enabled = False,
      st_size = 0, st_ready = False, st_desc_table = 0, st_avail_ring = 0, st_used_ring = 0\<rparr>"

text \<open>A fallible setter followed by the operator \<open>?\<close>: the queue it leaves, or its error.\<close>

definition try_queue :: "queue \<times> (queue_error + unit) \<Rightarrow> queue_error + queue" where
  "try_queue r = (case r of (q, Inl e) \<Rightarrow> Inl e | (q, Inr _) \<Rightarrow> Inr q)"

definition queue_try_from :: "queue_state \<Rightarrow> queue_error + queue" where
  "queue_try_from st =
     (case queue_new (st_max_size st) of
        Inl e \<Rightarrow> Inl e
      | Inr q0 \<Rightarrow>
          let q1 = set_next_avail q0 (st_next_avail st);
              q2 = set_next_used q1 (st_next_used st);
              q3 = set_event_idx q2 (st_event_idx_enabled st) in
          (case try_queue (try_set_size q3 (st_size st)) of
             Inl e \<Rightarrow> Inl e
           | Inr q4 \<Rightarrow>
               let q5 = set_ready q4 (st_ready st) in
               (case try_queue (try_set_desc_table_address q5 (st_desc_table st)) of
                  Inl e \<Rightarrow> Inl e
                | Inr q6 \<Rightarrow>
                    (case try_queue (try_set_avail_ring_address q6 (st_avail_ring st)) of
                       Inl e \<Rightarrow> Inl e
                     | Inr q7 \<Rightarrow>
                         try_queue (try_set_used_ring_address q7 (st_used_ring st))))))"

section \<open>The serialisable wrapper\<close>

record queue_state_ser =
  ser_max_size :: u16
  ser_next_avail :: u16
  ser_next_used :: u16
  ser_event_idx_enabled :: bool
  ser_size :: u16
  ser_ready :: bool
  ser_desc_table :: u64
  ser_avail_ring :: u64
  ser_used_ring :: u64

definition state_of_ser :: "queue_state_ser \<Rightarrow> queue_state" where
  "state_of_ser s =
     \<lparr>st_max_size = ser_max_size s,
      st_next_avail = ser_next_avail s,
      st_next_used = ser_next_used s,
      st_event_idx_enabled = ser_event_idx_enabled s,
      st_size = ser_size s,
      st_ready = ser_ready s,
      st_desc_table = ser_desc_table s,
      st_avail_ring = ser_avail_ring s,
      st_used_ring = ser_used_ring s\<rparr>"

definition ser_of_state :: "queue_state \<Rightarrow> queue_state_ser" where
  "ser_of_state s =
     \<lparr>ser_max_size = st_max_size s,
      ser_next_avail = st_next_avail s,
      ser_next_used = st_next_used s,
      ser_event_idx_enabled = st_event_idx_enabled s,
      ser_size = st_size s,
      ser_ready = st_ready s,
      ser_desc_table = st_desc_table s,
      ser_avail_ring = st_avail_ring s,
      ser_used_ring = st_used_ring s\<rparr>"

definition queue_state_ser_default :: queue_state_ser where
  "queue_state_ser_default = ser_of_state queue_state_default"

lemma ser_round_trip [simp]:
  "state_of_ser (ser_of_state s) = s" "ser_of_state (state_of_ser r) = r"
  by (simp_all add: state_of_ser_def ser_of_state_def)

section \<open>What a restore accepts\<close>

text \<open>The configuration a saved state must satisfy, checked in the order of the code.\<close>

definition state_valid :: "queue_state \<Rightarrow> bool" where
  "state_valid st \<longleftrightarrow>
     st_max_size st \<noteq> 0 \<and> pow2_check (st_max_size st) \<and> st_max_size st \<le> MAX_QUEUE_SIZE \<and>
     st_size st \<noteq> 0 \<and> pow2_check (st_size st) \<and> st_size st \<le> st_max_size st \<and>
     st_desc_table st AND 15 = 0 \<and> st_avail_ring st AND 1 = 0 \<and> st_used_ring st AND 3 = 0"

definition queue_of_state :: "queue_state \<Rightarrow> queue" where
  "queue_of_state st =
     \<lparr>q_max_size = st_max_size st, q_next_avail = st_next_avail st, q_next_used = st_next_used st,
      q_event_idx_enabled = st_event_idx_enabled st, q_num_added = 0, q_size = st_size st,
      q_ready = st_ready st, q_desc_table = st_desc_table st, q_avail_ring = st_avail_ring st,
      q_used_ring = st_used_ring st\<rparr>"

lemmas try_set_defs =
  try_set_size_def try_set_desc_table_address_def try_set_avail_ring_address_def
  try_set_used_ring_address_def set_next_avail_def set_next_used_def set_event_idx_def
  set_ready_def

lemma queue_try_from_eq:
  "queue_try_from st =
     (if st_max_size st = 0 \<or> st_max_size st > MAX_QUEUE_SIZE \<or> \<not> pow2_check (st_max_size st)
        then Inl InvalidMaxSize
      else if st_size st > st_max_size st \<or> st_size st = 0 \<or> \<not> pow2_check (st_size st)
        then Inl InvalidSize
      else if st_desc_table st AND 15 \<noteq> 0 then Inl InvalidDescTableAlign
      else if st_avail_ring st AND 1 \<noteq> 0 then Inl InvalidAvailRingAlign
      else if st_used_ring st AND 3 \<noteq> 0 then Inl InvalidUsedRingAlign
      else Inr (queue_of_state st))"
  unfolding queue_try_from_def queue_new_def
  by (simp add: try_queue_def try_set_defs pow2_check_def queue_of_state_def Let_def)

lemma wf_queue_of_state: "wf_queue (queue_of_state st) \<longleftrightarrow> state_valid st"
  by (simp add: wf_queue_def queue_of_state_def state_valid_def)

lemma queue_try_from_valid: "state_valid st \<Longrightarrow> queue_try_from st = Inr (queue_of_state st)"
  by (auto simp: queue_try_from_eq state_valid_def not_less)

lemma state_valid_of_queue: "state_valid (queue_state_of q) \<longleftrightarrow> wf_queue q"
  by (simp add: wf_queue_def queue_state_of_def state_valid_def)

lemma queue_of_state_of: "queue_of_state (queue_state_of q) = q\<lparr>q_num_added := 0\<rparr>"
  by (simp add: queue_of_state_def queue_state_of_def)

lemma state_of_queue_of: "queue_state_of (queue_of_state st) = st"
  by (simp add: queue_of_state_def queue_state_of_def)

end
