(* ===== verification/Queue_Sync.thy ===== *)
theory Queue_Sync
  imports Avail_Iter
begin

text \<open>
  The mutating operations of the trait \<open>QueueT\<close> as one step function, executed by \<open>Queue\<close>
  (\<open>virtio-queue/src/queue.rs\<close>) and by \<open>QueueSync\<close> (\<open>virtio-queue/src/queue_sync.rs\<close>). A \<open>QueueSync\<close> is
  a reference (\<open>Arc\<close>) to a mutex in a heap; a clone is the same reference. The heap holds the queue
  behind each mutex that is not poisoned; locking any other reference panics, which is the value
  \<open>None\<close>.
\<close>

section \<open>The operations of the trait\<close>

datatype queue_op =
    OpReset
  | OpSetSize u16
  | OpSetReady bool
  | OpSetDescTableAddress "u32 option" "u32 option"
  | OpSetAvailRingAddress "u32 option" "u32 option"
  | OpSetUsedRingAddress "u32 option" "u32 option"
  | OpSetEventIdx bool
  | OpSetNextAvail u16
  | OpSetNextUsed u16
  | OpAddUsed u16 u32
  | OpEnableNotification
  | OpDisableNotification
  | OpNeedsNotification
  | OpPopDescriptorChain

datatype queue_ret =
    RetUnit
  | RetResult "queue_error + unit"
  | RetBool "queue_error + bool"
  | RetChain "desc_chain option"

fun queue_exec :: "'m guest_memory \<Rightarrow> queue_op \<Rightarrow> queue \<times> 'm \<Rightarrow> (queue \<times> 'm) \<times> queue_ret" where
  "queue_exec G OpReset (q, m) = ((queue_reset q, m), RetUnit)"
| "queue_exec G (OpSetSize n) (q, m) = ((set_size q n, m), RetUnit)"
| "queue_exec G (OpSetReady b) (q, m) = ((set_ready q b, m), RetUnit)"
| "queue_exec G (OpSetDescTableAddress l h) (q, m) = ((set_desc_table_address q l h, m), RetUnit)"
| "queue_exec G (OpSetAvailRingAddress l h) (q, m) = ((set_avail_ring_address q l h, m), RetUnit)"
| "queue_exec G (OpSetUsedRingAddress l h) (q, m) = ((set_used_ring_address q l h, m), RetUnit)"
| "queue_exec G (OpSetEventIdx b) (q, m) = ((set_event_idx q b, m), RetUnit)"
| "queue_exec G (OpSetNextAvail v) (q, m) = ((set_next_avail q v, m), RetUnit)"
| "queue_exec G (OpSetNextUsed v) (q, m) = ((set_next_used q v, m), RetUnit)"
| "queue_exec G (OpAddUsed i len) (q, m) =
     (case add_used G q m i len of (q', m', r) \<Rightarrow> ((q', m'), RetResult r))"
| "queue_exec G OpEnableNotification (q, m) =
     (case enable_notification G q m of (m', r) \<Rightarrow> ((q, m'), RetBool r))"
| "queue_exec G OpDisableNotification (q, m) =
     (case disable_notification G q m of (m', r) \<Rightarrow> ((q, m'), RetResult r))"
| "queue_exec G OpNeedsNotification (q, m) =
     (case needs_notification G q m of (q', r) \<Rightarrow> ((q', m), RetBool r))"
| "queue_exec G OpPopDescriptorChain (q, m) =
     (case pop_descriptor_chain G q m of (q', r) \<Rightarrow> ((q', m), RetChain r))"

section \<open>\<open>QueueSync\<close>\<close>

type_synonym queue_ref = nat
type_synonym queue_heap = "queue_ref \<Rightarrow> queue option"

definition lock_state :: "queue_heap \<Rightarrow> queue_ref \<Rightarrow> queue option" where
  "lock_state hp r = hp r"

definition sync_new :: "queue_heap \<Rightarrow> queue_ref \<Rightarrow> u16 \<Rightarrow> queue_error + (queue_heap \<times> queue_ref)" where
  "sync_new hp fresh max_size =
     (case queue_new max_size of
        Inl e \<Rightarrow> Inl e
      | Inr q \<Rightarrow> Inr (hp(fresh \<mapsto> q), fresh))"

definition sync_clone :: "queue_ref \<Rightarrow> queue_ref" where
  "sync_clone r = r"

text \<open>The accessors: lock, then read the queue.\<close>

definition sync_get :: "(queue \<Rightarrow> 'a) \<Rightarrow> queue_heap \<Rightarrow> queue_ref \<Rightarrow> 'a option" where
  "sync_get f hp r = map_option f (lock_state hp r)"

definition sync_is_valid :: "'m guest_memory \<Rightarrow> queue_heap \<Rightarrow> queue_ref \<Rightarrow> 'm \<Rightarrow> bool option" where
  "sync_is_valid G hp r m = map_option (\<lambda>q. is_valid G q m) (lock_state hp r)"

definition sync_avail_idx ::
    "'m guest_memory \<Rightarrow> queue_heap \<Rightarrow> queue_ref \<Rightarrow> 'm \<Rightarrow> ordering \<Rightarrow> (queue_error + u16) option" where
  "sync_avail_idx G hp r m ord = map_option (\<lambda>q. avail_idx G q m ord) (lock_state hp r)"

definition sync_used_idx ::
    "'m guest_memory \<Rightarrow> queue_heap \<Rightarrow> queue_ref \<Rightarrow> 'm \<Rightarrow> ordering \<Rightarrow> (queue_error + u16) option" where
  "sync_used_idx G hp r m ord = map_option (\<lambda>q. used_idx G q m ord) (lock_state hp r)"

text \<open>The mutating operations: lock, run the operation of \<open>Queue\<close> on the guarded queue, unlock.\<close>

definition sync_exec ::
    "'m guest_memory \<Rightarrow> queue_ref \<Rightarrow> queue_op \<Rightarrow> queue_heap \<times> 'm \<Rightarrow> ((queue_heap \<times> 'm) \<times> queue_ret) option" where
  "sync_exec G r op s =
     (case lock_state (fst s) r of
        None \<Rightarrow> None
      | Some q \<Rightarrow>
          (case queue_exec G op (q, snd s) of
             ((q', m'), ret) \<Rightarrow> Some (((fst s)(r \<mapsto> q'), m'), ret)))"

text \<open>An interleaving of locked operations of any number of threads, each through its own reference.\<close>

fun sync_run ::
    "'m guest_memory \<Rightarrow> (queue_ref \<times> queue_op) list \<Rightarrow> queue_heap \<times> 'm \<Rightarrow>
     ((queue_heap \<times> 'm) \<times> queue_ret list) option" where
  "sync_run G [] s = Some (s, [])"
| "sync_run G ((r, op) # ops) s =
     (case sync_exec G r op s of
        None \<Rightarrow> None
      | Some (s', ret) \<Rightarrow>
          (case sync_run G ops s' of
             None \<Rightarrow> None
           | Some (s'', rets) \<Rightarrow> Some (s'', ret # rets)))"

fun queue_run ::
    "'m guest_memory \<Rightarrow> queue_op list \<Rightarrow> queue \<times> 'm \<Rightarrow> (queue \<times> 'm) \<times> queue_ret list" where
  "queue_run G [] s = (s, [])"
| "queue_run G (op # ops) s =
     (case queue_exec G op s of
        (s', ret) \<Rightarrow> (case queue_run G ops s' of (s'', rets) \<Rightarrow> (s'', ret # rets)))"

section \<open>Every operation keeps the invariant\<close>

text \<open>An implementation of the operations of the trait: a step that may panic, and an invariant it keeps.\<close>

locale queue_ops =
  fixes step :: "'op \<Rightarrow> 's \<Rightarrow> ('s \<times> 'ret) option"
    and inv :: "'s \<Rightarrow> bool"
  assumes step_inv: "inv s \<Longrightarrow> step op s = Some (s', ret) \<Longrightarrow> inv s'"
begin

inductive reach :: "'s \<Rightarrow> 's \<Rightarrow> bool" where
  reach_refl: "reach s s"
| reach_step: "reach s s' \<Longrightarrow> step op s' = Some (s'', ret) \<Longrightarrow> reach s s''"

lemma reach_inv:
  assumes "reach s s'" and "inv s"
  shows "inv s'"
  using assms by (induction rule: reach.induct) (auto intro: step_inv)

end

lemma wf_queue_exec:
  assumes "wf_queue q"
  shows "wf_queue (fst (fst (queue_exec G op (q, m))))"
  using assms
  by (cases op) (simp_all add: case_prod_beta wf_keeps)

interpretation queue_impl: queue_ops "\<lambda>op s. Some (queue_exec G op s)" "\<lambda>s. wf_queue (fst s)" for G
  by unfold_locales (metis fst_conv option.inject prod.collapse wf_queue_exec)

definition heap_wf :: "queue_heap \<Rightarrow> bool" where
  "heap_wf hp \<longleftrightarrow> (\<forall>r q. hp r = Some q \<longrightarrow> wf_queue q)"

interpretation sync_impl: queue_ops "\<lambda>(r, op). sync_exec G r op" "\<lambda>s. heap_wf (fst s)" for G
proof
  fix s s' :: "queue_heap \<times> 'a" and rop :: "queue_ref \<times> queue_op" and ret
  assume inv: "heap_wf (fst s)" and st: "(case rop of (r, op) \<Rightarrow> sync_exec G r op) s = Some (s', ret)"
  obtain r op where rop: "rop = (r, op)" by (cases rop)
  with st obtain q where q: "fst s r = Some q"
      and s': "s' = ((fst s)(r \<mapsto> fst (fst (queue_exec G op (q, snd s)))), snd (fst (queue_exec G op (q, snd s))))"
    by (auto simp: sync_exec_def lock_state_def split: option.splits prod.splits)
  with inv wf_queue_exec [of q G op "snd s"] show "heap_wf (fst s')"
    by (auto simp: heap_wf_def)
qed

lemma queue_run_reach:
  "queue_impl.reach G s (fst (queue_run G ops s))"
proof (induction ops rule: rev_induct)
  case Nil
  then show ?case by (simp add: queue_impl.reach_refl)
next
  case (snoc op ops)
  have "fst (queue_run G (ops @ [op]) s) = fst (queue_exec G op (fst (queue_run G ops s)))"
    by (induction ops arbitrary: s) (simp_all add: case_prod_beta)
  with snoc show ?case
    using queue_impl.reach_step [of G s _ op "fst (queue_exec G op (fst (queue_run G ops s)))"
        "snd (queue_exec G op (fst (queue_run G ops s)))"]
    by simp
qed

section \<open>Linearisation\<close>

text \<open>
  Operations through references to one mutex act on the queue behind it as the same sequence of
  operations of \<open>Queue\<close> does; no operation panics as long as the references used are live.
\<close>

lemma sync_exec_Some:
  assumes "hp r = Some q"
  shows "sync_exec G r op (hp, m) =
    Some ((hp(r \<mapsto> fst (fst (queue_exec G op (q, m)))), snd (fst (queue_exec G op (q, m)))),
          snd (queue_exec G op (q, m)))"
  using assms by (simp add: sync_exec_def lock_state_def split: prod.splits)

lemma sync_run_same:
  assumes "hp r = Some q"
  shows "sync_run G (map (Pair r) ops) (hp, m) =
    Some ((hp(r \<mapsto> fst (fst (queue_run G ops (q, m)))), snd (fst (queue_run G ops (q, m)))),
          snd (queue_run G ops (q, m)))"
  using assms
proof (induction ops arbitrary: hp q m)
  case Nil
  then show ?case by (simp add: fun_upd_idem)
next
  case (Cons op ops)
  obtain q1 m1 ret where e: "queue_exec G op (q, m) = ((q1, m1), ret)" by (metis surj_pair)
  have "(hp(r \<mapsto> q1)) r = Some q1" by simp
  note ih = Cons.IH [where hp = "hp(r \<mapsto> q1)" and q = q1 and m = m1, OF this]
  show ?case by (simp add: sync_exec_Some [where hp = hp and r = r, OF Cons.prems] e ih case_prod_beta fun_eq_iff)
qed

lemma sync_run_live:
  assumes "\<And>r. r \<in> fst ` set ops \<Longrightarrow> hp r \<noteq> None"
  shows "sync_run G ops (hp, m) \<noteq> None"
  using assms
proof (induction ops arbitrary: hp m)
  case Nil
  then show ?case by simp
next
  case (Cons rop ops)
  obtain r op where rop: "rop = (r, op)" by (cases rop)
  with Cons.prems [of r] obtain q where q: "hp r = Some q" by auto
  obtain q1 m1 ret where e: "queue_exec G op (q, m) = ((q1, m1), ret)" by (metis surj_pair)
  have "sync_run G ops (hp(r \<mapsto> q1), m1) \<noteq> None" using Cons.prems by (intro Cons.IH) auto
  then show ?case by (auto simp: rop sync_exec_Some [of hp r q G op m, OF q] e split: option.splits)
qed

end
