(* ===== verification/Single_Region.thy ===== *)
theory Single_Region
  imports Guest_Memory
begin

text \<open>
  \<open>SingleRegionGuestMemory\<close> of \<open>virtio-queue/src/queue/verification.rs\<close>: guest memory that consists
  of one region. It implements the trait \<open>GuestMemory\<close> by \<open>find_region\<close> and \<open>try_access\<close>; the accesses
  of the trait go through these two. The interpretation of \<open>guest_mem\<close> on it discharges the laws the
  other theories rely on.
\<close>

section \<open>The region\<close>

text \<open>A mapped region: its guest base address, its size and its contents by guest address. The region
  methods return the offset of an address in the region, if it is present there.\<close>

record region =
  rg_base :: u64
  rg_size :: nat
  rg_data :: "u64 \<Rightarrow> byte"

definition to_region_addr :: "region \<Rightarrow> u64 \<Rightarrow> u64 option" where
  "to_region_addr r a =
     (if rg_base r \<le> a \<and> unat (a - rg_base r) < rg_size r then Some (a - rg_base r) else None)"

definition region_checked_offset :: "region \<Rightarrow> u64 \<Rightarrow> nat \<Rightarrow> u64 option" where
  "region_checked_offset r ra n =
     (if unat ra + n < 2 ^ 64 \<and> unat ra + n < rg_size r then Some (ra + of_nat n) else None)"

section \<open>The trait implementation\<close>

definition sr_num_regions :: "region \<Rightarrow> nat" where
  "sr_num_regions r = 1"

definition sr_find_region :: "region \<Rightarrow> u64 \<Rightarrow> region option" where
  "sr_find_region r a = map_option (\<lambda>_. r) (to_region_addr r a)"

definition sr_iter :: "region \<Rightarrow> region list" where
  "sr_iter r = [r]"

definition sr_try_access ::
    "region \<Rightarrow> nat \<Rightarrow> u64 \<Rightarrow> (nat \<Rightarrow> nat \<Rightarrow> u64 \<Rightarrow> region \<Rightarrow> gm_error + 'a) \<Rightarrow> gm_error + 'a" where
  "sr_try_access r count addr f =
     (case to_region_addr r addr of
        None \<Rightarrow> Inl (InvalidGuestAddress addr)
      | Some region_addr \<Rightarrow>
          (case region_checked_offset r region_addr count of
             None \<Rightarrow> Inl (InvalidGuestAddress addr)
           | Some _ \<Rightarrow> f 0 count region_addr r))"

text \<open>The accesses of the trait over these two methods.\<close>

definition sr_read_slice :: "region \<Rightarrow> u64 \<Rightarrow> nat \<Rightarrow> gm_error + byte list" where
  "sr_read_slice r a n =
     sr_try_access r n a (\<lambda>_ len ra rg. Inr (peek_bytes (rg_data rg) (rg_base rg + ra) len))"

definition sr_write_slice :: "region \<Rightarrow> u64 \<Rightarrow> byte list \<Rightarrow> region \<times> (gm_error + unit)" where
  "sr_write_slice r a bs =
     (case sr_try_access r (length bs) a
             (\<lambda>_ _ ra rg. Inr (rg\<lparr>rg_data := poke (rg_data rg) (rg_base rg + ra) bs\<rparr>)) of
        Inl e \<Rightarrow> (r, Inl e)
      | Inr r' \<Rightarrow> (r', Inr ()))"

definition sr_atomic_ok :: "region \<Rightarrow> u64 \<Rightarrow> nat \<Rightarrow> bool" where
  "sr_atomic_ok r a n \<longleftrightarrow>
     rg_base r \<le> a \<and> unat (a - rg_base r) + n \<le> rg_size r \<and> n dvd unat a"

definition sr_load :: "region \<Rightarrow> u64 \<Rightarrow> nat \<Rightarrow> ordering \<Rightarrow> gm_error + byte list" where
  "sr_load r a n ord =
     (if sr_atomic_ok r a n then Inr (peek_bytes (rg_data r) a n) else Inl (InvalidGuestAddress a))"

definition sr_store :: "region \<Rightarrow> u64 \<Rightarrow> byte list \<Rightarrow> ordering \<Rightarrow> region \<times> (gm_error + unit)" where
  "sr_store r a bs ord =
     (if sr_atomic_ok r a (length bs) then (r\<lparr>rg_data := poke (rg_data r) a bs\<rparr>, Inr ())
      else (r, Inl (InvalidGuestAddress a)))"

definition sr_address_in_range :: "region \<Rightarrow> u64 \<Rightarrow> bool" where
  "sr_address_in_range r a \<longleftrightarrow> sr_find_region r a \<noteq> None"

definition sr_check_address :: "region \<Rightarrow> u64 \<Rightarrow> u64 option" where
  "sr_check_address r a = map_option (\<lambda>_. a) (sr_find_region r a)"

definition sr_region_get_slice :: "region \<Rightarrow> u64 \<Rightarrow> u64 \<Rightarrow> nat \<Rightarrow> gm_error + vslice" where
  "sr_region_get_slice r start off n =
     (if unat off + n \<le> rg_size r then Inr \<lparr>vs_addr = start + off, vs_len = n\<rparr>
      else Inl (InvalidGuestAddress (start + off)))"

definition sr_get_slice :: "region \<Rightarrow> u64 \<Rightarrow> nat \<Rightarrow> gm_error + vslice" where
  "sr_get_slice r a n =
     (case to_region_addr r a of
        None \<Rightarrow> Inl (InvalidGuestAddress a)
      | Some ra \<Rightarrow> sr_region_get_slice r (rg_base r) ra n)"

definition sr_slice_read :: "region \<Rightarrow> vslice \<Rightarrow> byte list" where
  "sr_slice_read r vs = peek_bytes (rg_data r) (vs_addr vs) (vs_len vs)"

definition sr_slice_write :: "region \<Rightarrow> vslice \<Rightarrow> byte list \<Rightarrow> region" where
  "sr_slice_write r vs bs = r\<lparr>rg_data := poke (rg_data r) (vs_addr vs) bs\<rparr>"

definition sr_slice_read_at :: "region \<Rightarrow> vslice \<Rightarrow> nat \<Rightarrow> nat \<Rightarrow> vm_error + byte list" where
  "sr_slice_read_at r vs off k =
     (if off + k \<le> vs_len vs then Inr (peek_bytes (rg_data r) (vs_addr vs + of_nat off) k)
      else Inl (VolatileError 0))"

definition sr_slice_write_at :: "region \<Rightarrow> vslice \<Rightarrow> byte list \<Rightarrow> nat \<Rightarrow> region \<times> (vm_error + nat)" where
  "sr_slice_write_at r vs bs off =
     (if off + length bs \<le> vs_len vs
      then (r\<lparr>rg_data := poke (rg_data r) (vs_addr vs + of_nat off) bs\<rparr>, Inr (length bs))
      else (r, Inl (VolatileError 0)))"

definition sr_slice_offset :: "vslice \<Rightarrow> nat \<Rightarrow> vm_error + vslice" where
  "sr_slice_offset vs k =
     (if k \<le> vs_len vs then Inr \<lparr>vs_addr = vs_addr vs + of_nat k, vs_len = vs_len vs - k\<rparr>
      else Inl (VolatileError 0))"

definition sr_subslice :: "vslice \<Rightarrow> nat \<Rightarrow> nat \<Rightarrow> vm_error + vslice" where
  "sr_subslice vs i k =
     (if i + k \<le> vs_len vs then Inr \<lparr>vs_addr = vs_addr vs + of_nat i, vs_len = k\<rparr>
      else Inl (VolatileError 0))"

definition single_region :: "endian \<Rightarrow> region guest_memory" where
  "single_region e = \<lparr>
     gm_endian = e,
     gm_load = sr_load,
     gm_store = sr_store,
     gm_read_slice = sr_read_slice,
     gm_write_slice = sr_write_slice,
     gm_address_in_range = sr_address_in_range,
     gm_check_address = sr_check_address,
     gm_find_region = (\<lambda>r a. map_option rg_base (sr_find_region r a)),
     gm_region_get_slice = sr_region_get_slice,
     gm_get_slice = sr_get_slice,
     gm_slice_read = sr_slice_read,
     gm_slice_write = sr_slice_write,
     gm_slice_read_at = sr_slice_read_at,
     gm_slice_write_at = sr_slice_write_at,
     gm_slice_offset = sr_slice_offset,
     gm_subslice = sr_subslice\<rparr>"

text \<open>The ranges an access of any kind may touch: \<open>try_access\<close> requires the end of the range to be
  present in the region too, so the last byte of the region is out of its reach.\<close>

definition sr_acc :: "region \<Rightarrow> u64 \<Rightarrow> nat \<Rightarrow> bool" where
  "sr_acc r a n \<longleftrightarrow> rg_base r \<le> a \<and> unat (a - rg_base r) + n < rg_size r \<and> unat a + n < 2 ^ 64"

lemma single_region_simps [simp]:
  "gm_endian (single_region e) = e"
  "gm_load (single_region e) = sr_load"
  "gm_store (single_region e) = sr_store"
  "gm_read_slice (single_region e) = sr_read_slice"
  "gm_write_slice (single_region e) = sr_write_slice"
  "gm_address_in_range (single_region e) = sr_address_in_range"
  "gm_check_address (single_region e) = sr_check_address"
  "gm_find_region (single_region e) = (\<lambda>r a. map_option rg_base (sr_find_region r a))"
  "gm_region_get_slice (single_region e) = sr_region_get_slice"
  "gm_get_slice (single_region e) = sr_get_slice"
  "gm_slice_read (single_region e) = sr_slice_read"
  "gm_slice_write (single_region e) = sr_slice_write"
  "gm_slice_read_at (single_region e) = sr_slice_read_at"
  "gm_slice_write_at (single_region e) = sr_slice_write_at"
  "gm_slice_offset (single_region e) = sr_slice_offset"
  "gm_subslice (single_region e) = sr_subslice"
  by (simp_all add: single_region_def)

lemma sr_acc_offset:
  assumes "sr_acc r a n" and "i + k \<le> n"
  shows "sr_acc r (a + of_nat i) k"
proof -
  have ai: "unat (a + of_nat i) = unat a + i"
    using assms by (intro unat_add_of_nat) (simp add: sr_acc_def)
  have le: "rg_base r \<le> a" using assms(1) by (simp add: sr_acc_def)
  then have le': "rg_base r \<le> a + of_nat i" using ai by (simp add: word_le_nat_alt)
  have "unat (a + of_nat i - rg_base r) = unat (a - rg_base r) + i"
    using le le' by (simp add: unat_sub ai word_le_nat_alt)
  with le' ai assms show ?thesis by (simp add: sr_acc_def)
qed

lemma sr_acc_access:
  assumes "sr_acc r a n"
  shows "sr_try_access r n a f = f 0 n (a - rg_base r) r"
    and "to_region_addr r a = Some (a - rg_base r)"
  using assms by (auto simp: sr_acc_def sr_try_access_def to_region_addr_def region_checked_offset_def
      word_le_nat_alt unat_sub)

lemma sr_acc_update [simp]: "sr_acc (r\<lparr>rg_data := d\<rparr>) = sr_acc r"
  by (intro ext) (simp add: sr_acc_def)

section \<open>The laws\<close>

lemmas sr_access_defs = sr_read_slice_def sr_write_slice_def sr_load_def sr_store_def sr_atomic_ok_def
  sr_address_in_range_def sr_find_region_def sr_get_slice_def sr_region_get_slice_def sr_slice_read_def
  sr_slice_write_def sr_slice_offset_def sr_subslice_def sr_slice_read_at_def sr_slice_write_at_def

lemma sr_acc_bounds:
  "sr_acc r a n \<Longrightarrow> rg_base r \<le> a \<and> unat (a - rg_base r) + n < rg_size r \<and> unat a + n < 2 ^ 64"
  by (simp add: sr_acc_def)

interpretation sr: guest_mem "single_region e" rg_data sr_acc for e
  by unfold_locales
    (auto simp: sr_access_defs sr_acc_access to_region_addr_def
      intro: sr_acc_offset dest: sr_acc_bounds split: if_splits)

lemmas single_region_laws = sr.guest_mem_axioms

end
