(* ===== verification/Descriptor_Utils.thy ===== *)
theory Descriptor_Utils
  imports Descriptor_Chain Single_Region
begin

text \<open>
  \<open>DescriptorChainConsumer\<close>, \<open>Reader\<close> and \<open>Writer\<close> (\<open>virtio-queue/src/descriptor_utils.rs\<close>): byte
  streams over the readable, or the writable, buffers of a descriptor chain. A panic (an \<open>unwrap\<close> or
  \<open>expect\<close> that fails) is the value \<open>None\<close>; errors are values of a sum type.
\<close>

section \<open>The consumer\<close>

text \<open>\<open>io::Error\<close>: the errors the module raises, those of \<open>read_exact\<close> and \<open>write_all\<close>, and others.\<close>

datatype io_error =
    IoInvalidData queue_error
  | IoUnexpectedEof
  | IoWriteZero
  | IoOther nat

record consumer =
  dcc_buffers :: "vslice list"
  dcc_bytes_consumed :: nat

definition consumer_available_bytes :: "consumer \<Rightarrow> nat" where
  "consumer_available_bytes c = foldl (\<lambda>count vs. count + vs_len vs) 0 (dcc_buffers c)"

definition consumer_bytes_consumed :: "consumer \<Rightarrow> nat" where
  "consumer_bytes_consumed c = dcc_bytes_consumed c"

text \<open>The loop of \<open>consume\<close> that selects the slices handed to the callback.\<close>

fun select_bufs :: "nat \<Rightarrow> nat \<Rightarrow> vslice list \<Rightarrow> vslice list" where
  "select_bufs count buflen [] = []"
| "select_bufs count buflen (vs # vss) =
     (if buflen \<ge> count then []
      else vs # (let rem = count - buflen in
                 select_bufs count (if rem < vs_len vs then buflen + rem else buflen + vs_len vs) vss))"

text \<open>The loop of \<open>consume\<close> that drops the bytes consumed.\<close>

fun drop_consumed :: "'m guest_memory \<Rightarrow> nat \<Rightarrow> vslice list \<Rightarrow> vslice list option" where
  "drop_consumed G rem [] = Some []"
| "drop_consumed G rem (vs # vss) =
     (if rem < vs_len vs
      then (case gm_slice_offset G vs rem of Inl _ \<Rightarrow> None | Inr vs' \<Rightarrow> Some (vs' # vss))
      else drop_consumed G (rem - vs_len vs) vss)"

definition consume ::
    "'m guest_memory \<Rightarrow> consumer \<Rightarrow> nat \<Rightarrow> (vslice list \<Rightarrow> 's \<Rightarrow> 's \<times> (io_error + nat)) \<Rightarrow> 's \<Rightarrow>
     (consumer \<times> 's \<times> (io_error + nat)) option" where
  "consume G c count f s =
     (let bufs = select_bufs count 0 (dcc_buffers c) in
      if bufs = [] then Some (c, s, Inr 0)
      else case f bufs s of
        (s', Inl e) \<Rightarrow> Some (c, s', Inl e)
      | (s', Inr bytes_consumed) \<Rightarrow>
          (case usize_checked_add (dcc_bytes_consumed c) bytes_consumed of
             None \<Rightarrow> Some (c, s', Inl (IoInvalidData DescriptorChainOverflow))
           | Some tot \<Rightarrow>
               (case drop_consumed G bytes_consumed (dcc_buffers c) of
                  None \<Rightarrow> None
                | Some bs \<Rightarrow>
                    Some (\<lparr>dcc_buffers = bs, dcc_bytes_consumed = tot\<rparr>, s', Inr bytes_consumed))))"

text \<open>The search of \<open>split_at\<close>: the position of the buffer that holds the offset, and what remains.\<close>

fun split_position :: "nat \<Rightarrow> vslice list \<Rightarrow> nat option \<times> nat" where
  "split_position rem [] = (None, rem)"
| "split_position rem (vs # vss) =
     (if rem < vs_len vs then (Some 0, rem)
      else case split_position (rem - vs_len vs) vss of (p, rem') \<Rightarrow> (map_option Suc p, rem'))"

definition consumer_split_at ::
    "'m guest_memory \<Rightarrow> consumer \<Rightarrow> nat \<Rightarrow> (consumer \<times> (queue_error + consumer)) option" where
  "consumer_split_at G c offset =
     (case split_position offset (dcc_buffers c) of
        (Some at, rem) \<Rightarrow>
          let this = take at (dcc_buffers c); other = drop at (dcc_buffers c) in
          if rem > 0 then
            (case other of
               [] \<Rightarrow> None
             | front # rest \<Rightarrow>
                 (case gm_subslice G front 0 rem of
                    Inl e \<Rightarrow> Some (c\<lparr>dcc_buffers := this\<rparr>, Inl (VolatileMemoryError e))
                  | Inr sub \<Rightarrow>
                      (case gm_slice_offset G front rem of
                         Inl e \<Rightarrow> Some (c\<lparr>dcc_buffers := this @ [sub]\<rparr>, Inl (VolatileMemoryError e))
                       | Inr off \<Rightarrow>
                           Some (c\<lparr>dcc_buffers := this @ [sub]\<rparr>,
                                 Inr \<lparr>dcc_buffers = off # rest, dcc_bytes_consumed = 0\<rparr>))))
          else Some (c\<lparr>dcc_buffers := this\<rparr>, Inr \<lparr>dcc_buffers = other, dcc_bytes_consumed = 0\<rparr>)
      | (None, rem) \<Rightarrow>
          if rem = 0 then Some (c, Inr \<lparr>dcc_buffers = [], dcc_bytes_consumed = 0\<rparr>)
          else Some (c, Inl (SplitOutOfBounds offset)))"

section \<open>Reader and writer\<close>

text \<open>The closure both constructors map over the descriptors, with the running total it captures.\<close>

fun collect_slices ::
    "'m guest_memory \<Rightarrow> 'm \<Rightarrow> nat \<Rightarrow> split_desc list \<Rightarrow> (queue_error + vslice list) option" where
  "collect_slices G m total_len [] = Some (Inr [])"
| "collect_slices G m total_len (d # ds) =
     (case usize_checked_add total_len (unat (sd_len d)) of
        None \<Rightarrow> Some (Inl DescriptorChainOverflow)
      | Some tot \<Rightarrow>
          (case gm_find_region G m (sd_addr d) of
             None \<Rightarrow> Some (Inl FindMemoryRegion)
           | Some start \<Rightarrow>
               (case checked_sub (sd_addr d) start of
                  None \<Rightarrow> None
                | Some offset \<Rightarrow>
                    (case gm_region_get_slice G m start offset (unat (sd_len d)) of
                       Inl e \<Rightarrow> Some (Inl (GuestMemoryError e))
                     | Inr vs \<Rightarrow>
                         (case collect_slices G m tot ds of
                            None \<Rightarrow> None
                          | Some (Inl e) \<Rightarrow> Some (Inl e)
                          | Some (Inr vss) \<Rightarrow> Some (Inr (vs # vss)))))))"

definition reader_new ::
    "'m guest_memory \<Rightarrow> 'm \<Rightarrow> desc_chain \<Rightarrow> (queue_error + consumer) option" where
  "reader_new G m c =
     (case collect_slices G m 0 (rw_collect G m (chain_readable c)) of
        None \<Rightarrow> None
      | Some (Inl e) \<Rightarrow> Some (Inl e)
      | Some (Inr bs) \<Rightarrow> Some (Inr \<lparr>dcc_buffers = bs, dcc_bytes_consumed = 0\<rparr>))"

definition writer_new ::
    "'m guest_memory \<Rightarrow> 'm \<Rightarrow> desc_chain \<Rightarrow> (queue_error + consumer) option" where
  "writer_new G m c =
     (case collect_slices G m 0 (rw_collect G m (chain_writable c)) of
        None \<Rightarrow> None
      | Some (Inl e) \<Rightarrow> Some (Inl e)
      | Some (Inr bs) \<Rightarrow> Some (Inr \<lparr>dcc_buffers = bs, dcc_bytes_consumed = 0\<rparr>))"

text \<open>\<open>DescriptorChain::writer\<close> and \<open>DescriptorChain::reader\<close> report every error of the constructor as
  \<open>InvalidChain\<close>.\<close>

definition chain_writer ::
    "'m guest_memory \<Rightarrow> 'm \<Rightarrow> desc_chain \<Rightarrow> (queue_error + consumer) option" where
  "chain_writer G m c = map_option (map_err (\<lambda>_. InvalidChain)) (writer_new G m c)"

definition chain_reader ::
    "'m guest_memory \<Rightarrow> 'm \<Rightarrow> desc_chain \<Rightarrow> (queue_error + consumer) option" where
  "chain_reader G m c = map_option (map_err (\<lambda>_. InvalidChain)) (reader_new G m c)"

text \<open>The copy loops of \<open>read\<close> and \<open>write\<close>. The buffer read into is the list of bytes copied so far.\<close>

fun read_bufs :: "'m guest_memory \<Rightarrow> 'm \<Rightarrow> nat \<Rightarrow> vslice list \<Rightarrow> byte list \<times> nat" where
  "read_bufs G m rem [] = ([], 0)"
| "read_bufs G m rem (vs # vss) =
     (let copy_len = min rem (vs_len vs) in
      case read_bufs G m (rem - copy_len) vss of
        (bs, tot) \<Rightarrow> (take copy_len (gm_slice_read G m vs) @ bs, copy_len + tot))"

definition reader_read ::
    "'m guest_memory \<Rightarrow> 'm \<Rightarrow> consumer \<Rightarrow> nat \<Rightarrow> (consumer \<times> byte list \<times> (io_error + nat)) option" where
  "reader_read G m rd len =
     consume G rd len
       (\<lambda>bufs buf. case read_bufs G m len bufs of (bs, tot) \<Rightarrow> (buf @ bs, Inr tot)) []"

fun write_bufs :: "'m guest_memory \<Rightarrow> 'm \<Rightarrow> byte list \<Rightarrow> vslice list \<Rightarrow> 'm \<times> nat" where
  "write_bufs G m rem [] = (m, 0)"
| "write_bufs G m rem (vs # vss) =
     (let copy_len = min (length rem) (vs_len vs) in
      case write_bufs G (gm_slice_write G m vs (take copy_len rem)) (drop copy_len rem) vss of
        (m', tot) \<Rightarrow> (m', copy_len + tot))"

definition writer_write ::
    "'m guest_memory \<Rightarrow> 'm \<Rightarrow> consumer \<Rightarrow> byte list \<Rightarrow> (consumer \<times> 'm \<times> (io_error + nat)) option" where
  "writer_write G m wr buf =
     consume G wr (length buf)
       (\<lambda>bufs m. case write_bufs G m buf bufs of (m', tot) \<Rightarrow> (m', Inr tot)) m"

definition writer_flush :: "consumer \<Rightarrow> io_error + unit" where
  "writer_flush wr = Inr ()"

text \<open>\<open>read_obj\<close> reads the bytes of the object with \<open>Read::read_exact\<close>, \<open>write_obj\<close> writes them with
  \<open>Write::write_all\<close>.\<close>

function read_exact ::
    "'m guest_memory \<Rightarrow> 'm \<Rightarrow> consumer \<Rightarrow> nat \<Rightarrow> (consumer \<times> (io_error + byte list)) option" where
  "read_exact G m rd len =
     (if len = 0 then Some (rd, Inr [])
      else case reader_read G m rd len of
        None \<Rightarrow> None
      | Some (rd', _, Inl e) \<Rightarrow> Some (rd', Inl e)
      | Some (rd', bs, Inr n) \<Rightarrow>
          if n = 0 then Some (rd', Inl IoUnexpectedEof)
          else (case read_exact G m rd' (len - n) of
                  Some (rd'', Inr bs') \<Rightarrow> Some (rd'', Inr (bs @ bs'))
                | r \<Rightarrow> r))"
  by pat_completeness auto
termination by (relation "measure (\<lambda>(G, m, rd, len). len)") auto

declare read_exact.simps [simp del]

definition read_obj ::
    "'m guest_memory \<Rightarrow> 'm \<Rightarrow> consumer \<Rightarrow> nat \<Rightarrow> (consumer \<times> (io_error + byte list)) option" where
  "read_obj G m rd sz = read_exact G m rd sz"

function write_all ::
    "'m guest_memory \<Rightarrow> 'm \<Rightarrow> consumer \<Rightarrow> byte list \<Rightarrow> (consumer \<times> 'm \<times> (io_error + unit)) option" where
  "write_all G m wr buf =
     (if buf = [] then Some (wr, m, Inr ())
      else case writer_write G m wr buf of
        None \<Rightarrow> None
      | Some (wr', m', Inl e) \<Rightarrow> Some (wr', m', Inl e)
      | Some (wr', m', Inr n) \<Rightarrow>
          if n = 0 then Some (wr', m', Inl IoWriteZero)
          else write_all G m' wr' (drop n buf))"
  by pat_completeness auto
termination by (relation "measure (\<lambda>(G, m, wr, buf). length buf)") auto

declare write_all.simps [simp del]

definition write_obj ::
    "'m guest_memory \<Rightarrow> 'm \<Rightarrow> consumer \<Rightarrow> byte list \<Rightarrow> (consumer \<times> 'm \<times> (io_error + unit)) option" where
  "write_obj G m wr obj = write_all G m wr obj"

definition reader_split_at ::
    "'m guest_memory \<Rightarrow> consumer \<Rightarrow> nat \<Rightarrow> (consumer \<times> (queue_error + consumer)) option" where
  "reader_split_at G rd offset = consumer_split_at G rd offset"

definition writer_split_at ::
    "'m guest_memory \<Rightarrow> consumer \<Rightarrow> nat \<Rightarrow> (consumer \<times> (queue_error + consumer)) option" where
  "writer_split_at G wr offset = consumer_split_at G wr offset"

section \<open>Streams of bytes\<close>

definition lens :: "vslice list \<Rightarrow> nat" where
  "lens vss = sum_list (map vs_len vss)"

definition stream_of :: "(u64 \<Rightarrow> byte) \<Rightarrow> vslice list \<Rightarrow> byte list" where
  "stream_of f vss = concat (map (\<lambda>vs. peek_bytes f (vs_addr vs) (vs_len vs)) vss)"

lemma lens_simps [simp]: "lens [] = 0" "lens (vs # vss) = vs_len vs + lens vss"
  by (simp_all add: lens_def)

lemma lens_append [simp]: "lens (vss @ wss) = lens vss + lens wss"
  by (simp add: lens_def)

lemma stream_of_simps [simp]:
  "stream_of f [] = []"
  "stream_of f (vs # vss) = peek_bytes f (vs_addr vs) (vs_len vs) @ stream_of f vss"
  by (simp_all add: stream_of_def)

lemma stream_of_append [simp]: "stream_of f (vss @ wss) = stream_of f vss @ stream_of f wss"
  by (simp add: stream_of_def)

lemma length_stream_of [simp]: "length (stream_of f vss) = lens vss"
  by (induction vss) auto

lemma consumer_available_bytes_lens: "consumer_available_bytes c = lens (dcc_buffers c)"
proof -
  have "foldl (\<lambda>count vs. count + vs_len vs) n vss = n + lens vss" for n vss
    by (induction vss arbitrary: n) auto
  then show ?thesis by (simp add: consumer_available_bytes_def)
qed

lemma select_bufs_Nil_iff: "select_bufs count 0 vss = [] \<longleftrightarrow> count = 0 \<or> vss = []"
  by (cases vss) (auto simp: Let_def)

lemma select_bufs_prefix: "\<exists>k. select_bufs count b vss = take k vss"
proof (induction vss arbitrary: b)
  case (Cons vs vss)
  then show ?case
  proof (cases "count \<le> b")
    case True
    then show ?thesis by (intro exI [of _ 0]) simp
  next
    case False
    obtain k where "select_bufs count (if count - b < vs_len vs then b + (count - b) else b + vs_len vs) vss
        = take k vss" using Cons.IH by blast
    with False show ?thesis by (intro exI [of _ "Suc k"]) (simp add: Let_def)
  qed
qed simp

lemma split_position_spec:
  "case split_position n vss of
      (Some at, rem) \<Rightarrow> at < length vss \<and> rem < vs_len (vss ! at) \<and> n = lens (take at vss) + rem
    | (None, rem) \<Rightarrow> n = lens vss + rem"
proof (induction vss arbitrary: n)
  case (Cons vs vss)
  from Cons [of "n - vs_len vs"] show ?case by (auto split: prod.splits option.splits)
qed simp

lemma lens_select: "min (n - b) (lens (select_bufs n b vss)) = min (n - b) (lens vss)"
proof (induction vss arbitrary: b)
  case (Cons vs vss)
  consider "n \<le> b" | "b < n" "n - b < vs_len vs" | "b < n" "vs_len vs \<le> n - b" by linarith
  then show ?case
  proof cases
    case 3
    then have "min (n - b) (vs_len vs + lens (select_bufs n (b + vs_len vs) vss)) =
        min (n - b) (vs_len vs + lens vss)"
      using Cons.IH [of "b + vs_len vs"] by linarith
    with 3 show ?thesis by (simp add: Let_def)
  qed (simp_all add: Let_def)
qed simp

lemma peek_bytes_poke_prefix:
  assumes "length bs \<le> n" and "unat a + n < 2 ^ 64"
  shows "peek_bytes (poke f a bs) a n = bs @ drop (length bs) (peek_bytes f a n)"
proof (rule nth_equalityI)
  fix i assume "i < length (peek_bytes (poke f a bs) a n)"
  then have "i < n" by simp
  then have "unat (of_nat i :: u64) = i" using assms(2) by (intro unat_of_nat_less) simp
  with \<open>i < n\<close> show "peek_bytes (poke f a bs) a n ! i = (bs @ drop (length bs) (peek_bytes f a n)) ! i"
    using assms(1) by (auto simp: poke_def nth_append)
qed (use assms in simp)

text \<open>The byte view after the copy loop of \<open>write\<close>.\<close>

fun pokes :: "(u64 \<Rightarrow> byte) \<Rightarrow> byte list \<Rightarrow> vslice list \<Rightarrow> u64 \<Rightarrow> byte" where
  "pokes f rem [] = f"
| "pokes f rem (vs # vss) = pokes (poke f (vs_addr vs) (take (vs_len vs) rem)) (drop (vs_len vs) rem) vss"

lemma poke_Nil [simp]: "poke f a [] = f"
  by (auto simp: poke_def)

lemma pokes_Nil [simp]: "pokes f [] vss = f"
  by (induction vss) auto

lemma pokes_select:
  "pokes f (drop b data) (select_bufs (length data) b vss) = pokes f (drop b data) vss"
  by (induction vss arbitrary: f b) (auto simp: Let_def add.commute)

text \<open>Slices that do not overlap each other.\<close>

definition separate :: "vslice list \<Rightarrow> bool" where
  "separate vss \<longleftrightarrow>
     sorted_wrt (\<lambda>v w. disjoint_ranges (vs_addr w) (vs_len w) (vs_addr v) (vs_len v)) vss"

lemma disjoint_ranges_take:
  "disjoint_ranges a n b k \<Longrightarrow> j \<le> k \<Longrightarrow> disjoint_ranges a n b j"
  by (auto simp: disjoint_ranges_def)

lemma stream_of_poke_other:
  assumes "\<forall>v\<in>set vss. disjoint_ranges (vs_addr v) (vs_len v) a (length bs) \<and> unat (vs_addr v) + vs_len v < 2 ^ 64"
    and "unat a + length bs < 2 ^ 64"
  shows "stream_of (poke f a bs) vss = stream_of f vss"
  using assms by (induction vss) (auto simp: peek_bytes_poke_disjoint)

lemma peek_pokes_other:
  assumes "\<forall>v\<in>set vss. disjoint_ranges a n (vs_addr v) (vs_len v) \<and> unat (vs_addr v) + vs_len v < 2 ^ 64"
    and "unat a + n < 2 ^ 64"
  shows "peek_bytes (pokes f data vss) a n = peek_bytes f a n"
  using assms
proof (induction vss arbitrary: f data)
  case (Cons v vss)
  have "disjoint_ranges a n (vs_addr v) (length (take (vs_len v) data))"
    using Cons.prems by (auto intro: disjoint_ranges_take)
  then have "peek_bytes (poke f (vs_addr v) (take (vs_len v) data)) a n = peek_bytes f a n"
    using Cons.prems by (intro peek_bytes_poke_disjoint) auto
  with Cons show ?case by simp
qed simp

lemma stream_of_pokes:
  assumes "separate vss" and "\<forall>v\<in>set vss. unat (vs_addr v) + vs_len v < 2 ^ 64"
  shows "stream_of (pokes f data vss) vss = take (lens vss) data @ drop (length data) (stream_of f vss)"
  using assms
proof (induction vss arbitrary: f data)
  case (Cons v vss)
  let ?bs = "take (vs_len v) data" and ?data = "drop (vs_len v) data"
  let ?f = "poke f (vs_addr v) ?bs"
  have sep: "\<forall>w\<in>set vss. disjoint_ranges (vs_addr w) (vs_len w) (vs_addr v) (vs_len v)"
    using Cons.prems(1) by (simp add: separate_def)
  have "peek_bytes (pokes ?f ?data vss) (vs_addr v) (vs_len v) = peek_bytes ?f (vs_addr v) (vs_len v)"
    using sep Cons.prems(2) by (intro peek_pokes_other) (auto simp: disjoint_ranges_def)
  also have "\<dots> = ?bs @ drop (length ?bs) (peek_bytes f (vs_addr v) (vs_len v))"
    using Cons.prems(2) by (intro peek_bytes_poke_prefix) auto
  finally have here: "peek_bytes (pokes ?f ?data vss) (vs_addr v) (vs_len v) =
      ?bs @ drop (length ?bs) (peek_bytes f (vs_addr v) (vs_len v))" .
  have "stream_of ?f vss = stream_of f vss"
    using sep Cons.prems(2) by (intro stream_of_poke_other) (auto intro: disjoint_ranges_take)
  then have "stream_of (pokes ?f ?data vss) vss =
      take (lens vss) ?data @ drop (length ?data) (stream_of f vss)"
    using Cons.IH [of ?f ?data] Cons.prems by (simp add: separate_def)
  with here show ?case by (cases "length data \<le> vs_len v") (auto simp: take_add)
qed simp

section \<open>Under the laws of guest memory\<close>

text \<open>A consumer whose slices an access may touch and whose counters cannot overflow.\<close>

definition consumer_ok :: "('m \<Rightarrow> u64 \<Rightarrow> nat \<Rightarrow> bool) \<Rightarrow> 'm \<Rightarrow> consumer \<Rightarrow> bool" where
  "consumer_ok acc m c \<longleftrightarrow>
     (\<forall>vs\<in>set (dcc_buffers c). acc m (vs_addr vs) (vs_len vs)) \<and>
     dcc_bytes_consumed c + lens (dcc_buffers c) < 2 ^ 64"

context guest_mem
begin

lemma read_bufs_stream:
  assumes "\<forall>vs\<in>set vss. acc m (vs_addr vs) (vs_len vs)"
  shows "read_bufs G m rem vss = (take rem (stream_of (peek m) vss), min rem (lens vss))"
  using assms
proof (induction vss arbitrary: rem)
  case (Cons vs vss)
  have "gm_slice_read G m vs = peek_bytes (peek m) (vs_addr vs) (vs_len vs)"
    using slice_read_law [of m "vs_addr vs" "vs_len vs"] Cons.prems by (cases vs) simp
  with Cons show ?case by (auto simp: Let_def min_def)
qed simp

lemma read_bufs_select:
  "read_bufs G m (count - b) (select_bufs count b vss) = read_bufs G m (count - b) vss"
proof (induction vss arbitrary: b)
  case (Cons vs vss)
  have z: "read_bufs G m 0 wss = ([], 0)" for wss by (induction wss) auto
  show ?case
    using Cons.IH [of "b + vs_len vs"] Cons.IH [of count]
    by (auto simp: Let_def min_def z not_less split: prod.splits)
qed simp

lemma drop_consumed_stream:
  assumes "\<forall>vs\<in>set vss. acc m (vs_addr vs) (vs_len vs)"
  shows "\<exists>wss. drop_consumed G n vss = Some wss \<and> stream_of (peek m) wss = drop n (stream_of (peek m) vss) \<and>
    lens wss = lens vss - n \<and> (\<forall>vs\<in>set wss. acc m (vs_addr vs) (vs_len vs))"
  using assms
proof (induction vss arbitrary: n)
  case (Cons vs vss)
  show ?case
  proof (cases "n < vs_len vs")
    case True
    have "peek_bytes (peek m) (vs_addr vs) (vs_len vs) =
        peek_bytes (peek m) (vs_addr vs) n @ peek_bytes (peek m) (vs_addr vs + of_nat n) (vs_len vs - n)"
      using True peek_bytes_append [of "peek m" "vs_addr vs" n "vs_len vs - n"] by simp
    moreover have "acc m (vs_addr vs + of_nat n) (vs_len vs - n)"
      using True Cons.prems by (intro acc_sub [of m "vs_addr vs" "vs_len vs"]) auto
    ultimately show ?thesis
      using True Cons.prems slice_offset_law [of n vs] by auto
  next
    case False
    with Cons.IH [of "n - vs_len vs"] Cons.prems show ?thesis by auto
  qed
qed simp

lemma reader_read_spec:
  assumes ok: "consumer_ok acc m rd"
  defines "S \<equiv> stream_of (peek m) (dcc_buffers rd)"
  shows "\<exists>rd'. reader_read G m rd n = Some (rd', take n S, Inr (min n (length S))) \<and>
    consumer_ok acc m rd' \<and> stream_of (peek m) (dcc_buffers rd') = drop n S \<and>
    dcc_bytes_consumed rd' = dcc_bytes_consumed rd + min n (length S)"
proof -
  let ?k = "min n (lens (dcc_buffers rd))"
  have a: "\<forall>vs\<in>set (dcc_buffers rd). acc m (vs_addr vs) (vs_len vs)"
    and b: "dcc_bytes_consumed rd + lens (dcc_buffers rd) < 2 ^ 64"
    using ok by (auto simp: consumer_ok_def)
  have r: "read_bufs G m n (select_bufs n 0 (dcc_buffers rd)) = (take n S, ?k)"
    using read_bufs_select [where count = n and b = 0] read_bufs_stream [OF a] by (simp add: S_def)
  obtain wss where w: "drop_consumed G ?k (dcc_buffers rd) = Some wss"
      "stream_of (peek m) wss = drop ?k S" "lens wss = lens (dcc_buffers rd) - ?k"
      "\<forall>vs\<in>set wss. acc m (vs_addr vs) (vs_len vs)"
    using drop_consumed_stream [OF a, of ?k] unfolding S_def by blast
  show ?thesis
  proof (cases "select_bufs n 0 (dcc_buffers rd) = []")
    case True
    then have "n = 0 \<or> dcc_buffers rd = []" by (simp add: select_bufs_Nil_iff)
    with True ok show ?thesis
      by (auto simp: reader_read_def consume_def S_def)
  next
    case False
    have "usize_checked_add (dcc_bytes_consumed rd) ?k = Some (dcc_bytes_consumed rd + ?k)"
      using b by (simp add: usize_checked_add_def)
    with False r w b show ?thesis
      by (auto simp: reader_read_def consume_def consumer_ok_def S_def min_def Let_def)
  qed
qed

lemma read_exact_spec:
  assumes ok: "consumer_ok acc m rd"
  defines "S \<equiv> stream_of (peek m) (dcc_buffers rd)"
  shows "\<exists>rd'. read_exact G m rd n =
      Some (rd', if n \<le> length S then Inr (take n S) else Inl IoUnexpectedEof) \<and>
    consumer_ok acc m rd' \<and> stream_of (peek m) (dcc_buffers rd') = drop n S \<and>
    dcc_bytes_consumed rd' = dcc_bytes_consumed rd + min n (length S)"
proof (cases "n = 0")
  case True
  with ok show ?thesis by (simp add: read_exact.simps S_def)
next
  case False
  obtain rd' where rd': "reader_read G m rd n = Some (rd', take n S, Inr (min n (length S)))"
      "consumer_ok acc m rd'" "stream_of (peek m) (dcc_buffers rd') = drop n S"
      "dcc_bytes_consumed rd' = dcc_bytes_consumed rd + min n (length S)"
    using reader_read_spec [OF ok, of n] unfolding S_def by blast
  have eq: "read_exact G m rd n =
      (if min n (length S) = 0 then Some (rd', Inl IoUnexpectedEof)
       else case read_exact G m rd' (n - min n (length S)) of
              Some (rd'', Inr bs') \<Rightarrow> Some (rd'', Inr (take n S @ bs'))
            | r \<Rightarrow> r)"
    using False rd'(1) by (simp add: read_exact.simps [of G m rd n])
  show ?thesis
  proof (cases "n \<le> length S")
    case True
    then show ?thesis using eq False rd' by (simp add: read_exact.simps [of G m rd' 0])
  next
    case short: False
    obtain rd'' where rd'': "reader_read G m rd' (n - length S) = Some (rd'', [], Inr 0)"
        "consumer_ok acc m rd''" "stream_of (peek m) (dcc_buffers rd'') = []"
        "dcc_bytes_consumed rd'' = dcc_bytes_consumed rd'"
      using reader_read_spec [OF rd'(2), of "n - length S"] rd'(3) short by auto
    have "read_exact G m rd' (n - length S) = Some (rd'', Inl IoUnexpectedEof)"
      using rd''(1) short by (simp add: read_exact.simps [of G m rd'])
    with eq short rd' rd'' show ?thesis by (auto simp: min_def split: if_splits)
  qed
qed

text \<open>Writing fills the stream from its front and touches nothing else.\<close>

lemma write_bufs_pokes:
  assumes "\<forall>vs\<in>set vss. acc m (vs_addr vs) (vs_len vs)"
  shows "\<exists>m'. write_bufs G m data vss = (m', min (length data) (lens vss)) \<and>
    peek m' = pokes (peek m) data vss \<and> acc m' = acc m"
  using assms
proof (induction vss arbitrary: m data)
  case (Cons vs vss)
  let ?n = "min (length data) (vs_len vs)"
  let ?m = "gm_slice_write G m vs (take ?n data)"
  have t: "take ?n data = take (vs_len vs) data" "drop ?n data = drop (vs_len vs) data"
    by (auto simp: min_def)
  have m: "peek ?m = poke (peek m) (vs_addr vs) (take (vs_len vs) data)" "acc ?m = acc m"
    using slice_write_law [of m "vs_addr vs" "vs_len vs" "take ?n data"] Cons.prems
    unfolding t by (cases vs; simp)+
  obtain m' where "write_bufs G ?m (drop (vs_len vs) data) vss =
      (m', min (length data - vs_len vs) (lens vss))"
      "peek m' = pokes (peek ?m) (drop (vs_len vs) data) vss" "acc m' = acc ?m"
    using Cons.IH [of ?m "drop (vs_len vs) data"] Cons.prems m by auto
  with m show ?case by (auto simp: Let_def t)
qed simp

lemma writer_write_spec:
  assumes ok: "consumer_ok acc m wr" and sep: "separate (dcc_buffers wr)"
  defines "vss \<equiv> dcc_buffers wr"
  shows "\<exists>wr' m'. writer_write G m wr data = Some (wr', m', Inr (min (length data) (lens vss))) \<and>
    peek m' = pokes (peek m) data vss \<and> acc m' = acc m \<and> consumer_ok acc m' wr' \<and>
    dcc_bytes_consumed wr' = dcc_bytes_consumed wr + min (length data) (lens vss) \<and>
    lens (dcc_buffers wr') = lens vss - length data"
proof -
  let ?sel = "select_bufs (length data) 0 vss" and ?k = "min (length data) (lens vss)"
  have a: "\<forall>vs\<in>set vss. acc m (vs_addr vs) (vs_len vs)" and b: "dcc_bytes_consumed wr + lens vss < 2 ^ 64"
    using ok by (auto simp: consumer_ok_def vss_def)
  have as: "\<forall>vs\<in>set ?sel. acc m (vs_addr vs) (vs_len vs)"
    using select_bufs_prefix [of "length data" 0 vss] a by (metis in_set_takeD)
  obtain m' where m': "write_bufs G m data ?sel = (m', ?k)" "peek m' = pokes (peek m) data vss" "acc m' = acc m"
    using write_bufs_pokes [OF as, of data] lens_select [of "length data" 0 vss]
      pokes_select [of "peek m" 0 data vss] by auto
  obtain wss where w: "drop_consumed G ?k vss = Some wss" "lens wss = lens vss - ?k"
      "\<forall>vs\<in>set wss. acc m (vs_addr vs) (vs_len vs)"
    using drop_consumed_stream [OF a, of ?k] by blast
  show ?thesis
  proof (cases "?sel = []")
    case True
    then have "data = [] \<or> vss = []" by (simp add: select_bufs_Nil_iff)
    with True ok show ?thesis
      by (auto simp: writer_write_def consume_def vss_def)
  next
    case False
    have "usize_checked_add (dcc_bytes_consumed wr) ?k = Some (dcc_bytes_consumed wr + ?k)"
      using b by (simp add: usize_checked_add_def)
    with False m' w b show ?thesis
      by (auto simp: writer_write_def consume_def consumer_ok_def vss_def min_def Let_def)
  qed
qed

text \<open>Splitting cuts the stream at the offset.\<close>

lemma stream_pieces:
  assumes "at < length vss" and "rem \<le> vs_len (vss ! at)"
  shows "drop at vss = vss ! at # drop (Suc at) vss"
    and "lens vss = lens (take at vss) + vs_len (vss ! at) + lens (drop (Suc at) vss)"
    and "stream_of f vss = stream_of f (take at vss) @ peek_bytes f (vs_addr (vss ! at)) rem @
      peek_bytes f (vs_addr (vss ! at) + of_nat rem) (vs_len (vss ! at) - rem) @ stream_of f (drop (Suc at) vss)"
proof -
  have vss: "vss = take at vss @ vss ! at # drop (Suc at) vss" using assms(1) by (simp add: id_take_nth_drop [symmetric])
  show "drop at vss = vss ! at # drop (Suc at) vss" using assms(1) by (simp add: Cons_nth_drop_Suc)
  show "lens vss = lens (take at vss) + vs_len (vss ! at) + lens (drop (Suc at) vss)" by (subst vss) simp
  have "stream_of f vss = stream_of f (take at vss) @ peek_bytes f (vs_addr (vss ! at)) (vs_len (vss ! at)) @
      stream_of f (drop (Suc at) vss)"
    by (subst vss) simp
  then show "stream_of f vss = stream_of f (take at vss) @ peek_bytes f (vs_addr (vss ! at)) rem @
      peek_bytes f (vs_addr (vss ! at) + of_nat rem) (vs_len (vss ! at) - rem) @ stream_of f (drop (Suc at) vss)"
    using assms(2) peek_bytes_append [of f "vs_addr (vss ! at)" rem "vs_len (vss ! at) - rem"] by simp
qed

lemma consumer_split_at_spec:
  assumes ok: "consumer_ok acc m c"
  defines "S \<equiv> stream_of (peek m) (dcc_buffers c)"
  shows "if n \<le> length S
    then \<exists>c1 c2. consumer_split_at G c n = Some (c1, Inr c2) \<and> consumer_ok acc m c1 \<and> consumer_ok acc m c2 \<and>
           stream_of (peek m) (dcc_buffers c1) = take n S \<and>
           stream_of (peek m) (dcc_buffers c2) = drop n S \<and>
           dcc_bytes_consumed c1 = dcc_bytes_consumed c \<and> dcc_bytes_consumed c2 = 0
    else consumer_split_at G c n = Some (c, Inl (SplitOutOfBounds n))"
proof -
  let ?vss = "dcc_buffers c"
  have a: "\<forall>vs\<in>set ?vss. acc m (vs_addr vs) (vs_len vs)" and b: "dcc_bytes_consumed c + lens ?vss < 2 ^ 64"
    using ok by (auto simp: consumer_ok_def)
  obtain p rem where p: "split_position n ?vss = (p, rem)" by (cases "split_position n ?vss")
  show ?thesis
  proof (cases p)
    case None
    with p split_position_spec [of n ?vss] have "n = lens ?vss + rem" by simp
    with None p ok show ?thesis by (auto simp: consumer_split_at_def S_def consumer_ok_def)
  next
    case (Some at)
    with p split_position_spec [of n ?vss]
    have at: "at < length ?vss" "rem < vs_len (?vss ! at)" "n = lens (take at ?vss) + rem" by auto
    let ?v = "?vss ! at"
    note pc = stream_pieces [OF at(1) less_imp_le [OF at(2)]]
    have S: "S = stream_of (peek m) (take at ?vss) @ peek_bytes (peek m) (vs_addr ?v) rem @
        peek_bytes (peek m) (vs_addr ?v + of_nat rem) (vs_len ?v - rem) @ stream_of (peek m) (drop (Suc at) ?vss)"
      unfolding S_def by (rule pc(3))
    have n: "n \<le> length S" "n = length (stream_of (peek m) (take at ?vss)) + rem" using at S by auto
    have v: "acc m (vs_addr ?v) (vs_len ?v)" using a at(1) by simp
    have acc': "acc m (vs_addr ?v) rem" "acc m (vs_addr ?v + of_nat rem) (vs_len ?v - rem)"
      using acc_sub [OF v, of 0 rem] acc_sub [OF v, of rem "vs_len ?v - rem"] at(2) by simp_all
    have ar: "\<forall>vs\<in>set (drop (Suc at) ?vss). acc m (vs_addr vs) (vs_len vs)"
        "\<forall>vs\<in>set (take at ?vss). acc m (vs_addr vs) (vs_len vs)"
      using a by (auto dest: in_set_dropD in_set_takeD)
    have "peek_bytes (peek m) (vs_addr ?v) 0 = []" by (simp add: peek_bytes_def)
    then show ?thesis
      using p Some n S b pc(1,2) ar v acc' at(2) subslice_law [of 0 rem ?v] slice_offset_law [of rem ?v]
      by (cases "rem = 0") (simp_all add: consumer_split_at_def consumer_ok_def)
  qed
qed

text \<open>The constructors.\<close>

lemma collect_slices_no_panic: "collect_slices G m t ds \<noteq> None"
proof (induction ds arbitrary: t)
  case (Cons d ds)
  have sub: "gm_find_region G m (sd_addr d) = Some b \<Longrightarrow> checked_sub (sd_addr d) b = Some (sd_addr d - b)" for b
    using region_start_law [of m "sd_addr d" b] by (simp add: checked_sub_def)
  show ?case using Cons.IH by (simp add: sub del: not_None_eq split: option.split sum.split)
qed simp

lemma collect_slices_ok:
  assumes "\<forall>d\<in>set ds. acc m (sd_addr d) (unat (sd_len d))"
    and "t + sum_list (map (\<lambda>d. unat (sd_len d)) ds) < 2 ^ 64"
  shows "collect_slices G m t ds =
    Some (Inr (map (\<lambda>d. \<lparr>vs_addr = sd_addr d, vs_len = unat (sd_len d)\<rparr>) ds))"
  using assms
proof (induction ds arbitrary: t)
  case (Cons d ds)
  have "acc m (sd_addr d) (unat (sd_len d))" using Cons.prems(1) by simp
  from region_slice_law [OF this] obtain b where b: "gm_find_region G m (sd_addr d) = Some b"
      "gm_region_get_slice G m b (sd_addr d - b) (unat (sd_len d)) =
         Inr \<lparr>vs_addr = sd_addr d, vs_len = unat (sd_len d)\<rparr>" by blast
  then have "checked_sub (sd_addr d) b = Some (sd_addr d - b)"
    using region_start_law by (simp add: checked_sub_def)
  with b Cons show ?case by (simp add: usize_checked_add_def)
qed simp

end

lemma collect_slices_no_overflow:
  "t + sum_list (map (\<lambda>d. unat (sd_len d)) ds) < 2 ^ 64 \<Longrightarrow>
     collect_slices G m t ds \<noteq> Some (Inl DescriptorChainOverflow)"
  by (induction ds arbitrary: t)
    (auto simp: usize_checked_add_def split: option.splits sum.splits if_splits)

lemma rw_collect_bytes:
  "sum_list (map (\<lambda>d. unat (sd_len d)) (rw_collect G m it)) < 2 ^ 32"
proof -
  have "sum_list (map f (filter P xs)) \<le> sum_list (map f xs)" for f :: "split_desc \<Rightarrow> nat" and P xs
    by (induction xs) auto
  from this [of "\<lambda>d. unat (sd_len d)"] chain_collect_bytes [of "rw_chain it" G m] show ?thesis
    unfolding rw_collect_filter by (meson add_leD2 le_less_trans less_imp_le not_le)
qed

end
