(* ===== verification/Kani_Notification.thy ===== *)
theory Kani_Notification
  imports Queue_Core Single_Region
begin

text \<open>
  The model-checking harness of \<open>virtio-queue/src/queue/verification.rs\<close>: the contexts it draws and the
  assertion it makes about notification suppression (section 2.7.7.2 of the virtio specification),
  and the memory safety of a valid queue on single-region memory, which the harness relies on. A
  context that an \<open>assume\<close> discards, and an \<open>unwrap\<close> that panics, are the value \<open>None\<close>.
\<close>

section \<open>The contexts of the harness\<close>

definition GUEST_MEMORY_BASE :: u64 where "GUEST_MEMORY_BASE = 0"
definition KANI_MAX_QUEUE_SIZE :: u16 where "KANI_MAX_QUEUE_SIZE = 4"
definition QUEUE_BASE_ADDRESS :: u64 where "QUEUE_BASE_ADDRESS = GUEST_MEMORY_BASE"
definition MAX_START_AVAIL_RING_BASE_ADDRESS :: u64 where
  "MAX_START_AVAIL_RING_BASE_ADDRESS = QUEUE_BASE_ADDRESS + ucast KANI_MAX_QUEUE_SIZE * 16"
definition MAX_START_USED_RING_BASE_ADDRESS :: u64 where
  "MAX_START_USED_RING_BASE_ADDRESS =
     MAX_START_AVAIL_RING_BASE_ADDRESS + 6 + 2 * ucast KANI_MAX_QUEUE_SIZE + 2"
definition QUEUE_END :: u64 where
  "QUEUE_END = MAX_START_USED_RING_BASE_ADDRESS + 6 + 8 * ucast KANI_MAX_QUEUE_SIZE"
definition GUEST_MEMORY_SIZE :: nat where "GUEST_MEMORY_SIZE = unat QUEUE_END + 30"

definition kani_guest_memory :: "(u64 \<Rightarrow> byte) \<Rightarrow> region" where
  "kani_guest_memory bytes =
     \<lparr>rg_base = GUEST_MEMORY_BASE, rg_size = GUEST_MEMORY_SIZE, rg_data = bytes\<rparr>"

text \<open>The values the harness draws with \<open>kani::any\<close>.\<close>

record kani_choice =
  kc_desc_tbl_queue_size :: u16
  kc_avail_ring_queue_size :: u16
  kc_used_ring_queue_size :: u16
  kc_bytes :: "u64 \<Rightarrow> byte"
  kc_next_avail :: u16
  kc_next_used :: u16
  kc_event_idx :: bool
  kc_num_added :: u16

definition proof_context_any :: "endian \<Rightarrow> kani_choice \<Rightarrow> (queue \<times> region) option" where
  "proof_context_any e k =
     (let avail_ring_base_address = QUEUE_BASE_ADDRESS + ucast (kc_desc_tbl_queue_size k);
          used_ring_base_address = avail_ring_base_address + ucast (kc_avail_ring_queue_size k) in
      if \<not> (kc_desc_tbl_queue_size k \<le> 16 * KANI_MAX_QUEUE_SIZE \<and> kc_desc_tbl_queue_size k AND 15 = 0) then None
      else if \<not> (kc_avail_ring_queue_size k \<le> 6 + 2 * KANI_MAX_QUEUE_SIZE + 2 \<and>
                 kc_avail_ring_queue_size k AND 1 = 0) then None
      else if \<not> (kc_avail_ring_queue_size k \<le> 6 + 8 * KANI_MAX_QUEUE_SIZE \<and>
                 kc_used_ring_queue_size k AND 3 = 0) then None
      else if QUEUE_END \<noteq> used_ring_base_address + ucast (kc_used_ring_queue_size k) then None
      else
        let mem = kani_guest_memory (kc_bytes k) in
        case queue_new KANI_MAX_QUEUE_SIZE of
          Inl _ \<Rightarrow> None
        | Inr q0 \<Rightarrow>
            let q1 = q0\<lparr>q_ready := True\<rparr>;
                q2 = set_desc_table_address q1 (Some (ucast QUEUE_BASE_ADDRESS))
                       (Some (ucast (drop_bit 32 QUEUE_BASE_ADDRESS)));
                q3 = set_avail_ring_address q2 (Some (ucast avail_ring_base_address))
                       (Some (ucast (drop_bit 32 avail_ring_base_address)));
                q4 = set_used_ring_address q3 (Some (ucast used_ring_base_address))
                       (Some (ucast (drop_bit 32 used_ring_base_address)));
                q5 = set_next_avail q4 (kc_next_avail k);
                q6 = set_next_used q5 (kc_next_used k);
                q7 = set_event_idx q6 (kc_event_idx k);
                q8 = q7\<lparr>q_num_added := kc_num_added k\<rparr> in
            if is_valid (single_region e) q8 mem then Some (q8, mem) else None)"

text \<open>The harness: the conjunction of the assertions it reaches.\<close>

definition verify_spec_2_7_7_2 :: "'m guest_memory \<Rightarrow> queue \<Rightarrow> 'm \<Rightarrow> bool option" where
  "verify_spec_2_7_7_2 G queue mem =
     (let num_added_old = q_num_added queue;
          (queue', needs) = needs_notification G queue mem in
      if \<not> q_event_idx_enabled queue' then
        (case needs of Inl _ \<Rightarrow> None | Inr b \<Rightarrow> Some b)
      else case used_event G queue' mem Relaxed of
        Inl _ \<Rightarrow> None
      | Inr e \<Rightarrow>
          if e = q_next_used queue' - 1 \<and> num_added_old > 0
          then (case needs of Inl _ \<Rightarrow> None | Inr b \<Rightarrow> Some b)
          else Some True)"

section \<open>A valid queue on single-region memory\<close>

lemma end_in_range_acc:
  assumes "\<not> end_out_of_range (single_region e) m a n" and "rg_base m = 0"
  shows "sr_acc m a (unat n)"
proof -
  from assms obtain v where v: "checked_add a n = Some v" "sr_address_in_range m v"
    by (auto simp: end_out_of_range_def split: option.splits)
  then have "unat v = unat a + unat n" by (auto simp: checked_add_eq_Some)
  moreover have "unat v < rg_size m"
    using v(2) assms(2)
    by (auto simp: sr_address_in_range_def sr_find_region_def to_region_addr_def split: if_splits)
  moreover have "unat v < 2 ^ 64" by simp
  ultimately show ?thesis using assms(2) by (simp add: sr_acc_def)
qed

lemma ring_sizes:
  "unat (16 * ucast s :: u64) = 16 * unat (s :: u16)"
  "unat (6 + 2 * ucast s :: u64) = 6 + 2 * unat s"
  "unat (6 + 8 * ucast s :: u64) = 6 + 8 * unat s"
proof -
  have s: "unat s < 65536" by simp
  have "(16 * ucast s :: u64) = of_nat (16 * unat s)" "(6 + 2 * ucast s :: u64) = of_nat (6 + 2 * unat s)"
    "(6 + 8 * ucast s :: u64) = of_nat (6 + 8 * unat s)" by simp_all
  moreover have "unat (of_nat k :: u64) = k" if "k < 2 ^ 64" for k using that by (intro unat_of_nat_less) simp
  ultimately show "unat (16 * ucast s :: u64) = 16 * unat s" "unat (6 + 2 * ucast s :: u64) = 6 + 2 * unat s"
    "unat (6 + 8 * ucast s :: u64) = 6 + 8 * unat s"
    using s by (simp_all del: of_nat_add of_nat_mult unat_u16_bound)
qed

lemma is_valid_acc:
  assumes "is_valid (single_region e) q m" and "rg_base m = 0"
  shows "sr_acc m (q_desc_table q) (16 * unat (q_size q))" and "avail_ring_acc sr_acc q m"
    and "used_ring_acc sr_acc q m"
  using assms end_in_range_acc [of e m, OF _ assms(2)]
  by (auto simp: is_valid_def Let_def avail_ring_acc_def used_ring_acc_def ring_sizes queue_const_defs
      split: if_splits) (metis ring_sizes)+

lemma proof_context_any_Some:
  assumes "proof_context_any e k = Some (q, m)"
  shows "wf_queue q" and "is_valid (single_region e) q m" and "rg_base m = 0"
proof -
  have wf: "wf_queue (q\<lparr>q_num_added := n\<rparr>)" "wf_queue (q\<lparr>q_ready := b\<rparr>)" if "wf_queue q" for q n b
    using that by (simp_all add: wf_queue_def)
  show "wf_queue q" and "is_valid (single_region e) q m" and "rg_base m = 0"
    using assms
    by (auto simp: proof_context_any_def Let_def kani_guest_memory_def GUEST_MEMORY_BASE_def
        intro!: wf wf_setters dest: wf_queue_new split: if_splits sum.splits)
qed

section \<open>The harness holds\<close>

context guest_mem
begin

lemma verify_spec_holds:
  assumes "wf_queue q" and "avail_ring_acc acc q m"
  shows "verify_spec_2_7_7_2 G q m = Some True"
proof (cases "q_event_idx_enabled q")
  case False
  then show ?thesis by (simp add: verify_spec_2_7_7_2_def needs_notification_def)
next
  case True
  obtain v where v: "used_event G q m Relaxed = Inr v"
    using used_event_value [OF assms, of Relaxed] by (auto simp: load_order_def)
  have same: "used_event G (q\<lparr>q_num_added := 0\<rparr>) m Relaxed = used_event G q m Relaxed"
    by (simp add: used_event_def)
  have "\<exists>k < unat (q_num_added q). q_next_used q - 1 = q_next_used q - q_num_added q + of_nat k"
    if "q_num_added q > 0"
  proof (intro exI [of _ "unat (q_num_added q) - 1"] conjI)
    have "q_num_added q \<noteq> 0" using that by auto
    then have "unat (q_num_added q - 1) = unat (q_num_added q) - 1" by (rule unat_minus_one)
    then have "of_nat (unat (q_num_added q) - 1) = q_num_added q - 1" by (metis of_nat_unat ucast_id)
    then show "q_next_used q - 1 = q_next_used q - q_num_added q + of_nat (unat (q_num_added q) - 1)"
      by simp
    show "unat (q_num_added q) - 1 < unat (q_num_added q)"
      using \<open>q_num_added q \<noteq> 0\<close> by (simp add: unat_gt_0)
  qed
  with True v same show ?thesis
    by (auto simp: verify_spec_2_7_7_2_def needs_notification_event_idx [OF True v])
qed

end

end
