(* ===== verification/Mock_Driver.thy ===== *)
theory Mock_Driver
  imports Avail_Iter Single_Region
begin

text \<open>
  The driver side of a split virtqueue as \<open>virtio-queue/src/mock.rs\<close> implements it: the rings and the
  descriptor table as references into guest memory, building descriptor chains, publishing heads in
  the available ring and creating the queue the device uses. A panic (\<open>unwrap\<close>, \<open>assert_eq\<close>, an index
  out of range, an overflow of plain arithmetic) is the value \<open>None\<close>; a \<open>MockError\<close> is the left value
  of a sum.
\<close>

section \<open>References into guest memory\<close>

datatype mock_error =
    MkInvalidQueueParams queue_error
  | MkInvalidIndex
  | MkInvalidNextAvail
  | MkGuestMem gm_error

fun mock_error_display :: "(gm_error \<Rightarrow> string) \<Rightarrow> mock_error \<Rightarrow> string" where
  "mock_error_display gm (MkInvalidQueueParams _) = ''cannot create queue due to invalid parameter''"
| "mock_error_display gm MkInvalidIndex =
     ''invalid index for pointing to an address in a region when defining a Ref object''"
| "mock_error_display gm MkInvalidNextAvail = ''invalid next available descriptor chain head in the queue''"
| "mock_error_display gm (MkGuestMem e) = ''guest memory error: '' @ gm e"

text \<open>\<open>Ref::load\<close> and \<open>Ref::store\<close>, for the element types in use: plain data in host byte order.\<close>

definition ref_load :: "'m guest_memory \<Rightarrow> 'm \<Rightarrow> u64 \<Rightarrow> nat \<Rightarrow> byte list option" where
  "ref_load G m a sz = (case gm_read_slice G m a sz of Inl _ \<Rightarrow> None | Inr bs \<Rightarrow> Some bs)"

definition ref_store :: "'m guest_memory \<Rightarrow> 'm \<Rightarrow> u64 \<Rightarrow> byte list \<Rightarrow> 'm option" where
  "ref_store G m a bs = (case gm_write_slice G m a bs of (_, Inl _) \<Rightarrow> None | (m', Inr _) \<Rightarrow> Some m')"

definition ref_load_u16 :: "'m guest_memory \<Rightarrow> 'm \<Rightarrow> u64 \<Rightarrow> u16 option" where
  "ref_load_u16 G m a = map_option (native_word (gm_endian G)) (ref_load G m a 2)"

definition ref_store_u16 :: "'m guest_memory \<Rightarrow> 'm \<Rightarrow> u64 \<Rightarrow> u16 \<Rightarrow> 'm option" where
  "ref_store_u16 G m a v = ref_store G m a (native_bytes (gm_endian G) 2 v)"

record array_ref =
  ar_addr :: u64
  ar_len :: nat

definition ref_at :: "array_ref \<Rightarrow> nat \<Rightarrow> nat \<Rightarrow> (mock_error + u64) option" where
  "ref_at ar elem_size index =
     (if index \<ge> ar_len ar then Some (Inl MkInvalidIndex)
      else case checked_add (ar_addr ar) (of_nat (index * elem_size)) of
        None \<Rightarrow> None
      | Some a \<Rightarrow> Some (Inr a))"

section \<open>Rings\<close>

record split_queue_ring =
  sqr_flags :: u64
  sqr_idx :: u64
  sqr_ring :: array_ref
  sqr_event :: u64

definition split_queue_ring_new ::
    "'m guest_memory \<Rightarrow> 'm \<Rightarrow> u64 \<Rightarrow> u16 \<Rightarrow> (split_queue_ring \<times> 'm) option" where
  "split_queue_ring_new G m base len =
     (case Option.bind (checked_add base 4) (\<lambda>a. checked_add a (of_nat (2 * unat len))) of
        None \<Rightarrow> None
      | Some event_addr \<Rightarrow>
          (case (checked_add base 2, checked_add base 4) of
             (Some idx, Some ring) \<Rightarrow>
               let r = \<lparr>sqr_flags = base, sqr_idx = idx,
                        sqr_ring = \<lparr>ar_addr = ring, ar_len = unat len\<rparr>, sqr_event = event_addr\<rparr> in
               Option.bind (ref_store_u16 G m (sqr_flags r) 0) (\<lambda>m1.
               Option.bind (ref_store_u16 G m1 (sqr_idx r) 0) (\<lambda>m2.
               Option.bind (ref_store_u16 G m2 (sqr_event r) 0) (\<lambda>m3. Some (r, m3))))
           | _ \<Rightarrow> None))"

definition ring_start :: "split_queue_ring \<Rightarrow> u64" where
  "ring_start r = ar_addr (sqr_ring r)"

definition ring_end :: "split_queue_ring \<Rightarrow> u64 option" where
  "ring_end r = checked_add (ring_start r) (of_nat (ar_len (sqr_ring r)))"

section \<open>The descriptor table\<close>

record descriptor_table =
  dt_table :: array_ref
  dt_len :: u16
  dt_free_descriptors :: "u16 list"

definition descriptor_table_new :: "u64 \<Rightarrow> u16 \<Rightarrow> descriptor_table" where
  "descriptor_table_new addr len =
     \<lparr>dt_table = \<lparr>ar_addr = addr, ar_len = unat len\<rparr>, dt_len = len,
      dt_free_descriptors = rev (map of_nat [0..<unat len])\<rparr>"

definition table_load :: "'m guest_memory \<Rightarrow> 'm \<Rightarrow> descriptor_table \<Rightarrow> u16 \<Rightarrow> (mock_error + raw_descriptor) option" where
  "table_load G m dt index =
     (case ref_at (dt_table dt) 16 (unat index) of
        None \<Rightarrow> None
      | Some (Inl e) \<Rightarrow> Some (Inl e)
      | Some (Inr a) \<Rightarrow> map_option (\<lambda>bs. Inr (raw_desc_of_bytes bs)) (ref_load G m a 16))"

definition table_store ::
    "'m guest_memory \<Rightarrow> 'm \<Rightarrow> descriptor_table \<Rightarrow> u16 \<Rightarrow> raw_descriptor \<Rightarrow> ('m \<times> (mock_error + unit)) option" where
  "table_store G m dt index val =
     (case ref_at (dt_table dt) 16 (unat index) of
        None \<Rightarrow> None
      | Some (Inl e) \<Rightarrow> Some (m, Inl e)
      | Some (Inr a) \<Rightarrow> map_option (\<lambda>m'. (m', Inr ())) (ref_store G m a (raw_desc_bytes val)))"

definition table_total_size :: "descriptor_table \<Rightarrow> u64" where
  "table_total_size dt = of_nat (unat (dt_len dt) * 16)"

text \<open>The descriptor \<open>build_chain\<close> stores at position \<open>pos\<close> of the chain.\<close>

definition chain_desc :: "u16 list \<Rightarrow> nat \<Rightarrow> split_desc" where
  "chain_desc indices pos =
     (let desc = split_desc_new 0x1000 0x1000 0 0 in
      if pos < length indices - 1
      then split_set_next (split_set_flags desc (ucast VRING_DESC_F_NEXT)) (indices ! (pos + 1))
      else split_set_flags desc 0)"

fun build_chain_loop ::
    "'m guest_memory \<Rightarrow> 'm \<Rightarrow> descriptor_table \<Rightarrow> u16 list \<Rightarrow> nat list \<Rightarrow> ('m \<times> (mock_error + unit)) option" where
  "build_chain_loop G m dt indices [] = Some (m, Inr ())"
| "build_chain_loop G m dt indices (pos # ps) =
     (case table_store G m dt (indices ! pos) (raw_of_split (chain_desc indices pos)) of
        None \<Rightarrow> None
      | Some (m', Inl e) \<Rightarrow> Some (m', Inl e)
      | Some (m', Inr _) \<Rightarrow> build_chain_loop G m' dt indices ps)"

definition build_chain ::
    "'m guest_memory \<Rightarrow> 'm \<Rightarrow> descriptor_table \<Rightarrow> u16 \<Rightarrow> ('m \<times> (mock_error + u16)) option" where
  "build_chain G m dt len =
     (let indices = take (unat len) (rev (dt_free_descriptors dt)) in
      if length indices \<noteq> unat len then None
      else case build_chain_loop G m dt indices [0..<length indices] of
        None \<Rightarrow> None
      | Some (m', Inl e) \<Rightarrow> Some (m', Inl e)
      | Some (m', Inr _) \<Rightarrow> (case indices of [] \<Rightarrow> None | i # _ \<Rightarrow> Some (m', Inr i)))"

section \<open>The mock queue\<close>

definition align_up :: "u64 \<Rightarrow> u64 \<Rightarrow> u64 option" where
  "align_up a x = map_option (\<lambda>s. s AND NOT (x - 1)) (checked_add a (x - 1))"

record mock_split_queue =
  mk_len :: u16
  mk_desc_table_addr :: u64
  mk_desc_table :: descriptor_table
  mk_avail_addr :: u64
  mk_avail :: split_queue_ring
  mk_used_addr :: u64
  mk_used :: split_queue_ring
  mk_indirect_addr :: u64

definition mock_create ::
    "'m guest_memory \<Rightarrow> 'm \<Rightarrow> u64 \<Rightarrow> u16 \<Rightarrow> (mock_split_queue \<times> 'm) option" where
  "mock_create G m start len =
     (case Option.bind (checked_add start (16 * ucast len)) (\<lambda>a. align_up a 2) of
        None \<Rightarrow> None
      | Some avail_addr \<Rightarrow>
          (case split_queue_ring_new G m avail_addr len of
             None \<Rightarrow> None
           | Some (avail, m1) \<Rightarrow>
               (case Option.bind (ring_end avail) (\<lambda>e. align_up e 4) of
                  None \<Rightarrow> None
                | Some used_addr \<Rightarrow>
                    (case split_queue_ring_new G m1 used_addr len of
                       None \<Rightarrow> None
                     | Some (used, m2) \<Rightarrow>
                         Some (\<lparr>mk_len = len, mk_desc_table_addr = start,
                                mk_desc_table = descriptor_table_new start len,
                                mk_avail_addr = avail_addr, mk_avail = avail,
                                mk_used_addr = used_addr, mk_used = used,
                                mk_indirect_addr = 0x30000000\<rparr>, m2)))))"

definition mock_new :: "'m guest_memory \<Rightarrow> 'm \<Rightarrow> u16 \<Rightarrow> (mock_split_queue \<times> 'm) option" where
  "mock_new G m len = mock_create G m 0 len"

definition update_avail_idx ::
    "'m guest_memory \<Rightarrow> 'm \<Rightarrow> mock_split_queue \<Rightarrow> u16 \<Rightarrow> ('m \<times> (mock_error + unit)) option" where
  "update_avail_idx G m mq v =
     (case ref_load_u16 G m (sqr_idx (mk_avail mq)) of
        None \<Rightarrow> None
      | Some idx \<Rightarrow>
          (case ref_at (sqr_ring (mk_avail mq)) 2 (unat idx) of
             None \<Rightarrow> None
           | Some (Inl e) \<Rightarrow> Some (m, Inl e)
           | Some (Inr a) \<Rightarrow>
               Option.bind (ref_store_u16 G m a v) (\<lambda>m1.
               Option.bind (ref_store_u16 G m1 (sqr_idx (mk_avail mq)) (idx + 1)) (\<lambda>m2.
               Some (m2, Inr ())))))"

definition alloc_indirect_chain ::
    "'m guest_memory \<Rightarrow> 'm \<Rightarrow> mock_split_queue \<Rightarrow> u16 \<Rightarrow> (mock_split_queue \<times> 'm \<times> (mock_error + u64)) option" where
  "alloc_indirect_chain G m mq len =
     (if len mod 16 \<noteq> 0 \<and> 16 * (unat len div 16 + 1) \<ge> 2 ^ 16 then None
      else
        let table_len = (if len mod 16 = 0 then len else 16 * (len div 16 + 1));
            dt = descriptor_table_new (mk_indirect_addr mq) table_len in
        case build_chain G m dt len of
          None \<Rightarrow> None
        | Some (m', Inl e) \<Rightarrow> Some (mq, m', Inl e)
        | Some (m', Inr head_index) \<Rightarrow>
            if head_index \<noteq> 0 then None
            else (case checked_add (mk_indirect_addr mq) (table_total_size dt) of
                    None \<Rightarrow> None
                  | Some a \<Rightarrow> Some (mq\<lparr>mk_indirect_addr := a\<rparr>, m', Inr (mk_indirect_addr mq))))"

definition add_chain ::
    "'m guest_memory \<Rightarrow> 'm \<Rightarrow> mock_split_queue \<Rightarrow> u16 \<Rightarrow> ('m \<times> (mock_error + unit)) option" where
  "add_chain G m mq len =
     (case build_chain G m (mk_desc_table mq) len of
        None \<Rightarrow> None
      | Some (m', Inl e) \<Rightarrow> Some (m', Inl e)
      | Some (m', Inr head_idx) \<Rightarrow> update_avail_idx G m' mq head_idx)"

definition add_indirect_chain ::
    "'m guest_memory \<Rightarrow> 'm \<Rightarrow> mock_split_queue \<Rightarrow> u16 \<Rightarrow> (mock_split_queue \<times> 'm \<times> (mock_error + unit)) option" where
  "add_indirect_chain G m mq len =
     (case build_chain G m (mk_desc_table mq) 1 of
        None \<Rightarrow> None
      | Some (m1, Inl e) \<Rightarrow> Some (mq, m1, Inl e)
      | Some (m1, Inr head_idx) \<Rightarrow>
          (case alloc_indirect_chain G m1 mq len of
             None \<Rightarrow> None
           | Some (mq', m2, Inl e) \<Rightarrow> Some (mq', m2, Inl e)
           | Some (mq', m2, Inr indirect_addr) \<Rightarrow>
               (case table_load G m2 (mk_desc_table mq') head_idx of
                  None \<Rightarrow> None
                | Some (Inl e) \<Rightarrow> Some (mq', m2, Inl e)
                | Some (Inr raw) \<Rightarrow>
                    let d1 = split_set_flags (split_of_raw raw) (ucast VRING_DESC_F_INDIRECT);
                        d2 = split_set_addr d1 indirect_addr;
                        d3 = split_set_len d2 (ucast len * 16) in
                    (case table_store G m2 (mk_desc_table mq') head_idx (raw_of_split d3) of
                       None \<Rightarrow> None
                     | Some (m3, Inl e) \<Rightarrow> Some (mq', m3, Inl e)
                     | Some (m3, Inr _) \<Rightarrow>
                         map_option (\<lambda>(m4, r). (mq', m4, r)) (update_avail_idx G m3 mq' head_idx)))))"

definition create_queue :: "mock_split_queue \<Rightarrow> queue_error + queue" where
  "create_queue mq =
     (case queue_new (mk_len mq) of
        Inl e \<Rightarrow> Inl e
      | Inr q0 \<Rightarrow>
          let q1 = set_size q0 (mk_len mq);
              q2 = set_ready q1 True;
              q3 = set_desc_table_address q2 (Some (ucast (mk_desc_table_addr mq)))
                     (Some (ucast (drop_bit 32 (mk_desc_table_addr mq))));
              q4 = set_avail_ring_address q3 (Some (ucast (mk_avail_addr mq)))
                     (Some (ucast (drop_bit 32 (mk_avail_addr mq))));
              q5 = set_used_ring_address q4 (Some (ucast (mk_used_addr mq)))
                     (Some (ucast (drop_bit 32 (mk_used_addr mq)))) in
          Inr q5)"

text \<open>The loop of \<open>add_desc_chains\<close> from position \<open>idx\<close> on; \<open>prev\<close> is the descriptor before it, if there is
  one.\<close>

fun add_desc_loop ::
    "'m guest_memory \<Rightarrow> 'm \<Rightarrow> mock_split_queue \<Rightarrow> u16 \<Rightarrow> u16 \<Rightarrow> u16 \<Rightarrow> raw_descriptor option \<Rightarrow> nat \<Rightarrow>
     raw_descriptor list \<Rightarrow> ('m \<times> (mock_error + u16)) option" where
  "add_desc_loop G m mq offset avail_index new_entries prev idx [] = Some (m, Inr new_entries)"
| "add_desc_loop G m mq offset avail_index new_entries prev idx (desc # descs) =
     (case checked_add (of_nat idx) offset of
        None \<Rightarrow> None
      | Some i \<Rightarrow>
          (case table_store G m (mk_desc_table mq) i desc of
             None \<Rightarrow> None
           | Some (m1, Inl e) \<Rightarrow> Some (m1, Inl e)
           | Some (m1, Inr _) \<Rightarrow>
               if (case prev of None \<Rightarrow> True
                   | Some p \<Rightarrow> sd_flags (split_of_raw p) AND ucast VRING_DESC_F_NEXT \<noteq> 1) then
                 (case (checked_add avail_index new_entries, checked_add new_entries 1) of
                    (Some slot, Some n) \<Rightarrow>
                      (case gm_write_slice G m1
                              (mk_avail_addr mq + (VIRTQ_AVAIL_RING_HEADER_SIZE +
                                 ucast slot * VIRTQ_AVAIL_ELEMENT_SIZE))
                              (native_bytes (gm_endian G) 2 (to_le (gm_endian G) i)) of
                         (m2, Inl e) \<Rightarrow> Some (m2, Inl (MkGuestMem e))
                       | (m2, Inr _) \<Rightarrow> add_desc_loop G m2 mq offset avail_index n (Some desc) (idx + 1) descs)
                  | _ \<Rightarrow> None)
               else add_desc_loop G m1 mq offset avail_index new_entries (Some desc) (idx + 1) descs))"

definition add_desc_chains ::
    "'m guest_memory \<Rightarrow> 'm \<Rightarrow> mock_split_queue \<Rightarrow> raw_descriptor list \<Rightarrow> u16 \<Rightarrow> ('m \<times> (mock_error + unit)) option" where
  "add_desc_chains G m mq descs offset =
     (case gm_read_slice G m (mk_avail_addr mq + 2) 2 of
        Inl e \<Rightarrow> Some (m, Inl (MkGuestMem e))
      | Inr bs \<Rightarrow>
          let avail_index = from_le (gm_endian G) (native_word (gm_endian G) bs) in
          (case add_desc_loop G m mq offset avail_index 0 None 0 descs of
             None \<Rightarrow> None
           | Some (m1, Inl e) \<Rightarrow> Some (m1, Inl e)
           | Some (m1, Inr new_entries) \<Rightarrow>
               (case checked_add avail_index new_entries of
                  None \<Rightarrow> None
                | Some n \<Rightarrow>
                    (case gm_write_slice G m1 (mk_avail_addr mq + 2)
                            (native_bytes (gm_endian G) 2 (to_le (gm_endian G) n)) of
                       (m2, Inl e) \<Rightarrow> Some (m2, Inl (MkGuestMem e))
                     | (m2, Inr _) \<Rightarrow> Some (m2, Inr ())))))"

definition build_multiple_desc_chains ::
    "'m guest_memory \<Rightarrow> 'm \<Rightarrow> mock_split_queue \<Rightarrow> raw_descriptor list \<Rightarrow> ('m \<times> (mock_error + desc_chain)) option" where
  "build_multiple_desc_chains G m mq descs =
     (case add_desc_chains G m mq descs 0 of
        None \<Rightarrow> None
      | Some (m', Inl e) \<Rightarrow> Some (m', Inl e)
      | Some (m', Inr _) \<Rightarrow>
          Some (m', case create_queue mq of
              Inl e \<Rightarrow> Inl (MkInvalidQueueParams e)
            | Inr q \<Rightarrow>
                (case queue_iter G q m' of
                   Inl e \<Rightarrow> Inl (MkInvalidQueueParams e)
                 | Inr it \<Rightarrow>
                     (case avail_iter_next G m' it of
                        (_, None) \<Rightarrow> Inl MkInvalidNextAvail
                      | (_, Some c) \<Rightarrow> Inr c))))"

definition link_desc :: "nat \<Rightarrow> nat \<Rightarrow> raw_descriptor \<Rightarrow> raw_descriptor option" where
  "link_desc n idx raw =
     (let desc = split_of_raw raw in
      if idx = n - 1
      then Some (raw_of_split (split_desc_new (sd_addr desc) (sd_len desc)
                   (sd_flags desc AND NOT (ucast VRING_DESC_F_NEXT)) 0))
      else map_option (\<lambda>nxt. raw_of_split (split_desc_new (sd_addr desc) (sd_len desc)
                         (sd_flags desc OR ucast VRING_DESC_F_NEXT) nxt))
             (checked_add (of_nat idx) 1))"

definition build_desc_chain ::
    "'m guest_memory \<Rightarrow> 'm \<Rightarrow> mock_split_queue \<Rightarrow> raw_descriptor list \<Rightarrow> ('m \<times> (mock_error + desc_chain)) option" where
  "build_desc_chain G m mq descs =
     Option.bind (those (map (\<lambda>(idx, d). link_desc (length descs) idx d) (enumerate 0 descs)))
       (build_multiple_desc_chains G m mq)"

section \<open>What the mock driver builds\<close>

text \<open>The queue has the rings where the mock placed them.\<close>

lemma create_queue_ok:
  assumes "queue_new (mk_len mq) = Inr q0" and "mk_desc_table_addr mq AND 15 = 0"
    and "mk_avail_addr mq AND 1 = 0" and "mk_used_addr mq AND 3 = 0"
  shows "create_queue mq =
    Inr (q0\<lparr>q_ready := True, q_desc_table := mk_desc_table_addr mq, q_avail_ring := mk_avail_addr mq,
           q_used_ring := mk_used_addr mq\<rparr>)"
proof -
  have "set_size q0 (mk_len mq) = q0"
    using assms(1) by (simp add: queue_new_Inr set_size_def try_set_size_def)
  with assms show ?thesis
    by (simp add: create_queue_def set_ready_def set_desc_table_address_def
        set_avail_ring_address_def set_used_ring_address_def compose_address_both
        try_set_desc_table_address_def try_set_avail_ring_address_def try_set_used_ring_address_def)
qed

text \<open>\<open>build_desc_chain\<close> links every descriptor to its successor and ends the chain at the last.\<close>

lemma link_desc_Some:
  assumes "n \<le> 2 ^ 16" and "idx < n"
  shows "\<exists>d. link_desc n idx raw = Some (raw_of_split d) \<and> has_next d = (idx \<noteq> n - 1) \<and>
    (idx \<noteq> n - 1 \<longrightarrow> sd_next d = of_nat (idx + 1)) \<and>
    sd_addr d = sd_addr (split_of_raw raw) \<and> sd_len d = sd_len (split_of_raw raw) \<and>
    is_write_only d = is_write_only (split_of_raw raw) \<and>
    refers_to_indirect_table d = refers_to_indirect_table (split_of_raw raw)"
proof (cases "idx = n - 1")
  case True
  let ?raw = "split_of_raw raw"
  let ?d = "split_desc_new (sd_addr ?raw) (sd_len ?raw) (sd_flags ?raw AND NOT (ucast VRING_DESC_F_NEXT)) 0"
  have "link_desc n idx raw = Some (raw_of_split ?d)" using True by (simp add: link_desc_def Let_def)
  moreover have "\<not> has_next ?d" "is_write_only ?d = is_write_only ?raw"
      "refers_to_indirect_table ?d = refers_to_indirect_table ?raw"
    by (simp_all add: desc_flags_bit vring_flag_defs bit_simps)
  ultimately show ?thesis using True by (intro exI [of _ ?d]) simp
next
  case False
  let ?raw = "split_of_raw raw"
  let ?d = "split_desc_new (sd_addr ?raw) (sd_len ?raw) (sd_flags ?raw OR ucast VRING_DESC_F_NEXT) (of_nat (idx + 1))"
  have i: "idx + 1 < 2 ^ 16" using assms False by simp
  then have "unat (of_nat idx :: u16) = idx" by (intro unat_of_nat_less) simp
  with i have "checked_add (of_nat idx) (1 :: u16) = Some (of_nat idx + 1)"
    by (intro checked_add_SomeI) simp
  then have "link_desc n idx raw = Some (raw_of_split ?d)" using False by (simp add: link_desc_def Let_def add.commute)
  moreover have "has_next ?d" "is_write_only ?d = is_write_only ?raw"
      "refers_to_indirect_table ?d = refers_to_indirect_table ?raw"
    by (simp_all add: desc_flags_bit vring_flag_defs bit_simps)
  ultimately show ?thesis using False by (intro exI [of _ ?d]) simp
qed

text \<open>The used ring starts one byte per available entry after the available ring's entries, although
  an entry has two bytes.\<close>

lemma mock_used_addr:
  assumes "mock_create G m start len = Some (mq, m')"
  shows "align_up (start + 16 * ucast len) 2 = Some (mk_avail_addr mq)"
    and "align_up (mk_avail_addr mq + 4 + of_nat (unat len)) 4 = Some (mk_used_addr mq)"
  using assms
  by (auto simp: mock_create_def split_queue_ring_new_def ring_end_def ring_start_def Let_def
      checked_add_def split: option.splits if_splits bind_splits)

end
