(* ===== verification/Queue_Properties.thy ===== *)
theory Queue_Properties
  imports Virtqueue Queue_State Queue_Sync Descriptor_Utils Kani_Notification Mock_Driver
begin

text \<open>
  The correctness properties of the queue crate (\<open>virtio-queue\<close>, \<open>virtio-queue-ser\<close>), over the
  definitions of the component theories, each with a concrete instance. The properties that need the
  behaviour of guest memory name it as the hypothesis \<open>guest_mem\<close>; the instances discharge it on the
  single-region memory of \<open>verification.rs\<close>.
\<close>

section \<open>Concrete data for the instances\<close>

text \<open>A queue of two entries: descriptor table at 256, available ring at 512, used ring at 768.\<close>

definition demo_queue :: queue where
  "demo_queue =
     \<lparr>q_max_size = 2, q_next_avail = 0, q_next_used = 0, q_event_idx_enabled = True, q_num_added = 0,
      q_size = 2, q_ready = True, q_desc_table = 256, q_avail_ring = 512, q_used_ring = 768\<rparr>"

definition demo_region :: "(u64 \<Rightarrow> byte) \<Rightarrow> region" where
  "demo_region f = \<lparr>rg_base = 0, rg_size = 4096, rg_data = f\<rparr>"

definition zero_region :: region where
  "zero_region = demo_region (\<lambda>_. 0)"

definition empty_log :: vq_log where
  "empty_log = \<lparr>lg_published = [], lg_popped = [], lg_completed = []\<rparr>"

definition demo_start :: "region vq_state" where
  "demo_start = \<lparr>vq_queue = demo_queue, vq_mem = zero_region, vq_log = empty_log\<rparr>"

text \<open>The memory after the driver has published head 1.\<close>

definition published_region :: region where
  "published_region = demo_region (poke (poke (\<lambda>_. 0) 516 (le_bytes 2 (1 :: u16))) 514 (le_bytes 2 (1 :: u16)))"

definition demo_published :: "region vq_state" where
  "demo_published =
     \<lparr>vq_queue = demo_queue, vq_mem = published_region, vq_log = empty_log\<lparr>lg_published := [1]\<rparr>\<rparr>"

definition demo_popped :: "region vq_state" where
  "demo_popped =
     \<lparr>vq_queue = demo_queue\<lparr>q_next_avail := 1\<rparr>, vq_mem = published_region,
      vq_log = \<lparr>lg_published = [1], lg_popped = [1], lg_completed = []\<rparr>\<rparr>"

text \<open>The device has completed it with seven bytes written.\<close>

definition demo_completed :: "region vq_state" where
  "demo_completed =
     (case add_used (single_region LittleEndian) (vq_queue demo_popped) published_region 1 7 of
        (q, m, _) \<Rightarrow> \<lparr>vq_queue = q, vq_mem = m,
                      vq_log = \<lparr>lg_published = [1], lg_popped = [1], lg_completed = [(1, 7)]\<rparr>\<rparr>)"

lemmas demo_defs = demo_queue_def demo_region_def zero_region_def empty_log_def demo_start_def
  published_region_def demo_published_def demo_popped_def

lemma wf_demo_queue: "wf_queue demo_queue"
  by (simp add: wf_queue_def demo_queue_def pow2_check_def MAX_QUEUE_SIZE_def)

lemma demo_live: "rg_base m = 0 \<Longrightarrow> rg_size m = 4096 \<Longrightarrow> queue_live sr_acc demo_queue m"
  using wf_demo_queue
  by (simp add: queue_live_def avail_ring_acc_def used_ring_acc_def sr_acc_def disjoint_ranges_def demo_queue_def)

lemma zero_indices:
  "avail_idx_at (rg_data zero_region) demo_queue = 0" "used_idx_at (rg_data zero_region) demo_queue = 0"
  by code_simp+

lemma demo_init: "vq_init rg_data sr_acc demo_start"
  using demo_live [of zero_region] zero_indices
  by (simp add: vq_init_def demo_start_def empty_log_def zero_region_def demo_region_def)
    (simp add: demo_queue_def)

lemma demo_publish_step: "vq_step (single_region LittleEndian) rg_data sr_acc demo_start demo_published"
proof -
  have "vq_step (single_region LittleEndian) rg_data sr_acc
      \<lparr>vq_queue = demo_queue, vq_mem = zero_region, vq_log = empty_log\<rparr>
      \<lparr>vq_queue = demo_queue, vq_mem = published_region,
        vq_log = empty_log\<lparr>lg_published := lg_published empty_log @ [1]\<rparr>\<rparr>"
    by (rule driver_publish)
      (simp_all add: zero_indices, simp_all add: demo_defs avail_slot_def sr_acc_def fun_eq_iff)
  then show ?thesis by (simp add: demo_start_def demo_published_def empty_log_def)
qed

lemma demo_pending: "pending_heads (rg_data published_region) demo_queue = [1]"
  by code_simp

lemma published_indices:
  "avail_idx_at (rg_data published_region) demo_queue = 1"
  "avail_head_at (rg_data published_region) demo_queue 0 = 1"
  by code_simp+

lemma published_live: "queue_live sr_acc demo_queue published_region"
  by (rule demo_live) (simp_all add: published_region_def demo_region_def)

text \<open>The iterator over the available heads of the published queue.\<close>

definition demo_iter :: avail_iter where
  "demo_iter = \<lparr>ai_desc_table = 256, ai_avail_ring = 512, ai_queue_size = 2, ai_last_index = 1, ai_next_avail = 0\<rparr>"

lemma demo_queue_iter: "queue_iter (single_region LittleEndian) demo_queue published_region = Inr demo_iter"
  using guest_mem.queue_iter_ok [OF single_region_laws, of demo_queue published_region] published_live
  by (simp add: queue_live_def published_indices) (simp add: demo_queue_def demo_iter_def)

lemma demo_run: "vq_run (single_region LittleEndian) rg_data sr_acc demo_start demo_popped"
proof -
  have n: "unat (avail_idx_at (rg_data published_region) demo_queue - q_next_avail demo_queue)
      \<le> unat (q_size demo_queue)"
    by code_simp
  have "pop_descriptor_chain (single_region LittleEndian) demo_queue published_region =
      (demo_queue\<lparr>q_next_avail := 1\<rparr>, Some (chain_new 256 2 1))"
    using guest_mem.pop_pending(1) [OF single_region_laws published_live n] by (simp add: demo_pending) (simp add: demo_queue_def)
  from device_pop [OF this, of rg_data sr_acc "empty_log\<lparr>lg_published := [1]\<rparr>"]
  have "vq_step (single_region LittleEndian) rg_data sr_acc demo_published demo_popped"
    by (simp add: demo_published_def demo_popped_def empty_log_def chain_new_def chain_with_ttl_def)
  with demo_publish_step show ?thesis by (blast intro: run_refl run_step)
qed

lemma demo_add_used:
  "\<exists>m. add_used (single_region LittleEndian) (vq_queue demo_popped) published_region 1 7 =
     (demo_queue\<lparr>q_next_avail := 1, q_next_used := 1, q_num_added := 1\<rparr>, m, Inr ())"
proof -
  have "wf_queue (vq_queue demo_popped)" "used_ring_acc sr_acc (vq_queue demo_popped) published_region"
    using published_live by (simp_all add: queue_live_def wf_queue_def used_ring_acc_def demo_popped_def)
  from guest_mem.add_used_effect [OF single_region_laws this, of 1 LittleEndian 7] show ?thesis
    by (auto simp: demo_popped_def demo_queue_def)
qed

lemma demo_run_completed: "vq_run (single_region LittleEndian) rg_data sr_acc demo_start demo_completed"
proof -
  from demo_add_used obtain m where m: "add_used (single_region LittleEndian) (vq_queue demo_popped)
      published_region 1 7 = (demo_queue\<lparr>q_next_avail := 1, q_next_used := 1, q_num_added := 1\<rparr>, m, Inr ())" ..
  from device_complete [OF this, of rg_data sr_acc "vq_log demo_popped"]
  have "vq_step (single_region LittleEndian) rg_data sr_acc demo_popped demo_completed"
    using m by (simp add: demo_completed_def) (simp add: demo_popped_def)
  with demo_run show ?thesis by (rule run_step)
qed

section \<open>The driver and the device interleaved\<close>

text \<open>C1. Driver and device interleaved arbitrarily from a fresh queue, over any guest memory: the heads
  the driver published are the heads the device has popped followed by those pending in the available
  ring. So heads are popped in order, each once and none lost; at most the queue size is pending, and
  \<open>pop_descriptor_chain\<close> takes the oldest pending head, or none exactly if there is none.\<close>

theorem virtqueue_fifo:
  assumes "guest_mem G peek acc" and "vq_init peek acc s" and "vq_run G peek acc s s'"
  defines "q \<equiv> vq_queue s'" and "m \<equiv> vq_mem s'"
  shows "lg_published (vq_log s') = lg_popped (vq_log s') @ pending_heads (peek m) q \<and>
    length (pending_heads (peek m) q) \<le> unat (q_size q) \<and>
    pop_descriptor_chain G q m =
      (case pending_heads (peek m) q of
         [] \<Rightarrow> (q, None)
       | h # hs \<Rightarrow> (q\<lparr>q_next_avail := q_next_avail q + 1\<rparr>,
                    Some (chain_new (q_desc_table q) (q_size q) h)))"
proof -
  have inv: "vq_inv peek acc s'"
    by (rule guest_mem.vq_inv_run [OF assms(1,3) vq_init_inv [OF assms(2)]])
  then show ?thesis
    using guest_mem.pop_pending(1) [OF assms(1), of q m]
    by (simp add: vq_inv_def q_def m_def) (simp add: pending_heads_def)
qed

theorem virtqueue_fifo_witness:
  "vq_init rg_data sr_acc demo_start \<and> vq_run (single_region LittleEndian) rg_data sr_acc demo_start demo_popped \<and>
   lg_published (vq_log demo_popped) = [1] \<and>
   lg_published (vq_log demo_popped) =
     lg_popped (vq_log demo_popped) @ pending_heads (rg_data (vq_mem demo_popped)) (vq_queue demo_popped)"
  using virtqueue_fifo [OF single_region_laws demo_init demo_run] demo_init demo_run
  by (simp add: demo_popped_def)

text \<open>C2. In every such execution the used ring shows the driver the device's completions: the index in
  memory is the device's \<open>next_used\<close>, and the most recent completions, up to the queue size, stand in
  their slots with their head and their length.\<close>

theorem virtqueue_completions:
  assumes "guest_mem G peek acc" and "vq_init peek acc s" and "vq_run G peek acc s s'"
  shows "used_idx_at (peek (vq_mem s')) (vq_queue s') = q_next_used (vq_queue s') \<and>
    (\<forall>j < min (unat (q_size (vq_queue s'))) (length (lg_completed (vq_log s'))).
       used_elem_at (peek (vq_mem s')) (vq_queue s') (q_next_used (vq_queue s') - of_nat (Suc j)) =
         \<lparr>ue_id = ucast (fst (rev (lg_completed (vq_log s')) ! j)),
          ue_len = snd (rev (lg_completed (vq_log s')) ! j)\<rparr>)"
  using guest_mem.vq_inv_run [OF assms(1,3) vq_init_inv [OF assms(2)]]
  by (simp add: vq_inv_def completed_ok_def)

theorem virtqueue_completions_witness:
  "vq_init rg_data sr_acc demo_start \<and>
   vq_run (single_region LittleEndian) rg_data sr_acc demo_start demo_completed \<and>
   used_idx_at (rg_data (vq_mem demo_completed)) (vq_queue demo_completed) = 1 \<and>
   used_elem_at (rg_data (vq_mem demo_completed)) (vq_queue demo_completed) 0 = \<lparr>ue_id = 1, ue_len = 7\<rparr>"
proof -
  have "q_next_used (vq_queue demo_completed) = 1" "q_size (vq_queue demo_completed) = 2"
      "lg_completed (vq_log demo_completed) = [(1, 7)]"
    using demo_add_used by (auto simp: demo_completed_def demo_queue_def)
  then show ?thesis
    using virtqueue_completions [OF single_region_laws demo_init demo_run_completed]
      demo_init demo_run_completed by simp
qed

text \<open>C3. No wake-up is lost: in every reachable state \<open>enable_notification\<close> succeeds, leaves the rings
  unchanged and returns true exactly if the driver has published a head the device has not popped.\<close>

theorem enable_notification_no_lost_head:
  assumes "guest_mem G peek acc" and "vq_init peek acc s" and "vq_run G peek acc s s'"
  shows "\<exists>m'. enable_notification G (vq_queue s') (vq_mem s') =
      (m', Inr (lg_popped (vq_log s') \<noteq> lg_published (vq_log s'))) \<and>
    same_rings (vq_queue s') (peek m') (peek (vq_mem s'))"
proof -
  have "vq_inv peek acc s'"
    by (rule guest_mem.vq_inv_run [OF assms(1,3) vq_init_inv [OF assms(2)]])
  then show ?thesis
    using guest_mem.enable_notification_pending [OF assms(1), of "vq_queue s'" "vq_mem s'"]
    by (auto simp: vq_inv_def)
qed

theorem enable_notification_no_lost_head_witness:
  "vq_run (single_region LittleEndian) rg_data sr_acc demo_start demo_published \<and>
   (\<exists>m'. enable_notification (single_region LittleEndian) demo_queue published_region = (m', Inr True))"
proof -
  have run: "vq_run (single_region LittleEndian) rg_data sr_acc demo_start demo_published"
    by (rule run_step [OF run_refl demo_publish_step])
  show ?thesis
    using enable_notification_no_lost_head [OF single_region_laws demo_init run] run
    by (auto simp: demo_published_def empty_log_def)
qed

section \<open>The device operations on the rings\<close>



text \<open>C20. Whatever guest memory contains, an iterator over the available heads ends: it yields at most
  as many chains as the queue has entries.\<close>

theorem avail_iter_bounded:
  assumes "queue_iter G q m = Inr it"
  shows "length (avail_iter_collect G m it) \<le> unat (q_size q)"
  using avail_iter_collect_length [of G m it] queue_iter_bound(1) [OF assms] by linarith

theorem avail_iter_bounded_witness:
  "queue_iter (single_region LittleEndian) demo_queue published_region = Inr demo_iter \<and>
   length (avail_iter_collect (single_region LittleEndian) published_region demo_iter) \<le> 2"
  using avail_iter_bounded [OF demo_queue_iter] demo_queue_iter by (simp add: demo_queue_def)

text \<open>C21. Draining the iterator of a ready queue yields, in order, one chain for every head between
  \<open>next_avail\<close> and the driver's index; an index more than the queue size ahead is rejected.\<close>

theorem queue_iter_drains_heads:
  assumes "guest_mem G peek acc" and "wf_queue q" and "avail_ring_acc acc q m" and "q_ready q"
    and "q_avail_ring q \<noteq> 0"
  shows "map_sum id (avail_iter_collect G m) (queue_iter G q m) =
    (if unat (avail_idx_at (peek m) q - q_next_avail q) \<le> unat (q_size q)
     then Inr (map (chain_new (q_desc_table q) (q_size q)) (pending_heads (peek m) q))
     else Inl InvalidAvailRingIndex)"
  using guest_mem.queue_iter_ok [OF assms] guest_mem.avail_iter_collect_heads [OF assms(1-3)]
  by (simp add: pending_heads_def comp_def)

theorem queue_iter_drains_heads_witness:
  "map_sum id (avail_iter_collect (single_region LittleEndian) published_region)
     (queue_iter (single_region LittleEndian) demo_queue published_region) = Inr [chain_new 256 2 1]"
proof -
  have "q_next_avail demo_queue = 0" "q_desc_table demo_queue = 256" "q_size demo_queue = 2"
    by (simp_all add: demo_queue_def)
  then show ?thesis
    using queue_iter_drains_heads [OF single_region_laws, of demo_queue published_region LittleEndian]
      published_live published_indices demo_pending
    by (simp add: queue_live_def)
qed

text \<open>C16. \<open>add_used\<close> refuses a head that is no index of the descriptor table before it writes anything.
  For a valid head it succeeds: the element is in the slot of \<open>next_used\<close>, the index published in memory
  and \<open>next_used\<close> and \<open>num_added\<close> are one more, and nothing else changes, neither another slot of the
  used ring nor any memory outside that ring.\<close>

theorem add_used_publishes:
  assumes "guest_mem G peek acc" and "wf_queue q" and "used_ring_acc acc q m"
  shows "if h < q_size q
    then \<exists>m'. add_used G q m h len =
        (q\<lparr>q_next_used := q_next_used q + 1, q_num_added := q_num_added q + 1\<rparr>, m', Inr ()) \<and>
      used_elem_at (peek m') q (q_next_used q) = \<lparr>ue_id = ucast h, ue_len = len\<rparr> \<and>
      used_idx_at (peek m') q = q_next_used q + 1 \<and>
      (\<forall>i. unat i mod unat (q_size q) \<noteq> unat (q_next_used q) mod unat (q_size q) \<longrightarrow>
         used_elem_at (peek m') q i = used_elem_at (peek m) q i) \<and>
      (\<forall>b k. disjoint_ranges b k (q_used_ring q) (6 + 8 * unat (q_size q)) \<longrightarrow> unat b + k \<le> 2 ^ 64 \<longrightarrow>
         peek_bytes (peek m') b k = peek_bytes (peek m) b k)
    else add_used G q m h len = (q, m, Inl InvalidDescriptorIndex)"
proof (cases "h < q_size q")
  case True
  obtain q' m' r where eq: "add_used G q m h len = (q', m', r)" by (metis prod.collapse)
  note rb = guest_mem.add_used_readback [OF assms True eq]
  have "add_used G q m h len =
      (q\<lparr>q_next_used := q_next_used q + 1, q_num_added := q_num_added q + 1\<rparr>, m', Inr ())"
    using eq rb(1,3) by simp
  then show ?thesis using True rb(4-7) by auto
qed (simp add: add_used_def not_less)

theorem add_used_publishes_witness:
  "\<exists>m'. add_used (single_region LittleEndian) demo_queue zero_region 1 7 =
      (demo_queue\<lparr>q_next_used := 1, q_num_added := 1\<rparr>, m', Inr ()) \<and>
    used_elem_at (rg_data m') demo_queue 0 = \<lparr>ue_id = 1, ue_len = 7\<rparr>"
proof -
  have "queue_live sr_acc demo_queue zero_region"
    by (rule demo_live) (simp_all add: zero_region_def demo_region_def)
  moreover have "q_next_used demo_queue = 0" "q_num_added demo_queue = 0" "q_size demo_queue = 2"
    by (simp_all add: demo_queue_def)
  ultimately show ?thesis
    using add_used_publishes [OF single_region_laws, where q = demo_queue and m = zero_region and h = 1 and len = 7]
    by (simp add: queue_live_def) blast
qed

section \<open>Notification suppression\<close>

lemma demo_used_event:
  assumes "wf_queue q" and "q_size q = 2" and "q_avail_ring q = 512"
  shows "used_event (single_region LittleEndian) q zero_region Relaxed = Inr 0"
proof -
  have "le_word (peek_bytes (rg_data zero_region) 520 2) = (0 :: u16)" by code_simp
  moreover have "avail_ring_acc sr_acc q zero_region"
    using assms by (simp add: avail_ring_acc_def sr_acc_def zero_region_def demo_region_def)
  ultimately show ?thesis
    using guest_mem.used_event_value [OF single_region_laws assms(1), of zero_region Relaxed LittleEndian] assms
    by (simp add: load_order_def)
qed

text \<open>C14. With \<open>VIRTIO_F_RING_EVENT_IDX\<close> the driver is notified exactly if the index it asked for,
  \<open>used_event\<close>, is among the entries added to the used ring since the last check, also when the 16-bit
  indices wrap around; the count of added entries starts again.\<close>

theorem needs_notification_window:
  assumes "q_event_idx_enabled q" and "used_event G q m Relaxed = Inr e"
  shows "needs_notification G q m =
    (q\<lparr>q_num_added := 0\<rparr>,
     Inr (\<exists>k < unat (q_num_added q). e = q_next_used q - q_num_added q + of_nat k))"
  by (rule needs_notification_event_idx [OF assms])

theorem needs_notification_window_witness:
  "\<exists>r. needs_notification (single_region LittleEndian) (demo_queue\<lparr>q_next_used := 1, q_num_added := 3\<rparr>)
       zero_region = (demo_queue\<lparr>q_next_used := 1, q_num_added := 0\<rparr>, Inr r) \<and> r"
proof -
  let ?q = "demo_queue\<lparr>q_next_used := 1, q_num_added := 3\<rparr>"
  have e: "used_event (single_region LittleEndian) ?q zero_region Relaxed = Inr 0"
    using wf_demo_queue by (intro demo_used_event) (simp_all add: demo_queue_def wf_queue_def)
  have "q_event_idx_enabled ?q" by (simp add: demo_queue_def)
  from needs_notification_window [OF this e] show ?thesis
    by (auto intro!: exI [of _ "2 :: nat"])
qed

end
