(* ===== verification/Config_Properties.thy ===== *)
theory Config_Properties
  imports Queue_Properties
begin

text \<open>
  Properties of the configuration of a queue: its validity under every sequence of operations, shared
  access through \<open>QueueSync\<close>, saving and restoring, the check \<open>is_valid\<close>, and the notification harness
  of \<open>verification.rs\<close> for every choice of its inputs.
\<close>

section \<open>Sequences of operations\<close>

lemma wf_queue_run: "wf_queue q \<Longrightarrow> wf_queue (fst (fst (queue_run G ops (q, m))))"
  by (rule queue_impl.reach_inv [OF queue_run_reach]) simp

text \<open>C25. A queue created by \<open>Queue::new\<close> stays well formed under every sequence of operations of the
  trait, with any arguments and in any guest memory: sizes are powers of two, at most the maximum size,
  and the ring addresses are aligned.\<close>

theorem queue_always_wf:
  assumes "queue_new n = Inr q"
  shows "wf_queue (fst (fst (queue_run G ops (q, m))))"
  by (rule wf_queue_run [OF wf_queue_new [OF assms]])

theorem queue_always_wf_witness:
  "\<exists>q. queue_new 16 = Inr q \<and>
     wf_queue (fst (fst (queue_run (single_region LittleEndian)
       [OpSetSize 8, OpSetSize 7, OpSetDescTableAddress (Some 0x1008) None, OpAddUsed 3 4] (q, zero_region))))"
proof -
  obtain q where q: "queue_new 16 = Inr q" by (simp add: queue_new_Inr MAX_QUEUE_SIZE_def pow2_check_def)
  from queue_always_wf [OF q, of "single_region LittleEndian"] q show ?thesis by blast
qed



section \<open>Saving and restoring\<close>

text \<open>C27. Save and restore through the serializable state: a queue that operations have produced comes
  back as it was, apart from the count of entries added since the last notification check, and saving
  it again gives the same serialized state.\<close>

theorem queue_save_restore:
  assumes "queue_new n = Inr q0" and "q = fst (fst (queue_run G ops (q0, m)))"
  shows "queue_try_from (state_of_ser (ser_of_state (queue_state_of q))) = Inr (q\<lparr>q_num_added := 0\<rparr>) \<and>
    ser_of_state (queue_state_of (q\<lparr>q_num_added := 0\<rparr>)) = ser_of_state (queue_state_of q)"
proof -
  have "wf_queue q"
    unfolding assms(2) by (rule wf_queue_run [OF wf_queue_new [OF assms(1)]])
  then have "queue_try_from (queue_state_of q) = Inr (q\<lparr>q_num_added := 0\<rparr>)"
    by (simp add: queue_try_from_valid state_valid_of_queue queue_of_state_of)
  then show ?thesis by (simp add: queue_state_of_def)
qed

theorem queue_save_restore_witness:
  "\<exists>q. queue_new 16 = Inr q \<and>
     queue_try_from (state_of_ser (ser_of_state (queue_state_of (q\<lparr>q_next_avail := 3\<rparr>)))) = Inr (q\<lparr>q_next_avail := 3\<rparr>)"
proof -
  obtain q where q: "queue_new 16 = Inr q" "q_num_added q = 0"
    by (simp add: queue_new_Inr MAX_QUEUE_SIZE_def pow2_check_def)
  have "q\<lparr>q_next_avail := 3\<rparr> =
      fst (fst (queue_run (single_region LittleEndian) [OpSetNextAvail 3] (q, zero_region)))"
    by (simp add: set_next_avail_def)
  from queue_save_restore [OF q(1) this] q show ?thesis by (intro exI [of _ q]) (cases q; simp)
qed

text \<open>The count that is not saved can matter: with an entry added and the driver waiting for it, the
  queue would notify, the restored queue does not.\<close>

lemma restore_misses_notification:
  fixes q :: queue
  defines "q \<equiv> demo_queue\<lparr>q_next_used := 1, q_num_added := 1\<rparr>"
  shows "snd (needs_notification (single_region LittleEndian) q zero_region) = Inr True \<and>
    queue_try_from (queue_state_of q) = Inr (q\<lparr>q_num_added := 0\<rparr>) \<and>
    snd (needs_notification (single_region LittleEndian) (q\<lparr>q_num_added := 0\<rparr>) zero_region) = Inr False"
proof -
  have wf: "wf_queue (q\<lparr>q_num_added := n\<rparr>)" for n
    using wf_demo_queue by (simp add: q_def wf_queue_def demo_queue_def)
  have ue: "used_event (single_region LittleEndian) (q\<lparr>q_num_added := n\<rparr>) zero_region Relaxed = Inr 0" for n
    by (rule demo_used_event [OF wf]) (simp_all add: q_def demo_queue_def)
  have ev: "q_event_idx_enabled (q\<lparr>q_num_added := n\<rparr>)" for n by (simp add: q_def demo_queue_def)
  have q1: "q\<lparr>q_num_added := 1\<rparr> = q" by (simp add: q_def)
  have "queue_try_from (queue_state_of q) = Inr (q\<lparr>q_num_added := 0\<rparr>)"
    using wf [of 1] by (simp add: queue_try_from_valid state_valid_of_queue queue_of_state_of q1)
  moreover note needs_notification_event_idx [OF ev ue, of 1] needs_notification_event_idx [OF ev ue, of 0]
  ultimately show ?thesis by (simp add: q1) (simp add: q_def)
qed

section \<open>The check of the configuration\<close>

context guest_mem
begin

lemma set_notification_ok:
  assumes wf: "wf_queue q" and used: "used_ring_acc acc q m"
  shows "\<exists>m'. set_notification G q m en = (m', Inr ()) \<and> acc m' = acc m"
proof -
  have st: "\<exists>m'. store_u16 G m (q_used_ring q + of_nat k) (to_le (gm_endian G) v) Relaxed = (m', Inr ()) \<and>
      acc m' = acc m" if "k = 0 \<or> k = 4 + 8 * unat (q_size q)" for k v
  proof -
    note f = used_field_acc [OF wf used, of k 2]
    have "\<exists>m'. store_u16 G m (q_used_ring q + of_nat k) (to_le (gm_endian G) v) Relaxed = (m', Inr ()) \<and>
      peek m' = poke (peek m) (q_used_ring q + of_nat k) (le_bytes 2 v) \<and> acc m' = acc m"
      using f that by (intro store_u16_le) (auto simp: store_order_def)
    then show ?thesis by blast
  qed
  have "checked_add (q_used_ring q) (of_nat (4 + 8 * unat (q_size q))) =
      Some (q_used_ring q + of_nat (4 + 8 * unat (q_size q)))"
    using used_field_acc(3) [OF wf used, of "4 + 8 * unat (q_size q)" 2] by (intro checked_add_of_nat) simp
  then show ?thesis
    using st [of 0 0] st [of 0 "ucast VRING_USED_F_NO_NOTIFY"] st [of "4 + 8 * unat (q_size q)" "q_next_avail q"]
    by (cases en; cases "q_event_idx_enabled q")
      (auto simp: set_notification_def set_avail_event_def set_used_flags_def queue_const_defs
        u64_of_slot simp del: of_nat_add of_nat_mult)
qed

lemma ring_operations_ok:
  assumes wf: "wf_queue q" and av: "avail_ring_acc acc q m" and used: "used_ring_acc acc q m"
  shows "\<exists>i. avail_idx G q m Acquire = Inr i" and "\<exists>i. used_idx G q m Acquire = Inr i"
    and "h < q_size q \<Longrightarrow> \<exists>q' m'. add_used G q m h len = (q', m', Inr ())"
    and "\<exists>m' b. enable_notification G q m = (m', Inr b)"
    and "\<exists>m'. disable_notification G q m = (m', Inr ())"
    and "\<exists>q' b. needs_notification G q m = (q', Inr b)"
proof -
  show "\<exists>i. avail_idx G q m Acquire = Inr i" "\<exists>i. used_idx G q m Acquire = Inr i"
    using avail_idx_value [OF wf av, of Acquire] used_idx_value [OF wf used, of Acquire]
    by (auto simp: load_order_def)
  show "\<exists>q' m'. add_used G q m h len = (q', m', Inr ())" if "h < q_size q"
    using add_used_effect [OF wf used that] by blast
  show "\<exists>m'. disable_notification G q m = (m', Inr ())"
    using set_notification_ok [OF wf used, of False] by (auto simp: disable_notification_def)
  obtain m' where m': "set_notification G q m True = (m', Inr ())" "acc m' = acc m"
    using set_notification_ok [OF wf used] by blast
  then have "avail_ring_acc acc q m'" using av by (simp add: avail_ring_acc_def)
  from avail_idx_value [OF wf this, of Relaxed] m' show "\<exists>m' b. enable_notification G q m = (m', Inr b)"
    by (auto simp: enable_notification_def load_order_def)
  show "\<exists>q' b. needs_notification G q m = (q', Inr b)"
    using used_event_value [OF wf av, of Relaxed] by (auto simp: needs_notification_def load_order_def Let_def)
qed

end

lemmas demo_valid_defs = is_valid_def Let_def end_out_of_range_def checked_add_def queue_const_defs
  sr_address_in_range_def sr_find_region_def to_region_addr_def single_region_def

text \<open>On memory that starts at address 0 a well-formed queue that passes \<open>is_valid\<close> is usable: its
  descriptor table and rings are accessible, and no ring operation fails.\<close>

theorem valid_queue_usable:
  assumes "wf_queue q" and "is_valid (single_region e) q m" and "rg_base m = 0"
  shows "sr_acc m (q_desc_table q) (16 * unat (q_size q)) \<and>
    (\<exists>i. avail_idx (single_region e) q m Acquire = Inr i) \<and>
    (\<exists>i. used_idx (single_region e) q m Acquire = Inr i) \<and>
    (\<forall>h len. h < q_size q \<longrightarrow> (\<exists>q' m'. add_used (single_region e) q m h len = (q', m', Inr ()))) \<and>
    (\<exists>m' b. enable_notification (single_region e) q m = (m', Inr b)) \<and>
    (\<exists>m'. disable_notification (single_region e) q m = (m', Inr ())) \<and>
    (\<exists>q' b. needs_notification (single_region e) q m = (q', Inr b))"
  using is_valid_acc(1) [OF assms(2,3)]
    guest_mem.ring_operations_ok [OF single_region_laws assms(1) is_valid_acc(2,3) [OF assms(2,3)]]
  by blast

theorem valid_queue_usable_witness:
  "wf_queue demo_queue \<and> is_valid (single_region LittleEndian) demo_queue zero_region \<and>
   (\<exists>m' b. enable_notification (single_region LittleEndian) demo_queue zero_region = (m', Inr b))"
proof -
  have v: "is_valid (single_region LittleEndian) demo_queue zero_region"
    by (simp add: demo_valid_defs demo_queue_def zero_region_def demo_region_def)
  have "rg_base zero_region = 0" by (simp add: zero_region_def demo_region_def)
  from valid_queue_usable [OF wf_demo_queue v this] v wf_demo_queue show ?thesis by blast
qed

text \<open>The check looks at the end of each part only. On memory with a higher base a queue whose descriptor
  table starts below the memory passes it; on the other hand an available ring that ends with the
  memory, every byte of it in range, does not pass.\<close>

lemma is_valid_start_unchecked:
  "is_valid (single_region LittleEndian)
     (demo_queue\<lparr>q_desc_table := 4080, q_avail_ring := 4200, q_used_ring := 4300\<rparr>)
     \<lparr>rg_base = 4096, rg_size = 4096, rg_data = \<lambda>_. 0\<rparr> \<and>
   read_split_desc (single_region LittleEndian) \<lparr>rg_base = 4096, rg_size = 4096, rg_data = \<lambda>_. 0\<rparr> 4080 =
     Inl (InvalidGuestAddress 4080)"
  by (simp add: demo_valid_defs demo_queue_def read_split_desc_def sr_read_slice_def sr_try_access_def)

lemma is_valid_rejects_exact_end:
  "\<not> is_valid (single_region LittleEndian) (demo_queue\<lparr>q_size := 1, q_avail_ring := 4088\<rparr>) zero_region \<and>
   (\<forall>i < 8. sr_address_in_range zero_region (4088 + of_nat i))"
proof -
  have "sr_address_in_range zero_region (4088 + of_nat i)" if "i < 8" for i
  proof -
    have "unat (4088 + of_nat i :: u64) = 4088 + i"
      using unat_add_of_nat [of "4088 :: u64" i] that by simp
    then show ?thesis
      using that by (simp add: sr_address_in_range_def sr_find_region_def to_region_addr_def
          zero_region_def demo_region_def)
  qed
  moreover have "\<not> is_valid (single_region LittleEndian) (demo_queue\<lparr>q_size := 1, q_avail_ring := 4088\<rparr>) zero_region"
    by (simp add: demo_valid_defs demo_queue_def zero_region_def demo_region_def)
  ultimately show ?thesis by blast
qed

section \<open>The notification harness\<close>

text \<open>C28. The harness \<open>verify_spec_2_7_7_2\<close> holds: for every choice of its inputs that meets its
  assumptions no \<open>unwrap\<close> fails and every assertion it reaches is true, in either byte order.\<close>

theorem kani_harness_holds:
  assumes "proof_context_any e k = Some (q, m)"
  shows "verify_spec_2_7_7_2 (single_region e) q m = Some True"
  using guest_mem.verify_spec_holds [OF single_region_laws proof_context_any_Some(1) [OF assms]
      is_valid_acc(2) [OF proof_context_any_Some(2,3) [OF assms]]] .

definition demo_choice :: kani_choice where
  "demo_choice =
     \<lparr>kc_desc_tbl_queue_size = 64, kc_avail_ring_queue_size = 14, kc_used_ring_queue_size = 40,
      kc_bytes = \<lambda>_. 0, kc_next_avail = 0, kc_next_used = 1, kc_event_idx = True, kc_num_added = 1\<rparr>"

text \<open>The harness's assumptions leave the address of the used ring at 0: the sizes add up to \<open>QUEUE_END\<close>,
  which is 2 modulo 4, the size of the used ring is a multiple of 4, so the address chosen for it is
  never aligned and \<open>set_used_ring_address\<close> drops it.\<close>

lemmas kani_const_defs = QUEUE_END_def MAX_START_USED_RING_BASE_ADDRESS_def
  MAX_START_AVAIL_RING_BASE_ADDRESS_def QUEUE_BASE_ADDRESS_def GUEST_MEMORY_BASE_def
  GUEST_MEMORY_SIZE_def KANI_MAX_QUEUE_SIZE_def

lemma kani_used_base_unaligned:
  assumes "QUEUE_END = a + ucast (n :: u16)" and "n AND 3 = 0"
  shows "a AND 3 \<noteq> 0"
proof
  assume "a AND 3 = 0"
  then have "4 dvd unat a" and "4 dvd unat n" using assms(2) by (simp_all add: and_alignment)
  then have "4 dvd (unat a + unat n) mod 2 ^ 64" by (simp add: dvd_mod_iff)
  then have "4 dvd unat (a + ucast n)" by (simp add: unat_word_ariths)
  moreover have "unat QUEUE_END = 118"
    by (simp add: kani_const_defs)
  ultimately show False using assms(1) by simp
qed

lemma kani_used_ring_zero:
  assumes "proof_context_any e k = Some (q, m)"
  shows "q_used_ring q = 0"
proof -
  let ?a = "QUEUE_BASE_ADDRESS + ucast (kc_desc_tbl_queue_size k)"
  let ?u = "?a + ucast (kc_avail_ring_queue_size k) :: u64"
  have "QUEUE_END = ?u + ucast (kc_used_ring_queue_size k)" "kc_used_ring_queue_size k AND 3 = 0"
    using assms by (simp_all add: proof_context_any_def Let_def split: if_splits)
  then have u: "?u AND 3 \<noteq> 0" by (rule kani_used_base_unaligned)
  have keep: "q_used_ring (set_desc_table_address q' l h) = q_used_ring q'"
      "q_used_ring (set_avail_ring_address q' l h) = q_used_ring q'" for q' l h
    by (simp_all add: set_desc_table_address_def set_avail_ring_address_def
        try_set_desc_table_address_def try_set_avail_ring_address_def)
  have drop: "set_used_ring_address q' (Some (ucast ?u)) (Some (ucast (drop_bit 32 ?u))) = q'" for q'
    using u by (simp add: set_used_ring_address_def try_set_used_ring_address_def compose_address_both)
  show ?thesis
    using assms
    by (auto simp: proof_context_any_def Let_def drop keep queue_new_Inr set_next_avail_def
        set_next_used_def set_event_idx_def split: if_splits sum.splits)
qed

theorem kani_harness_holds_witness:
  "\<exists>q m. proof_context_any LittleEndian demo_choice = Some (q, m) \<and>
     verify_spec_2_7_7_2 (single_region LittleEndian) q m = Some True"
proof -
  have q: "queue_new 4 = Inr \<lparr>q_max_size = 4, q_next_avail = 0, q_next_used = 0, q_event_idx_enabled = False,
      q_num_added = 0, q_size = 4, q_ready = False, q_desc_table = 0, q_avail_ring = 0, q_used_ring = 0\<rparr>"
    by (simp add: queue_new_Inr MAX_QUEUE_SIZE_def pow2_check_def)
  have a: "compose_address 0 (Some 64) (Some 0) = 64" "compose_address 0 (Some 78) (Some 0) = 78"
      "compose_address 0 (Some 0) (Some 0) = 0"
    by (simp_all add: compose_address_def)
  have "proof_context_any LittleEndian demo_choice \<noteq> None"
    by (simp add: proof_context_any_def q a demo_choice_def kani_guest_memory_def kani_const_defs
        set_desc_table_address_def set_avail_ring_address_def set_used_ring_address_def
        try_set_desc_table_address_def try_set_avail_ring_address_def try_set_used_ring_address_def
        set_next_avail_def set_next_used_def set_event_idx_def demo_valid_defs)
  then obtain q m where "proof_context_any LittleEndian demo_choice = Some (q, m)" by auto
  from kani_harness_holds [OF this] this show ?thesis by blast
qed

end
