(* ===== verification/Chain_Properties.thy ===== *)
theory Chain_Properties
  imports Queue_Properties
begin

text \<open>
  Properties of descriptor chains and of the byte streams \<open>Reader\<close> and \<open>Writer\<close> make of their buffers.
\<close>

section \<open>Concrete chains for the instances\<close>

text \<open>A device-readable buffer of 16 bytes followed by a device-writable one of 8 bytes.\<close>

definition demo_d0 :: split_desc where
  "demo_d0 = split_desc_new 1024 16 1 1"

definition demo_d1 :: split_desc where
  "demo_d1 = split_desc_new 2048 8 2 0"

definition chain_region :: region where
  "chain_region =
     demo_region (poke (poke (\<lambda>_. 0) 256 (split_desc_bytes demo_d0)) 272 (split_desc_bytes demo_d1))"

text \<open>The same chain in an indirect table at 3072, which entry 0 of the table at 256 refers to.\<close>

definition demo_indirect :: split_desc where
  "demo_indirect = split_desc_new 3072 32 4 0"

definition indirect_region :: region where
  "indirect_region =
     demo_region (poke (poke (poke (\<lambda>_. 0) 256 (split_desc_bytes demo_indirect)) 3072 (split_desc_bytes demo_d0))
       3088 (split_desc_bytes demo_d1))"

lemma demo_read_desc:
  assumes "unat a + 16 < 4096" and "peek_bytes f a 16 = split_desc_bytes d"
  shows "read_split_desc (single_region LittleEndian) (demo_region f) a = Inr d"
proof -
  have "sr_acc (demo_region f) a 16" using assms(1) by (simp add: sr_acc_def demo_region_def)
  from guest_mem.read_law [OF single_region_laws this, of LittleEndian] assms(2) show ?thesis
    by (simp add: read_split_desc_def) (simp add: demo_region_def)
qed

lemma demo_laid_out: "laid_out (single_region LittleEndian) chain_region 256 2 0 [demo_d0, demo_d1]"
proof -
  have "read_split_desc (single_region LittleEndian) chain_region 256 = Inr demo_d0"
      "read_split_desc (single_region LittleEndian) chain_region 272 = Inr demo_d1"
    unfolding chain_region_def
    by (rule demo_read_desc;
        simp add: peek_field_poke_same peek_bytes_poke_disjoint disjoint_ranges_def)+
  then show ?thesis
    by (simp add: table_entry_def demo_d0_def demo_d1_def flag_simps)
qed


section \<open>Iterating over a chain\<close>

text \<open>C19. Whatever the driver put into memory, iterating over a chain ends: it yields at most the queue
  size plus 65534 descriptors, of less than \<open>2\<^sup>3\<^sup>2\<close> bytes in total, and never one that refers to an
  indirect table.\<close>

theorem chain_iteration_bounded:
  "length (chain_collect G m (chain_new tbl qs h)) \<le> unat qs + 65534 \<and>
   sum_list (map (\<lambda>d. unat (sd_len d)) (chain_collect G m (chain_new tbl qs h))) < 2 ^ 32 \<and>
   list_all (\<lambda>d. \<not> refers_to_indirect_table d) (chain_collect G m (chain_new tbl qs h))"
  using chain_collect_length [of G m "chain_new tbl qs h"] chain_collect_bytes [of "chain_new tbl qs h" G m]
    chain_collect_direct [of G m "chain_new tbl qs h"]
  by (simp add: chain_bound_def chain_new_def chain_with_ttl_def list_all_iff)

text \<open>C17. A chain laid out in the descriptor table, from its head along the next fields, is yielded
  exactly: the same descriptors in the same order.\<close>

theorem chain_direct_exact:
  assumes "laid_out G m tbl qs h ds" and "length ds \<le> unat qs"
    and "sum_list (map (\<lambda>d. unat (sd_len d)) ds) < 2 ^ 32"
  shows "chain_collect G m (chain_new tbl qs h) = ds"
  using assms by (intro chain_collect_laid_out) (simp_all add: chain_new_def chain_with_ttl_def)

theorem chain_direct_exact_witness:
  "chain_collect (single_region LittleEndian) chain_region (chain_new 256 2 0) = [demo_d0, demo_d1]"
  using chain_direct_exact [OF demo_laid_out] by (simp add: demo_d0_def demo_d1_def)



section \<open>Reader and Writer\<close>

text \<open>Building a \<open>Reader\<close> or a \<open>Writer\<close> over any chain neither panics nor reports an overflow of the
  combined length.\<close>

theorem reader_writer_new_total:
  assumes "guest_mem G peek acc"
  shows "reader_new G m c \<noteq> None \<and> reader_new G m c \<noteq> Some (Inl DescriptorChainOverflow) \<and>
    writer_new G m c \<noteq> None \<and> writer_new G m c \<noteq> Some (Inl DescriptorChainOverflow)"
proof -
  have b: "0 + sum_list (map (\<lambda>d. unat (sd_len d)) (rw_collect G m it)) < 2 ^ 64" for it
    using rw_collect_bytes [of G m it] by simp
  show ?thesis
    using guest_mem.collect_slices_no_panic [OF assms, of m 0 "rw_collect G m (chain_readable c)"]
      guest_mem.collect_slices_no_panic [OF assms, of m 0 "rw_collect G m (chain_writable c)"]
      collect_slices_no_overflow [OF b, of G m "chain_readable c"]
      collect_slices_no_overflow [OF b, of G m "chain_writable c"]
    by (auto simp: reader_new_def writer_new_def split: option.splits sum.splits)
qed

theorem reader_writer_new_total_witness:
  "reader_new (single_region LittleEndian) indirect_region (chain_new 256 2 0) \<noteq> None"
  using reader_writer_new_total [OF single_region_laws] by blast




text \<open>C23. A \<open>Writer\<close> over separate buffers fills them as one stream: \<open>write\<close> accepts as many bytes as there
  is room for, afterwards the buffers hold these bytes and then what they held before, and no memory
  outside the buffers has changed.\<close>

theorem writer_stream:
  assumes "guest_mem G peek acc" and "consumer_ok acc m wr" and "separate (dcc_buffers wr)"
  shows "\<exists>wr' m'. writer_write G m wr data = Some (wr', m', Inr (min (length data) (lens (dcc_buffers wr)))) \<and>
    stream_of (peek m') (dcc_buffers wr) =
      take (lens (dcc_buffers wr)) data @ drop (length data) (stream_of (peek m) (dcc_buffers wr)) \<and>
    consumer_available_bytes wr' = consumer_available_bytes wr - length data \<and>
    consumer_bytes_consumed wr' = consumer_bytes_consumed wr + min (length data) (lens (dcc_buffers wr)) \<and>
    (\<forall>a k. unat a + k < 2 ^ 64 \<longrightarrow>
       (\<forall>v\<in>set (dcc_buffers wr). disjoint_ranges a k (vs_addr v) (vs_len v)) \<longrightarrow>
       peek_bytes (peek m') a k = peek_bytes (peek m) a k)"
proof -
  have nw: "\<forall>v\<in>set (dcc_buffers wr). unat (vs_addr v) + vs_len v < 2 ^ 64"
    using assms(2) guest_mem.acc_no_wrap [OF assms(1)] by (auto simp: consumer_ok_def)
  obtain wr' m' where w: "writer_write G m wr data = Some (wr', m', Inr (min (length data) (lens (dcc_buffers wr))))"
      "peek m' = pokes (peek m) data (dcc_buffers wr)"
      "dcc_bytes_consumed wr' = dcc_bytes_consumed wr + min (length data) (lens (dcc_buffers wr))"
      "lens (dcc_buffers wr') = lens (dcc_buffers wr) - length data"
    using guest_mem.writer_write_spec [OF assms, of data] by blast
  have "peek_bytes (peek m') a k = peek_bytes (peek m) a k"
    if "unat a + k < 2 ^ 64" and "\<forall>v\<in>set (dcc_buffers wr). disjoint_ranges a k (vs_addr v) (vs_len v)" for a k
    unfolding w(2) using that nw by (intro peek_pokes_other) auto
  moreover have "stream_of (peek m') (dcc_buffers wr) =
      take (lens (dcc_buffers wr)) data @ drop (length data) (stream_of (peek m) (dcc_buffers wr))"
    unfolding w(2) by (rule stream_of_pokes [OF assms(3) nw])
  ultimately show ?thesis
    using w(1,3,4) unfolding consumer_available_bytes_lens consumer_bytes_consumed_def by metis
qed

text \<open>Two separate buffers, of two and of four bytes.\<close>

definition demo_consumer :: consumer where
  "demo_consumer =
     \<lparr>dcc_buffers = [\<lparr>vs_addr = 2048, vs_len = 2\<rparr>, \<lparr>vs_addr = 1024, vs_len = 4\<rparr>], dcc_bytes_consumed = 0\<rparr>"

lemma demo_consumer_ok: "consumer_ok sr_acc zero_region demo_consumer" "separate (dcc_buffers demo_consumer)"
  by (simp_all add: consumer_ok_def demo_consumer_def separate_def sr_acc_def zero_region_def demo_region_def
      disjoint_ranges_def)

lemma zero_stream: "stream_of (rg_data zero_region) vss = replicate (lens vss) 0"
proof (induction vss)
  case (Cons v vss)
  have "peek_bytes (rg_data zero_region) a n = replicate n 0" for a n
    by (rule nth_equalityI) (simp_all add: zero_region_def demo_region_def)
  with Cons show ?case by (simp add: replicate_add)
qed simp

theorem writer_stream_witness:
  "\<exists>wr' m'. writer_write (single_region LittleEndian) zero_region demo_consumer [1, 2, 3] = Some (wr', m', Inr 3) \<and>
     stream_of (rg_data m') (dcc_buffers demo_consumer) = [1, 2, 3, 0, 0, 0] \<and> consumer_available_bytes wr' = 3"
proof -
  have "lens (dcc_buffers demo_consumer) = 6" "replicate 6 (0 :: byte) = [0, 0, 0, 0, 0, 0]"
    by (simp add: demo_consumer_def) (simp add: eval_nat_numeral)
  then show ?thesis
    using writer_stream [OF single_region_laws demo_consumer_ok, of LittleEndian "[1, 2, 3]"]
    by (auto simp: zero_stream consumer_available_bytes_lens)
qed

text \<open>C24. Splitting a \<open>Reader\<close> at an offset within its stream gives two readers of the two parts of the
  stream, also when the offset falls inside a buffer; an offset beyond the stream is refused and
  changes nothing.\<close>

theorem reader_split_stream:
  assumes "guest_mem G peek acc" and "consumer_ok acc m rd"
  defines "S \<equiv> stream_of (peek m) (dcc_buffers rd)"
  shows "if n \<le> length S
    then \<exists>r1 r2. reader_split_at G rd n = Some (r1, Inr r2) \<and> consumer_ok acc m r1 \<and> consumer_ok acc m r2 \<and>
           stream_of (peek m) (dcc_buffers r1) = take n S \<and> stream_of (peek m) (dcc_buffers r2) = drop n S \<and>
           consumer_bytes_consumed r1 = consumer_bytes_consumed rd \<and> consumer_bytes_consumed r2 = 0
    else reader_split_at G rd n = Some (rd, Inl (SplitOutOfBounds n))"
  using guest_mem.consumer_split_at_spec [OF assms(1,2), of n]
  unfolding S_def reader_split_at_def consumer_bytes_consumed_def .

theorem reader_split_stream_witness:
  "\<exists>r1 r2. reader_split_at (single_region LittleEndian) demo_consumer 3 = Some (r1, Inr r2) \<and>
     stream_of (rg_data zero_region) (dcc_buffers r1) = [0, 0, 0] \<and>
     stream_of (rg_data zero_region) (dcc_buffers r2) = [0, 0, 0]"
proof -
  have "lens (dcc_buffers demo_consumer) = 6" "replicate 3 (0 :: byte) = [0, 0, 0]"
    by (simp add: demo_consumer_def) (simp add: eval_nat_numeral)
  then show ?thesis
    using reader_split_stream [OF single_region_laws demo_consumer_ok(1), of 3 LittleEndian]
    by (auto simp: zero_stream)
qed

section \<open>The mock driver\<close>

text \<open>The mock places the used ring inside its available ring: with 16 entries from address 0 the available
  ring occupies 256 to 294, the used ring starts at 276.\<close>

lemma mock_rings_overlap:
  assumes "mock_create G m 0 16 = Some (mq, m')"
  shows "mk_avail_addr mq = 256" and "mk_used_addr mq = 276"
    and "\<not> disjoint_ranges (mk_avail_addr mq) (6 + 2 * 16) (mk_used_addr mq) (6 + 8 * 16)"
  using mock_used_addr [OF assms] by (auto simp: align_up_def checked_add_def disjoint_ranges_def)

end
