(* ===== verification/Virtio_Device.thy ===== *)
theory Virtio_Device
  imports Queue_Core
begin

text \<open>
  The traits \<open>VirtioDevice\<close> and \<open>WithDriverSelect\<close> (\<open>virtio-device/src/lib.rs\<close>) with their automatic
  implementation over \<open>VirtioConfig\<close> (\<open>virtio-device/src/virtio_config.rs\<close>): device status handshake,
  feature negotiation, configuration space and queue selection. What an implementor provides (device
  type, \<open>activate\<close>, \<open>reset\<close>, \<open>queue_notify\<close>) is the parameter record \<open>device_impl\<close>. A failing \<open>unwrap\<close> is
  the value \<open>None\<close>.
\<close>

section \<open>Status and configuration\<close>

definition VIRTIO_F_RING_EVENT_IDX :: nat where "VIRTIO_F_RING_EVENT_IDX = 29"

definition RESET :: u8 where "RESET = 0"
definition ACKNOWLEDGE :: u8 where "ACKNOWLEDGE = 1"
definition DRIVER :: u8 where "DRIVER = 2"
definition FAILED :: u8 where "FAILED = 128"
definition FEATURES_OK :: u8 where "FEATURES_OK = 8"
definition DRIVER_OK :: u8 where "DRIVER_OK = 4"
definition DEVICE_NEEDS_RESET :: u8 where "DEVICE_NEEDS_RESET = 64"

lemmas status_defs =
  RESET_def ACKNOWLEDGE_def DRIVER_def FAILED_def FEATURES_OK_def DRIVER_OK_def

record virtio_config =
  vc_device_features :: u64
  vc_driver_features :: u64
  vc_device_features_select :: u32
  vc_driver_features_select :: u32
  vc_device_status :: u8
  vc_queue_select :: u16
  vc_queues :: "queue list"
  vc_config_generation :: u8
  vc_config_space :: "byte list"
  vc_device_activated :: bool
  vc_interrupt_status :: u8

definition virtio_config_new :: "u64 \<Rightarrow> queue list \<Rightarrow> byte list \<Rightarrow> virtio_config" where
  "virtio_config_new device_features queues config_space =
     \<lparr>vc_device_features = device_features,
      vc_driver_features = 0,
      vc_device_features_select = 0,
      vc_driver_features_select = 0,
      vc_device_status = 0,
      vc_queue_select = 0,
      vc_queues = queues,
      vc_config_generation = 0,
      vc_config_space = config_space,
      vc_device_activated = False,
      vc_interrupt_status = 0\<rparr>"

text \<open>A device: its \<open>VirtioConfig\<close> and whatever else the implementor keeps.\<close>

record 'd device =
  dv_cfg :: virtio_config
  dv_inner :: 'd

record 'd device_impl =
  di_device_type :: "'d device \<Rightarrow> u32"
  di_activate :: "'d device \<Rightarrow> 'd device \<times> (nat + unit)"
  di_reset :: "'d device \<Rightarrow> 'd device \<times> (nat + unit)"
  di_queue_notify :: "'d device \<Rightarrow> u32 \<Rightarrow> 'd device"

section \<open>Accessors\<close>

definition num_queues :: "'d device \<Rightarrow> u16" where
  "num_queues d = of_nat (length (vc_queues (dv_cfg d)))"

definition dev_queue :: "'d device \<Rightarrow> u16 \<Rightarrow> queue option" where
  "dev_queue d index =
     (let qs = vc_queues (dv_cfg d) in if unat index < length qs then Some (qs ! unat index) else None)"

text \<open>A mutation through the reference \<open>queue_mut\<close> returns.\<close>

definition put_queue :: "'d device \<Rightarrow> u16 \<Rightarrow> queue \<Rightarrow> 'd device" where
  "put_queue d index q =
     d\<lparr>dv_cfg := (dv_cfg d)\<lparr>vc_queues := (vc_queues (dv_cfg d))[unat index := q]\<rparr>\<rparr>"

definition device_features :: "'d device \<Rightarrow> u64" where
  "device_features d = vc_device_features (dv_cfg d)"

definition driver_features :: "'d device \<Rightarrow> u64" where
  "driver_features d = vc_driver_features (dv_cfg d)"

definition device_status :: "'d device \<Rightarrow> u8" where
  "device_status d = vc_device_status (dv_cfg d)"

definition set_device_status :: "'d device \<Rightarrow> u8 \<Rightarrow> 'd device" where
  "set_device_status d status = d\<lparr>dv_cfg := (dv_cfg d)\<lparr>vc_device_status := status\<rparr>\<rparr>"

definition compose_features :: "u64 \<Rightarrow> u32 \<Rightarrow> u32 \<Rightarrow> u64" where
  "compose_features features page val =
     (let v = ucast val :: u64 in
      if page = 0 then push_bit 32 (drop_bit 32 features) + v
      else if page = 1 then drop_bit 32 (push_bit 32 features) + push_bit 32 v
      else features)"

definition set_driver_features :: "'d device \<Rightarrow> u32 \<Rightarrow> u32 \<Rightarrow> 'd device" where
  "set_driver_features d page val =
     d\<lparr>dv_cfg := (dv_cfg d)\<lparr>vc_driver_features :=
        compose_features (vc_driver_features (dv_cfg d)) page val\<rparr>\<rparr>"

definition read_config :: "'d device \<Rightarrow> nat \<Rightarrow> byte list \<Rightarrow> byte list" where
  "read_config d offset data =
     (let config_space = vc_config_space (dv_cfg d);
          config_len = length config_space in
      if offset \<ge> config_len then data
      else let end = min (usize_saturating_add offset (length data)) config_len;
               read_len = end - offset in
           take read_len (drop offset config_space) @ drop read_len data)"

definition write_config :: "'d device \<Rightarrow> nat \<Rightarrow> byte list \<Rightarrow> 'd device" where
  "write_config d offset data =
     (let config_space = vc_config_space (dv_cfg d);
          config_len = length config_space in
      if offset \<ge> config_len then d
      else let end = min (usize_saturating_add offset (length data)) config_len;
               write_len = end - offset in
           d\<lparr>dv_cfg := (dv_cfg d)\<lparr>vc_config_space :=
              take offset config_space @ take write_len data @ drop end config_space\<rparr>\<rparr>)"

definition queue_select :: "'d device \<Rightarrow> u16" where
  "queue_select d = vc_queue_select (dv_cfg d)"

definition set_queue_select :: "'d device \<Rightarrow> u16 \<Rightarrow> 'd device" where
  "set_queue_select d v = d\<lparr>dv_cfg := (dv_cfg d)\<lparr>vc_queue_select := v\<rparr>\<rparr>"

definition set_device_features_select :: "'d device \<Rightarrow> u32 \<Rightarrow> 'd device" where
  "set_device_features_select d v = d\<lparr>dv_cfg := (dv_cfg d)\<lparr>vc_device_features_select := v\<rparr>\<rparr>"

definition set_driver_features_select :: "'d device \<Rightarrow> u32 \<Rightarrow> 'd device" where
  "set_driver_features_select d v = d\<lparr>dv_cfg := (dv_cfg d)\<lparr>vc_driver_features_select := v\<rparr>\<rparr>"

definition selected_queue :: "'d device \<Rightarrow> queue option" where
  "selected_queue d = dev_queue d (queue_select d)"

section \<open>The status handshake\<close>

definition check_device_status :: "'d device \<Rightarrow> u8 \<Rightarrow> u8 \<Rightarrow> bool" where
  "check_device_status d set_flags cleared \<longleftrightarrow>
     device_status d AND (set_flags OR cleared) = set_flags"

text \<open>The loop over all queues that enables the event index.\<close>

fun event_idx_loop :: "u16 list \<Rightarrow> 'd device \<Rightarrow> 'd device option" where
  "event_idx_loop [] d = Some d"
| "event_idx_loop (i # js) d =
     (case dev_queue d i of
        None \<Rightarrow> None
      | Some q \<Rightarrow> event_idx_loop js (put_queue d i (set_event_idx q True)))"

definition ack_device_status :: "'d device_impl \<Rightarrow> 'd device \<Rightarrow> u8 \<Rightarrow> 'd device option" where
  "ack_device_status D d status =
     (let current_status = device_status d;
          changed = NOT current_status AND status in
      if changed = ACKNOWLEDGE \<and> current_status = RESET then Some (set_device_status d status)
      else if changed = DRIVER \<and> current_status = ACKNOWLEDGE then Some (set_device_status d status)
      else if changed = FEATURES_OK \<and> current_status = (ACKNOWLEDGE OR DRIVER) then
        (if NOT (device_features d) AND driver_features d \<noteq> 0 then Some d
         else
           case (if driver_features d AND push_bit VIRTIO_F_RING_EVENT_IDX 1 \<noteq> 0
                 then event_idx_loop (map of_nat [0..<unat (num_queues d)]) d
                 else Some d) of
             None \<Rightarrow> None
           | Some d' \<Rightarrow> Some (set_device_status d' status))
      else if changed = DRIVER_OK \<and> current_status = (ACKNOWLEDGE OR DRIVER OR FEATURES_OK) then
        (case di_activate D d of
           (d', Inr _) \<Rightarrow> Some (set_device_status d' status)
         | (d', Inl _) \<Rightarrow> Some d')
      else if status AND FAILED \<noteq> 0 then Some (set_device_status d (current_status OR FAILED))
      else if status = 0 then Some (fst (di_reset D d))
      else Some d)"

section \<open>Lemmas\<close>

lemma event_idx_loop_append:
  "event_idx_loop (js @ ks) d =
     (case event_idx_loop js d of None \<Rightarrow> None | Some d' \<Rightarrow> event_idx_loop ks d')"
  by (induction js arbitrary: d) (auto split: option.splits)

lemma event_idx_loop_upt:
  assumes "n \<le> length (vc_queues (dv_cfg d))" and "n < 65536"
  shows "event_idx_loop (map of_nat [0..<n]) d =
    Some (d\<lparr>dv_cfg := (dv_cfg d)\<lparr>vc_queues :=
      map (\<lambda>q. set_event_idx q True) (take n (vc_queues (dv_cfg d))) @ drop n (vc_queues (dv_cfg d))\<rparr>\<rparr>)"
  using assms
proof (induction n)
  case (Suc n)
  let ?qs = "vc_queues (dv_cfg d)"
  have u: "unat (of_nat n :: u16) = n" using Suc.prems(2) by (intro unat_of_nat_less) simp
  have n: "n < length ?qs" using Suc.prems by simp
  have q: "(map f (take n ?qs) @ drop n ?qs) ! n = ?qs ! n"
    and l: "(map f (take n ?qs) @ drop n ?qs)[n := f (?qs ! n)] =
      map f (take (Suc n) ?qs) @ drop (Suc n) ?qs" for f :: "queue \<Rightarrow> queue"
    using n by (simp_all add: nth_append take_Suc_conv_app_nth list_update_append
        Cons_nth_drop_Suc [OF n, symmetric])
  show ?case
    using Suc n by (simp add: event_idx_loop_append dev_queue_def put_queue_def Let_def u q
        l [of "\<lambda>q. set_event_idx q True"])
qed simp

lemma num_queues_bounds: "unat (num_queues d) \<le> length (vc_queues (dv_cfg d))" "unat (num_queues d) < 65536"
  by (simp_all add: num_queues_def unat_of_nat)

text \<open>The status handshake never fails to find a queue.\<close>

lemma ack_device_status_total: "ack_device_status D d st \<noteq> None"
  using event_idx_loop_upt [OF num_queues_bounds, of d]
  by (auto simp: ack_device_status_def Let_def split: prod.splits sum.splits)

lemma compose_features_halves:
  "ucast (compose_features f 0 v) = v" "ucast (drop_bit 32 (compose_features f 0 v)) = (ucast (drop_bit 32 f) :: u32)"
  "ucast (compose_features f 1 v) = (ucast f :: u32)" "ucast (drop_bit 32 (compose_features f 1 v)) = v"
proof -
  have a: "push_bit 32 (drop_bit 32 f) + (ucast v :: u64) = push_bit 32 (drop_bit 32 f) OR ucast v" for f :: u64 and v :: u32
    by (rule disjunctive_add) (auto simp: bit_simps dest: bit_imp_le_length)
  have b: "drop_bit 32 (push_bit 32 f) + push_bit 32 (ucast v :: u64) =
      drop_bit 32 (push_bit 32 f) OR push_bit 32 (ucast v :: u64)" for f :: u64 and v :: u32
    by (rule disjunctive_add) (auto simp: bit_simps dest: bit_imp_le_length)
  show "ucast (compose_features f 0 v) = v"
    "ucast (drop_bit 32 (compose_features f 0 v)) = (ucast (drop_bit 32 f) :: u32)"
    "ucast (compose_features f 1 v) = (ucast f :: u32)" "ucast (drop_bit 32 (compose_features f 1 v)) = v"
    by (rule bit_word_eqI, auto simp: compose_features_def a b bit_simps dest: bit_imp_le_length)+
qed

end
