(* ===== verification/Mmio.thy ===== *)
theory Mmio
  imports Virtio_Device
begin

text \<open>
  The MMIO transport \<open>VirtioMmioDevice\<close> (\<open>virtio-device/src/mmio.rs\<close>) over the register layout of
  \<open>virtio-bindings\<close>, and the device \<open>Dummy\<close> the crate defines over it
  (\<open>virtio-device/src/virtio_config.rs\<close>).
\<close>

section \<open>Registers\<close>

definition VIRTIO_MMIO_MAGIC_VALUE :: u32 where "VIRTIO_MMIO_MAGIC_VALUE = 0"
definition VIRTIO_MMIO_VERSION :: u32 where "VIRTIO_MMIO_VERSION = 4"
definition VIRTIO_MMIO_DEVICE_ID :: u32 where "VIRTIO_MMIO_DEVICE_ID = 8"
definition VIRTIO_MMIO_VENDOR_ID :: u32 where "VIRTIO_MMIO_VENDOR_ID = 12"
definition VIRTIO_MMIO_DEVICE_FEATURES :: u32 where "VIRTIO_MMIO_DEVICE_FEATURES = 16"
definition VIRTIO_MMIO_DEVICE_FEATURES_SEL :: u32 where "VIRTIO_MMIO_DEVICE_FEATURES_SEL = 20"
definition VIRTIO_MMIO_DRIVER_FEATURES :: u32 where "VIRTIO_MMIO_DRIVER_FEATURES = 32"
definition VIRTIO_MMIO_DRIVER_FEATURES_SEL :: u32 where "VIRTIO_MMIO_DRIVER_FEATURES_SEL = 36"
definition VIRTIO_MMIO_QUEUE_SEL :: u32 where "VIRTIO_MMIO_QUEUE_SEL = 48"
definition VIRTIO_MMIO_QUEUE_NUM_MAX :: u32 where "VIRTIO_MMIO_QUEUE_NUM_MAX = 52"
definition VIRTIO_MMIO_QUEUE_NUM :: u32 where "VIRTIO_MMIO_QUEUE_NUM = 56"
definition VIRTIO_MMIO_QUEUE_READY :: u32 where "VIRTIO_MMIO_QUEUE_READY = 68"
definition VIRTIO_MMIO_QUEUE_NOTIFY :: u32 where "VIRTIO_MMIO_QUEUE_NOTIFY = 80"
definition VIRTIO_MMIO_INTERRUPT_STATUS :: u32 where "VIRTIO_MMIO_INTERRUPT_STATUS = 96"
definition VIRTIO_MMIO_INTERRUPT_ACK :: u32 where "VIRTIO_MMIO_INTERRUPT_ACK = 100"
definition VIRTIO_MMIO_STATUS :: u32 where "VIRTIO_MMIO_STATUS = 112"
definition VIRTIO_MMIO_QUEUE_DESC_LOW :: u32 where "VIRTIO_MMIO_QUEUE_DESC_LOW = 128"
definition VIRTIO_MMIO_QUEUE_DESC_HIGH :: u32 where "VIRTIO_MMIO_QUEUE_DESC_HIGH = 132"
definition VIRTIO_MMIO_QUEUE_AVAIL_LOW :: u32 where "VIRTIO_MMIO_QUEUE_AVAIL_LOW = 144"
definition VIRTIO_MMIO_QUEUE_AVAIL_HIGH :: u32 where "VIRTIO_MMIO_QUEUE_AVAIL_HIGH = 148"
definition VIRTIO_MMIO_QUEUE_USED_LOW :: u32 where "VIRTIO_MMIO_QUEUE_USED_LOW = 160"
definition VIRTIO_MMIO_QUEUE_USED_HIGH :: u32 where "VIRTIO_MMIO_QUEUE_USED_HIGH = 164"
definition VIRTIO_MMIO_CONFIG_GENERATION :: u32 where "VIRTIO_MMIO_CONFIG_GENERATION = 252"
definition VIRTIO_MMIO_CONFIG :: u64 where "VIRTIO_MMIO_CONFIG = 256"

definition MMIO_MAGIC_VALUE :: u32 where "MMIO_MAGIC_VALUE = 0x74726976"
definition MMIO_VERSION :: u32 where "MMIO_VERSION = 2"
definition VENDOR_ID :: u32 where "VENDOR_ID = 0"

lemmas register_defs =
  VIRTIO_MMIO_MAGIC_VALUE_def VIRTIO_MMIO_VERSION_def VIRTIO_MMIO_DEVICE_ID_def
  VIRTIO_MMIO_VENDOR_ID_def VIRTIO_MMIO_DEVICE_FEATURES_def VIRTIO_MMIO_DEVICE_FEATURES_SEL_def
  VIRTIO_MMIO_DRIVER_FEATURES_def VIRTIO_MMIO_DRIVER_FEATURES_SEL_def VIRTIO_MMIO_QUEUE_SEL_def
  VIRTIO_MMIO_QUEUE_NUM_MAX_def VIRTIO_MMIO_QUEUE_NUM_def VIRTIO_MMIO_QUEUE_READY_def
  VIRTIO_MMIO_QUEUE_NOTIFY_def VIRTIO_MMIO_INTERRUPT_STATUS_def VIRTIO_MMIO_INTERRUPT_ACK_def
  VIRTIO_MMIO_STATUS_def VIRTIO_MMIO_QUEUE_DESC_LOW_def VIRTIO_MMIO_QUEUE_DESC_HIGH_def
  VIRTIO_MMIO_QUEUE_AVAIL_LOW_def VIRTIO_MMIO_QUEUE_AVAIL_HIGH_def VIRTIO_MMIO_QUEUE_USED_LOW_def
  VIRTIO_MMIO_QUEUE_USED_HIGH_def VIRTIO_MMIO_CONFIG_GENERATION_def VIRTIO_MMIO_CONFIG_def

section \<open>Reads and writes of the driver\<close>

definition update_queue_field :: "'d device \<Rightarrow> (queue \<Rightarrow> queue) \<Rightarrow> 'd device" where
  "update_queue_field d f =
     (if check_device_status d FEATURES_OK (DRIVER_OK OR FAILED) then
        (case selected_queue d of
           Some q \<Rightarrow> put_queue d (queue_select d) (f q)
         | None \<Rightarrow> d)
      else d)"

text \<open>The value of a register, if it can be read.\<close>

definition mmio_register :: "'d device_impl \<Rightarrow> 'd device \<Rightarrow> u32 \<Rightarrow> u32 option" where
  "mmio_register D d reg =
     (if reg = VIRTIO_MMIO_MAGIC_VALUE then Some MMIO_MAGIC_VALUE
      else if reg = VIRTIO_MMIO_VERSION then Some MMIO_VERSION
      else if reg = VIRTIO_MMIO_DEVICE_ID then Some (di_device_type D d)
      else if reg = VIRTIO_MMIO_VENDOR_ID then Some VENDOR_ID
      else if reg = VIRTIO_MMIO_DEVICE_FEATURES then
        Some (if vc_device_features_select (dv_cfg d) = 0 then ucast (device_features d)
              else if vc_device_features_select (dv_cfg d) = 1 then ucast (drop_bit 32 (device_features d))
              else 0)
      else if reg = VIRTIO_MMIO_QUEUE_NUM_MAX then
        Some (ucast (case selected_queue d of Some q \<Rightarrow> q_max_size q | None \<Rightarrow> 0))
      else if reg = VIRTIO_MMIO_QUEUE_READY then
        Some (if (case selected_queue d of Some q \<Rightarrow> q_ready q | None \<Rightarrow> False) then 1 else 0)
      else if reg = VIRTIO_MMIO_INTERRUPT_STATUS then Some (ucast (vc_interrupt_status (dv_cfg d)))
      else if reg = VIRTIO_MMIO_STATUS then Some (ucast (device_status d))
      else if reg = VIRTIO_MMIO_CONFIG_GENERATION then Some (ucast (vc_config_generation (dv_cfg d)))
      else None)"

definition mmio_read :: "'d device_impl \<Rightarrow> 'd device \<Rightarrow> u64 \<Rightarrow> byte list \<Rightarrow> byte list" where
  "mmio_read D d offset data =
     (if offset \<le> 255 \<and> length data = 4 then
        (case mmio_register D d (ucast offset) of
           Some v \<Rightarrow> le_bytes 4 v
         | None \<Rightarrow> data)
      else if VIRTIO_MMIO_CONFIG \<le> offset \<and> offset \<le> 4095 then read_config d (unat offset - 256) data
      else data)"

definition mmio_write :: "'d device_impl \<Rightarrow> 'd device \<Rightarrow> u64 \<Rightarrow> byte list \<Rightarrow> 'd device option" where
  "mmio_write D d offset data =
     (if offset \<le> 255 \<and> length data = 4 then
        let v = le_word data :: u32; reg = ucast offset :: u32 in
        if reg = VIRTIO_MMIO_DEVICE_FEATURES_SEL then Some (set_device_features_select d v)
        else if reg = VIRTIO_MMIO_DRIVER_FEATURES then
          (if check_device_status d DRIVER (FEATURES_OK OR FAILED)
           then Some (set_driver_features d (vc_driver_features_select (dv_cfg d)) v)
           else Some d)
        else if reg = VIRTIO_MMIO_DRIVER_FEATURES_SEL then Some (set_driver_features_select d v)
        else if reg = VIRTIO_MMIO_QUEUE_SEL then Some (set_queue_select d (ucast v))
        else if reg = VIRTIO_MMIO_QUEUE_NUM then Some (update_queue_field d (\<lambda>q. set_size q (ucast v)))
        else if reg = VIRTIO_MMIO_QUEUE_READY then Some (update_queue_field d (\<lambda>q. set_ready q (v = 1)))
        else if reg = VIRTIO_MMIO_QUEUE_NOTIFY then Some (di_queue_notify D d v)
        else if reg = VIRTIO_MMIO_INTERRUPT_ACK then
          (if check_device_status d DRIVER_OK 0
           then Some (d\<lparr>dv_cfg := (dv_cfg d)\<lparr>vc_interrupt_status :=
                        vc_interrupt_status (dv_cfg d) AND NOT (ucast v)\<rparr>\<rparr>)
           else Some d)
        else if reg = VIRTIO_MMIO_STATUS then ack_device_status D d (ucast v)
        else if reg = VIRTIO_MMIO_QUEUE_DESC_LOW then
          Some (update_queue_field d (\<lambda>q. set_desc_table_address q (Some v) None))
        else if reg = VIRTIO_MMIO_QUEUE_DESC_HIGH then
          Some (update_queue_field d (\<lambda>q. set_desc_table_address q None (Some v)))
        else if reg = VIRTIO_MMIO_QUEUE_AVAIL_LOW then
          Some (update_queue_field d (\<lambda>q. set_avail_ring_address q (Some v) None))
        else if reg = VIRTIO_MMIO_QUEUE_AVAIL_HIGH then
          Some (update_queue_field d (\<lambda>q. set_avail_ring_address q None (Some v)))
        else if reg = VIRTIO_MMIO_QUEUE_USED_LOW then
          Some (update_queue_field d (\<lambda>q. set_used_ring_address q (Some v) None))
        else if reg = VIRTIO_MMIO_QUEUE_USED_HIGH then
          Some (update_queue_field d (\<lambda>q. set_used_ring_address q None (Some v)))
        else Some d
      else if VIRTIO_MMIO_CONFIG \<le> offset \<and> offset \<le> 4095 then
        (if check_device_status d DRIVER FAILED then Some (write_config d (unat offset - 256) data)
         else Some d)
      else Some d)"

text \<open>A sequence of writes of the driver.\<close>

fun mmio_writes :: "'d device_impl \<Rightarrow> (u64 \<times> byte list) list \<Rightarrow> 'd device \<Rightarrow> 'd device option" where
  "mmio_writes D [] d = Some d"
| "mmio_writes D ((offset, data) # ws) d =
     (case mmio_write D d offset data of None \<Rightarrow> None | Some d' \<Rightarrow> mmio_writes D ws d')"

section \<open>The device \<open>Dummy\<close>\<close>

record dummy_dev =
  dm_device_type :: u32
  dm_activate_count :: u64
  dm_reset_count :: u64
  dm_last_queue_notify :: u32

definition dummy_new :: "u32 \<Rightarrow> u64 \<Rightarrow> byte list \<Rightarrow> dummy_dev device option" where
  "dummy_new dev_type features config_space =
     (case queue_new 256 of
        Inl _ \<Rightarrow> None
      | Inr queue \<Rightarrow>
          Some \<lparr>dv_cfg = virtio_config_new features [queue] config_space,
                dv_inner = \<lparr>dm_device_type = dev_type, dm_activate_count = 0, dm_reset_count = 0,
                            dm_last_queue_notify = 0\<rparr>\<rparr>)"

definition dummy_activate :: "dummy_dev device \<Rightarrow> dummy_dev device \<times> (nat + unit)" where
  "dummy_activate d =
     (d\<lparr>dv_inner := (dv_inner d)\<lparr>dm_activate_count := dm_activate_count (dv_inner d) + 1\<rparr>\<rparr>, Inr ())"

definition dummy_reset :: "dummy_dev device \<Rightarrow> dummy_dev device \<times> (nat + unit)" where
  "dummy_reset d =
     (d\<lparr>dv_inner := (dv_inner d)\<lparr>dm_reset_count := dm_reset_count (dv_inner d) + 1\<rparr>\<rparr>, Inr ())"

definition dummy_queue_notify :: "dummy_dev device \<Rightarrow> u32 \<Rightarrow> dummy_dev device" where
  "dummy_queue_notify d v = d\<lparr>dv_inner := (dv_inner d)\<lparr>dm_last_queue_notify := v\<rparr>\<rparr>"

definition dummy_impl :: "dummy_dev device_impl" where
  "dummy_impl =
     \<lparr>di_device_type = (\<lambda>d. dm_device_type (dv_inner d)),
      di_activate = dummy_activate,
      di_reset = dummy_reset,
      di_queue_notify = dummy_queue_notify\<rparr>"

section \<open>The invariant of a device\<close>

definition queues_wf :: "'d device \<Rightarrow> bool" where
  "queues_wf d \<longleftrightarrow> (\<forall>q\<in>set (vc_queues (dv_cfg d)). wf_queue q)"

definition features_offered :: "'d device \<Rightarrow> bool" where
  "features_offered d \<longleftrightarrow> NOT (device_features d) AND driver_features d = 0"

definition device_inv :: "'d device \<Rightarrow> bool" where
  "device_inv d \<longleftrightarrow> queues_wf d \<and> (device_status d AND FEATURES_OK \<noteq> 0 \<longrightarrow> features_offered d)"

text \<open>What the transport relies on in an implementor.\<close>

locale device_impl_laws =
  fixes D :: "'d device_impl"
  assumes activate_queues: "queues_wf d \<Longrightarrow> queues_wf (fst (di_activate D d))"
    and activate_features: "features_offered d \<Longrightarrow> features_offered (fst (di_activate D d))"
    and reset_inv: "device_inv d \<Longrightarrow> device_inv (fst (di_reset D d))"
    and notify_inv: "device_inv d \<Longrightarrow> device_inv (di_queue_notify D d v)"

interpretation dummy: device_impl_laws dummy_impl
  by unfold_locales
    (auto simp: dummy_impl_def dummy_activate_def dummy_reset_def dummy_queue_notify_def queues_wf_def
      features_offered_def device_inv_def device_features_def driver_features_def device_status_def)

lemmas dummy_laws = dummy.device_impl_laws_axioms

lemma queues_wf_put:
  assumes "queues_wf d" and "wf_queue q"
  shows "queues_wf (put_queue d i q)"
  using assms set_update_subset_insert [of "vc_queues (dv_cfg d)" "unat i" q]
  by (auto simp: queues_wf_def put_queue_def)

lemma wf_event_idx_all:
  assumes "\<forall>q\<in>set qs. wf_queue q"
  shows "\<forall>q\<in>set (map (\<lambda>q. set_event_idx q True) (take n qs) @ drop n qs). wf_queue q"
proof
  fix q assume "q \<in> set (map (\<lambda>q. set_event_idx q True) (take n qs) @ drop n qs)"
  then consider p where "p \<in> set (take n qs)" "q = set_event_idx p True" | "q \<in> set (drop n qs)"
    by auto
  then show "wf_queue q"
    by cases (use assms in \<open>auto dest: in_set_takeD in_set_dropD intro: wf_setters(6)\<close>)
qed

lemma update_queue_field_inv:
  assumes inv: "device_inv d" and f: "\<And>q. wf_queue q \<Longrightarrow> wf_queue (f q)"
  shows "device_inv (update_queue_field d f)"
proof -
  have "wf_queue q" if "selected_queue d = Some q" for q
    using that inv
    by (auto simp: selected_queue_def dev_queue_def device_inv_def queues_wf_def Let_def split: if_splits)
  with inv f show ?thesis
    by (auto simp: update_queue_field_def device_inv_def features_offered_def device_features_def
        driver_features_def device_status_def intro: queues_wf_put split: option.splits)
      (simp_all add: put_queue_def)
qed

lemma features_ok_bit: "v AND FEATURES_OK = 0 \<longleftrightarrow> \<not> bit v 3" for v :: u8
  using and_exp_eq_0_iff_not_bit [of v 3] by (simp add: FEATURES_OK_def)

lemma set_status_inv:
  "queues_wf e \<Longrightarrow> v AND FEATURES_OK = 0 \<or> features_offered e \<Longrightarrow> device_inv (set_device_status e v)"
  by (auto simp: device_inv_def set_device_status_def queues_wf_def features_offered_def
      device_features_def driver_features_def device_status_def)

lemma event_idx_loop_inv:
  assumes "event_idx_loop (map of_nat [0..<unat (num_queues d)]) d = Some e" and "queues_wf d"
  shows "queues_wf e \<and> (features_offered d \<longrightarrow> features_offered e)"
  using assms wf_event_idx_all [of "vc_queues (dv_cfg d)" "unat (num_queues d)"]
  unfolding event_idx_loop_upt [OF num_queues_bounds]
  by (auto simp: queues_wf_def features_offered_def device_features_def driver_features_def)

context device_impl_laws
begin

lemma ack_driver_ok_inv:
  assumes inv: "device_inv d" and st: "ack_device_status D d st = Some d'"
    and ok: "NOT (device_status d) AND st = DRIVER_OK" "device_status d = ACKNOWLEDGE OR DRIVER OR FEATURES_OK"
  shows "device_inv d'"
proof -
  have "queues_wf d" "features_offered d" using inv ok(2) by (simp_all add: device_inv_def status_defs)
  moreover obtain e r where act: "di_activate D d = (e, r)" by fastforce
  ultimately have e: "queues_wf e" "features_offered e" using activate_queues [of d] activate_features [of d] by simp_all
  have "Some (case r of Inl _ \<Rightarrow> e | Inr _ \<Rightarrow> set_device_status e st) = Some d'"
    using st ok act by (simp add: ack_device_status_def status_defs split: sum.splits)
  then consider "d' = e" | "d' = set_device_status e st" by (cases r) auto
  then show ?thesis using e set_status_inv [of e st] by cases (auto simp: device_inv_def [of e])
qed

lemma ack_device_status_inv:
  assumes inv: "device_inv d" and st: "ack_device_status D d st = Some d'"
  shows "device_inv d'"
proof -
  let ?cur = "device_status d"
  have wf: "queues_wf d" using inv by (simp add: device_inv_def)
  have bit: "bit st 3 \<Longrightarrow> \<not> bit ?cur 3 \<Longrightarrow> bit (NOT ?cur AND st) 3" by (simp add: bit_simps)
  consider (ack) "NOT ?cur AND st = ACKNOWLEDGE" "?cur = RESET"
    | (driver) "NOT ?cur AND st = DRIVER" "?cur = ACKNOWLEDGE"
    | (features) "NOT ?cur AND st = FEATURES_OK" "?cur = ACKNOWLEDGE OR DRIVER"
    | (driver_ok) "NOT ?cur AND st = DRIVER_OK" "?cur = ACKNOWLEDGE OR DRIVER OR FEATURES_OK"
    | (failed) "d' = set_device_status d (?cur OR FAILED)"
    | (reset) "d' = fst (di_reset D d)" | (same) "d' = d"
    using st by (auto simp: ack_device_status_def Let_def split: if_splits)
  then show ?thesis
  proof cases
    case ack
    then have "d' = set_device_status d st" and "\<not> bit st 3"
      using st bit by (auto simp: ack_device_status_def status_defs bit_1_iff)
    with wf show ?thesis by (auto simp: features_ok_bit intro: set_status_inv)
  next
    case driver
    then have "d' = set_device_status d st" and "\<not> bit st 3"
      using st bit by (auto simp: ack_device_status_def status_defs bit_simps)
    with wf show ?thesis by (auto simp: features_ok_bit intro: set_status_inv)
  next
    case features
    with st inv wf event_idx_loop_inv [OF _ wf] show ?thesis
      by (auto simp: ack_device_status_def status_defs features_offered_def intro: set_status_inv
          split: if_splits option.splits)
  next
    case driver_ok
    with inv st show ?thesis by (rule ack_driver_ok_inv)
  next
    case failed
    have "bit (?cur OR FAILED) 3 \<longleftrightarrow> bit ?cur 3" by (simp add: FAILED_def bit_or_iff)
    then have "(?cur OR FAILED) AND FEATURES_OK = 0 \<or> features_offered d"
      using inv by (auto simp: device_inv_def features_ok_bit)
    from set_status_inv [OF wf this] failed show ?thesis by simp
  qed (use inv reset_inv in simp_all)
qed

lemma device_inv_setters:
  assumes "device_inv d"
  shows "device_inv (set_device_features_select d u)" "device_inv (set_driver_features_select d u)"
    "device_inv (set_queue_select d i)" "device_inv (write_config d n data)"
    "device_inv (d\<lparr>dv_cfg := (dv_cfg d)\<lparr>vc_interrupt_status := w\<rparr>\<rparr>)"
  using assms
  by (auto simp: device_inv_def queues_wf_def features_offered_def device_features_def Let_def
      driver_features_def device_status_def set_device_features_select_def write_config_def
      set_driver_features_select_def set_queue_select_def)

lemma set_driver_features_inv:
  assumes "device_inv d" and "check_device_status d DRIVER (FEATURES_OK OR FAILED)"
  shows "device_inv (set_driver_features d page v)"
proof -
  have "device_status d AND FEATURES_OK = (device_status d AND 138) AND 8"
    by (simp add: and.assoc FEATURES_OK_def)
  also have "device_status d AND 138 = 2"
    using assms(2) by (simp add: check_device_status_def status_defs)
  finally have "device_status d AND FEATURES_OK = 0" by simp
  with assms(1) show ?thesis
    by (auto simp: device_inv_def queues_wf_def set_driver_features_def device_status_def)
qed

lemma mmio_write_inv:
  assumes "device_inv d" and "mmio_write D d offset data = Some d'"
  shows "device_inv d'"
  using assms device_inv_setters [OF assms(1)] set_driver_features_inv [OF assms(1)]
    ack_device_status_inv [OF assms(1)] notify_inv [OF assms(1)] update_queue_field_inv [OF assms(1)]
  unfolding mmio_write_def Let_def
  by (auto simp: wf_setters split: if_split_asm)

lemma mmio_writes_inv:
  "device_inv d \<Longrightarrow> mmio_writes D ws d = Some d' \<Longrightarrow> device_inv d'"
proof (induction ws arbitrary: d)
  case (Cons w ws)
  then obtain e where "mmio_write D d (fst w) (snd w) = Some e" "mmio_writes D ws e = Some d'"
    by (cases w) (auto split: option.splits)
  with Cons.IH mmio_write_inv [OF Cons.prems(1)] show ?case by blast
qed simp

end

lemma mmio_write_total: "mmio_write D d offset data \<noteq> None"
  using ack_device_status_total [of D d] by (auto simp: mmio_write_def Let_def)

end
