(* ===== verification/Mmio_Init.thy ===== *)
theory Mmio_Init
  imports Mmio
begin

text \<open>
  The initialization of a device by its driver, as the virtio specification prescribes it for the MMIO
  transport, on the registers of \<^emph>\<open>Mmio\<close>: acknowledge the device, negotiate features, configure every
  queue and set \<open>DRIVER_OK\<close>. What each write does, and what the whole sequence leaves in the device.
\<close>

section \<open>What the driver writes\<close>

definition reg_write :: "u64 \<Rightarrow> u32 \<Rightarrow> u64 \<times> byte list" where
  "reg_write reg v = (reg, le_bytes 4 v)"

record queue_setup =
  qu_num :: u16
  qu_desc :: u64
  qu_avail :: u64
  qu_used :: u64

definition low_half :: "u64 \<Rightarrow> u32" where "low_half a = ucast a"
definition high_half :: "u64 \<Rightarrow> u32" where "high_half a = ucast (drop_bit 32 a)"

definition queue_writes :: "nat \<times> queue_setup \<Rightarrow> (u64 \<times> byte list) list" where
  "queue_writes = (\<lambda>(i, s).
     [reg_write 0x30 (of_nat i), reg_write 0x38 (ucast (qu_num s)),
      reg_write 0x80 (low_half (qu_desc s)), reg_write 0x84 (high_half (qu_desc s)),
      reg_write 0x90 (low_half (qu_avail s)), reg_write 0x94 (high_half (qu_avail s)),
      reg_write 0xa0 (low_half (qu_used s)), reg_write 0xa4 (high_half (qu_used s)),
      reg_write 0x44 1])"

definition feature_writes :: "u64 \<Rightarrow> (u64 \<times> byte list) list" where
  "feature_writes f =
     [reg_write 0x24 0, reg_write 0x20 (low_half f), reg_write 0x24 1, reg_write 0x20 (high_half f)]"

definition driver_init :: "u64 \<Rightarrow> queue_setup list \<Rightarrow> (u64 \<times> byte list) list" where
  "driver_init f ss =
     [reg_write 0x70 1, reg_write 0x70 3] @ feature_writes f @ [reg_write 0x70 11] @
     concat (map queue_writes (enumerate 0 ss)) @ [reg_write 0x70 15]"

section \<open>What the queues become\<close>

text \<open>A setup the queue accepts, and the queue configured with it.\<close>

definition setup_ok :: "queue \<Rightarrow> queue_setup \<Rightarrow> bool" where
  "setup_ok q s \<longleftrightarrow> qu_num s \<noteq> 0 \<and> qu_num s \<le> q_max_size q \<and> pow2_check (qu_num s) \<and>
     qu_desc s AND 15 = 0 \<and> qu_avail s AND 1 = 0 \<and> qu_used s AND 3 = 0"

definition configured :: "queue \<Rightarrow> queue_setup \<Rightarrow> queue" where
  "configured q s = q\<lparr>q_size := qu_num s, q_desc_table := qu_desc s, q_avail_ring := qu_avail s,
     q_used_ring := qu_used s, q_ready := True\<rparr>"

section \<open>Writes in sequence\<close>

lemma mmio_writes_append:
  "mmio_writes D (xs @ ys) d = Option.bind (mmio_writes D xs d) (mmio_writes D ys)"
  by (induction D xs d rule: mmio_writes.induct) (auto split: option.splits)

lemma reg_writes:
  "mmio_writes D (reg_write 0x24 v # ws) d = mmio_writes D ws (set_driver_features_select d v)"
  "check_device_status d DRIVER (FEATURES_OK OR FAILED) \<Longrightarrow>
     mmio_writes D (reg_write 0x20 v # ws) d = mmio_writes D ws (set_driver_features d (vc_driver_features_select (dv_cfg d)) v)"
  "mmio_writes D (reg_write 0x30 v # ws) d = mmio_writes D ws (set_queue_select d (ucast v))"
  "mmio_writes D (reg_write 0x38 v # ws) d = mmio_writes D ws (update_queue_field d (\<lambda>q. set_size q (ucast v)))"
  "mmio_writes D (reg_write 0x44 v # ws) d = mmio_writes D ws (update_queue_field d (\<lambda>q. set_ready q (v = 1)))"
  "mmio_writes D (reg_write 0x70 v # ws) d = Option.bind (ack_device_status D d (ucast v)) (mmio_writes D ws)"
  "mmio_writes D (reg_write 0x80 v # ws) d = mmio_writes D ws (update_queue_field d (\<lambda>q. set_desc_table_address q (Some v) None))"
  "mmio_writes D (reg_write 0x84 v # ws) d = mmio_writes D ws (update_queue_field d (\<lambda>q. set_desc_table_address q None (Some v)))"
  "mmio_writes D (reg_write 0x90 v # ws) d = mmio_writes D ws (update_queue_field d (\<lambda>q. set_avail_ring_address q (Some v) None))"
  "mmio_writes D (reg_write 0x94 v # ws) d = mmio_writes D ws (update_queue_field d (\<lambda>q. set_avail_ring_address q None (Some v)))"
  "mmio_writes D (reg_write 0xa0 v # ws) d = mmio_writes D ws (update_queue_field d (\<lambda>q. set_used_ring_address q (Some v) None))"
  "mmio_writes D (reg_write 0xa4 v # ws) d = mmio_writes D ws (update_queue_field d (\<lambda>q. set_used_ring_address q None (Some v)))"
  by (simp_all add: reg_write_def mmio_write_def register_defs Option.bind_def split: option.splits)

section \<open>Configuring the queues\<close>

lemma compose_address_steps:
  "compose_address (compose_address a (Some (low_half b)) None) None (Some (high_half b)) = b"
  "n \<le> 32 \<Longrightarrow> compose_address a (Some (low_half b)) None AND mask n = b AND mask n"
  by (rule bit_word_eqI, auto simp: compose_address_def low_half_def high_half_def Let_def bit_simps dest: bit_imp_le_length)+

lemma set_addresses:
  "qu_desc s AND 15 = 0 \<Longrightarrow>
     set_desc_table_address (set_desc_table_address q (Some (low_half (qu_desc s))) None) None (Some (high_half (qu_desc s))) =
       q\<lparr>q_desc_table := qu_desc s\<rparr>"
  "qu_avail s AND 1 = 0 \<Longrightarrow>
     set_avail_ring_address (set_avail_ring_address q (Some (low_half (qu_avail s))) None) None (Some (high_half (qu_avail s))) =
       q\<lparr>q_avail_ring := qu_avail s\<rparr>"
  "qu_used s AND 3 = 0 \<Longrightarrow>
     set_used_ring_address (set_used_ring_address q (Some (low_half (qu_used s))) None) None (Some (high_half (qu_used s))) =
       q\<lparr>q_used_ring := qu_used s\<rparr>"
  using compose_address_steps(2) [of 4 "q_desc_table q" "qu_desc s"]
    compose_address_steps(2) [of 1 "q_avail_ring q" "qu_avail s"] compose_address_steps(2) [of 2 "q_used_ring q" "qu_used s"]
  by (simp_all add: set_desc_table_address_def try_set_desc_table_address_def set_avail_ring_address_def
      try_set_avail_ring_address_def set_used_ring_address_def try_set_used_ring_address_def compose_address_steps(1)
      mask_eq_exp_minus_1)

text \<open>While the queues may be configured, a write to a queue register updates the selected queue.\<close>

definition with_queues :: "'d device \<Rightarrow> queue list \<Rightarrow> u16 \<Rightarrow> 'd device" where
  "with_queues d qs sel = d\<lparr>dv_cfg := (dv_cfg d)\<lparr>vc_queues := qs, vc_queue_select := sel\<rparr>\<rparr>"

lemma with_queues_simps [simp]:
  "vc_queues (dv_cfg (with_queues d qs sel)) = qs" "device_status (with_queues d qs sel) = device_status d"
  "set_queue_select (with_queues d qs sel) sel' = with_queues d qs sel'"
  "with_queues (with_queues d qs sel) qs' sel' = with_queues d qs' sel'"
  "with_queues d (vc_queues (dv_cfg d)) (vc_queue_select (dv_cfg d)) = d"
  by (simp_all add: with_queues_def device_status_def set_queue_select_def)

lemma update_selected:
  assumes "device_status d = 11" and "i < length qs" and "i < 65536"
  shows "update_queue_field (with_queues d qs (of_nat i)) f = with_queues d (qs[i := f (qs ! i)]) (of_nat i)"
proof -
  have "unat (of_nat i :: u16) = i" using assms(3) by (intro unat_of_nat_less) simp
  with assms show ?thesis
    by (simp add: update_queue_field_def check_device_status_def status_defs selected_queue_def dev_queue_def queue_select_def
        put_queue_def device_status_def) (simp add: with_queues_def)
qed

lemma queue_writes_configure:
  assumes d: "device_status d = 11" and i: "i < length qs" "i < 65536" and s: "setup_ok (qs ! i) s"
  shows "mmio_writes D (queue_writes (i, s)) (with_queues d qs sel) = Some (with_queues d (qs[i := configured (qs ! i) s]) (of_nat i))"
proof -
  have n: "(ucast (ucast (qu_num s) :: u32) :: u16) = qu_num s" "(ucast (of_nat i :: u32) :: u16) = of_nat i"
    by (rule bit_word_eqI, auto simp: bit_simps dest: bit_imp_le_length)+
  have sz: "set_size q (qu_num s) = q\<lparr>q_size := qu_num s\<rparr>" if "q_max_size q = q_max_size (qs ! i)" for q
    using s that by (auto simp: setup_ok_def set_size_def try_set_size_def pow2_check_def dest: leD)
  have a: "qu_desc s AND 15 = 0" "qu_avail s AND 1 = 0" "qu_used s AND 3 = 0" using s by (simp_all add: setup_ok_def)
  note u = update_selected [OF d _ i(2)]
  show ?thesis
    using i(1) by (simp add: queue_writes_def reg_writes n u sz set_addresses(1) [OF a(1)] set_addresses(2) [OF a(2)]
        set_addresses(3) [OF a(3)]) (simp add: configured_def set_ready_def)
qed

lemma configure_all:
  assumes "device_status d = 11" and "length qs = n + length ss" and "n + length ss < 65536"
    and "\<forall>k < length ss. setup_ok (qs ! (n + k)) (ss ! k)"
  shows "mmio_writes D (concat (map queue_writes (enumerate n ss))) (with_queues d qs sel) =
    Some (with_queues d (take n qs @ map2 configured (drop n qs) ss) (if ss = [] then sel else of_nat (n + length ss - 1)))"
  using assms(2-4)
proof (induction ss arbitrary: n qs sel)
  case (Cons s ss)
  let ?qs = "qs[n := configured (qs ! n) s]"
  have n: "n < length qs" using Cons.prems(1) by simp
  have "mmio_writes D (queue_writes (n, s)) (with_queues d qs sel) = Some (with_queues d ?qs (of_nat n))"
    using Cons.prems(2,3) n by (intro queue_writes_configure [OF assms(1)]) auto
  moreover have "setup_ok (?qs ! (Suc n + k)) (ss ! k)" if "k < length ss" for k
    using Cons.prems(3) [rule_format, of "Suc k"] that by simp
  then have "mmio_writes D (concat (map queue_writes (enumerate (Suc n) ss))) (with_queues d ?qs (of_nat n)) =
      Some (with_queues d (take (Suc n) ?qs @ map2 configured (drop (Suc n) ?qs) ss)
        (if ss = [] then of_nat n else of_nat (Suc n + length ss - 1)))"
    using Cons.prems(1,2) by (intro Cons.IH) simp_all
  moreover have "take (Suc n) ?qs @ map2 configured (drop (Suc n) ?qs) ss = take n qs @ map2 configured (drop n qs) (s # ss)"
    using n by (simp add: take_Suc_conv_app_nth Cons_nth_drop_Suc [OF n, symmetric] drop_update_cancel)
  ultimately show ?case by (cases ss) (simp_all add: mmio_writes_append)
qed simp

section \<open>The handshake\<close>

text \<open>From \<open>ACKNOWLEDGE | DRIVER\<close>, \<open>FEATURES_OK\<close> is granted for offered features only.\<close>

lemma ack_features_ok:
  assumes "device_status d = ACKNOWLEDGE OR DRIVER" and "length (vc_queues (dv_cfg d)) < 65536"
  shows "ack_device_status D d (ACKNOWLEDGE OR DRIVER OR FEATURES_OK) =
    Some (if NOT (device_features d) AND driver_features d \<noteq> 0 then d
          else d\<lparr>dv_cfg := (dv_cfg d)\<lparr>
                   vc_queues := map (\<lambda>q. q\<lparr>q_event_idx_enabled := q_event_idx_enabled q \<or> bit (driver_features d) 29\<rparr>)
                     (vc_queues (dv_cfg d)),
                   vc_device_status := ACKNOWLEDGE OR DRIVER OR FEATURES_OK\<rparr>\<rparr>)"
proof -
  have n: "unat (num_queues d) = length (vc_queues (dv_cfg d))"
    using assms(2) by (simp add: num_queues_def unat_of_nat)
  have b: "driver_features d AND push_bit VIRTIO_F_RING_EVENT_IDX 1 \<noteq> 0 \<longleftrightarrow> bit (driver_features d) 29"
    using and_exp_eq_0_iff_not_bit [of "driver_features d" 29]
    by (simp add: VIRTIO_F_RING_EVENT_IDX_def push_bit_eq_mult)
  have m: "map (\<lambda>q. q\<lparr>q_event_idx_enabled := q_event_idx_enabled q \<or> False\<rparr>) qs = qs" for qs :: "queue list"
    by (induction qs) simp_all
  note loop = event_idx_loop_upt [OF num_queues_bounds, of d, unfolded n]
  show ?thesis
    using assms(1) b
    by (cases "bit (driver_features d) 29")
      (simp_all add: ack_device_status_def n loop set_device_status_def set_event_idx_def m [simplified]
        status_defs)
qed

lemma feature_pages: "compose_features (compose_features x 0 (low_half f)) 1 (high_half f) = f" (is "?g = f")
proof -
  have "ucast ?g = (ucast f :: u32)" "ucast (drop_bit 32 ?g) = (ucast (drop_bit 32 f) :: u32)"
    by (simp_all add: compose_features_halves low_half_def high_half_def)
  then show ?thesis using compose_address_both [of 0 ?g] compose_address_both [of 0 f] by metis
qed

lemma feature_writes_result:
  assumes "device_status d = 3"
  shows "mmio_writes D (feature_writes f) d =
    Some (d\<lparr>dv_cfg := (dv_cfg d)\<lparr>vc_driver_features := f, vc_driver_features_select := 1\<rparr>\<rparr>)"
proof -
  have c: "check_device_status e DRIVER (FEATURES_OK OR FAILED)" if "device_status e = 3" for e :: "'a device"
    using that by (simp add: check_device_status_def status_defs)
  have "device_status (set_driver_features_select e v) = device_status e" "device_status (set_driver_features e p w) = device_status e"
    for e :: "'a device" and v p w
    by (simp_all add: device_status_def set_driver_features_select_def set_driver_features_def)
  with assms show ?thesis
    by (simp add: feature_writes_def reg_writes c)
      (simp add: set_driver_features_select_def set_driver_features_def feature_pages)
qed

text \<open>The device that the sequence activates.\<close>

definition initialized :: "'d device \<Rightarrow> u64 \<Rightarrow> queue_setup list \<Rightarrow> 'd device" where
  "initialized d f ss = d\<lparr>dv_cfg := (dv_cfg d)\<lparr>
     vc_driver_features := f,
     vc_driver_features_select := 1,
     vc_device_status := ACKNOWLEDGE OR DRIVER OR FEATURES_OK,
     vc_queue_select := (if ss = [] then vc_queue_select (dv_cfg d) else of_nat (length ss - 1)),
     vc_queues := map2 (\<lambda>q s. configured (q\<lparr>q_event_idx_enabled := q_event_idx_enabled q \<or> bit f 29\<rparr>) s)
       (vc_queues (dv_cfg d)) ss\<rparr>\<rparr>"

lemma driver_init_result:
  assumes d: "device_status d = RESET" and l: "length (vc_queues (dv_cfg d)) = length ss" "length ss < 65536"
    and f: "NOT (device_features d) AND f = 0"
    and s: "\<forall>k < length ss. setup_ok (vc_queues (dv_cfg d) ! k) (ss ! k)"
  shows "mmio_writes D (driver_init f ss) d =
    Some (case di_activate D (initialized d f ss) of
        (e, Inr _) \<Rightarrow> set_device_status e (ACKNOWLEDGE OR DRIVER OR FEATURES_OK OR DRIVER_OK)
      | (e, Inl _) \<Rightarrow> e)"
proof -
  let ?ev = "\<lambda>q. q\<lparr>q_event_idx_enabled := q_event_idx_enabled q \<or> bit f 29\<rparr>"
  let ?qs = "map ?ev (vc_queues (dv_cfg d))"
  let ?d1 = "set_device_status d 3"
  let ?d2 = "?d1\<lparr>dv_cfg := (dv_cfg ?d1)\<lparr>vc_driver_features := f, vc_driver_features_select := 1\<rparr>\<rparr>"
  let ?d3 = "?d2\<lparr>dv_cfg := (dv_cfg ?d2)\<lparr>vc_queues := ?qs, vc_device_status := 11\<rparr>\<rparr>"
  have ss: "device_status (set_device_status e v) = v" for e :: "'a device" and v
    by (simp add: device_status_def set_device_status_def)
  have "set_device_status (set_device_status d 1) 3 = ?d1" by (simp add: set_device_status_def)
  with d ss have a: "ack_device_status D d 1 = Some (set_device_status d 1)" "ack_device_status D (set_device_status d 1) 3 = Some ?d1"
    by (simp_all add: ack_device_status_def status_defs)
  have "device_status ?d2 = ACKNOWLEDGE OR DRIVER" "length (vc_queues (dv_cfg ?d2)) < 65536"
    using l by (simp_all add: device_status_def set_device_status_def status_defs)
  from ack_features_ok [OF this, of D] f have b: "ack_device_status D ?d2 11 = Some ?d3"
    by (simp add: status_defs device_features_def driver_features_def set_device_status_def)
  have st: "device_status ?d3 = 11" by (simp add: device_status_def)
  have w: "with_queues ?d3 ?qs (vc_queue_select (dv_cfg d)) = ?d3" by (simp add: with_queues_def set_device_status_def)
  have "setup_ok (?qs ! (0 + k)) (ss ! k)" if "k < length ss" for k using s l(1) that by (simp add: setup_ok_def)
  then have "mmio_writes D (concat (map queue_writes (enumerate 0 ss))) (with_queues ?d3 ?qs (vc_queue_select (dv_cfg d))) =
      Some (with_queues ?d3 (take 0 ?qs @ map2 configured (drop 0 ?qs) ss)
        (if ss = [] then vc_queue_select (dv_cfg d) else of_nat (0 + length ss - 1)))"
    using l by (intro configure_all [OF st]) simp_all
  moreover have "with_queues ?d3 (take 0 ?qs @ map2 configured (drop 0 ?qs) ss)
      (if ss = [] then vc_queue_select (dv_cfg d) else of_nat (0 + length ss - 1)) = initialized d f ss"
    by (simp add: initialized_def with_queues_def set_device_status_def status_defs zip_map1 comp_def case_prod_beta)
  ultimately have "mmio_writes D (concat (map queue_writes (enumerate 0 ss))) ?d3 = Some (initialized d f ss)"
    unfolding w by simp
  moreover have "device_status (initialized d f ss) = 11" by (simp add: device_status_def initialized_def status_defs)
  then have "ack_device_status D (initialized d f ss) 15 =
      Some (case di_activate D (initialized d f ss) of (e, Inr _) \<Rightarrow> set_device_status e 15 | (e, Inl _) \<Rightarrow> e)"
    by (auto simp: ack_device_status_def status_defs split: prod.splits sum.splits)
  moreover have "device_status ?d1 = 3" by (simp add: device_status_def set_device_status_def)
  ultimately show ?thesis
    using a b by (simp add: driver_init_def reg_writes mmio_writes_append feature_writes_result status_defs)
qed

end
