(* ===== verification/Device_Properties.thy ===== *)
theory Device_Properties
  imports Mmio_Init
begin

text \<open>
  Properties of the device configuration and of the MMIO transport: every sequence of register writes is
  safe, the initialization sequence of a driver works, the queue configuration is frozen outside its phase,
  features are negotiated and the device is activated as the status register prescribes.
\<close>

section \<open>Sequences of register writes\<close>

lemma mmio_writes_total: "mmio_writes D ws d \<noteq> None"
proof (induction ws arbitrary: d)
  case (Cons w ws)
  then show ?case using mmio_write_total [of D d "fst w" "snd w"] by (cases w) (auto split: option.splits)
qed simp

text \<open>C30. Whatever the driver writes to the device's registers, in any order, the device does not panic,
  all its queues stay well formed, and while \<open>FEATURES_OK\<close> is set the driver's features are a subset of
  those offered. The device's own callbacks are assumed to keep the same.\<close>

theorem mmio_writes_safe:
  assumes "device_impl_laws D" and "device_inv d"
  shows "\<exists>d'. mmio_writes D ws d = Some d' \<and> device_inv d'"
  using mmio_writes_total [of D ws d] device_impl_laws.mmio_writes_inv [OF assms] by auto

lemma dummy_new_256:
  "queue_new 256 = Inr \<lparr>q_max_size = 256, q_next_avail = 0, q_next_used = 0, q_event_idx_enabled = False,
     q_num_added = 0, q_size = 256, q_ready = False, q_desc_table = 0, q_avail_ring = 0, q_used_ring = 0\<rparr>"
  by (simp add: queue_new_Inr MAX_QUEUE_SIZE_def pow2_check_def)

definition demo_device :: "dummy_dev device" where
  "demo_device =
     \<lparr>dv_cfg = virtio_config_new 5 [\<lparr>q_max_size = 256, q_next_avail = 0, q_next_used = 0,
        q_event_idx_enabled = False, q_num_added = 0, q_size = 256, q_ready = False, q_desc_table = 0,
        q_avail_ring = 0, q_used_ring = 0\<rparr>] [],
      dv_inner = \<lparr>dm_device_type = 2, dm_activate_count = 0, dm_reset_count = 0, dm_last_queue_notify = 0\<rparr>\<rparr>"

lemma demo_device_new: "dummy_new 2 5 [] = Some demo_device"
  by (simp add: dummy_new_def dummy_new_256 demo_device_def)

lemma demo_device_inv: "device_inv demo_device"
  using wf_queue_new [OF dummy_new_256]
  by (simp add: device_inv_def queues_wf_def demo_device_def virtio_config_new_def device_status_def)

theorem mmio_writes_safe_witness:
  "dummy_new 2 5 [] = Some demo_device \<and>
   (\<exists>d'. mmio_writes dummy_impl [(0x70, [3, 0, 0, 0]), (0x38, [7]), (0x100, [1, 2])] demo_device = Some d' \<and>
      device_inv d')"
  using mmio_writes_safe [OF dummy_laws demo_device_inv] demo_device_new by blast

text \<open>C7. The initialization sequence of the virtio specification works on this transport: a driver that
  acknowledges the device, writes offered features, sets \<open>FEATURES_OK\<close>, writes an acceptable size and the
  halves of the aligned addresses for every queue, marks it ready and sets \<open>DRIVER_OK\<close>, gets the device
  activated once, with exactly these features and queues, and the status reads \<open>DRIVER_OK\<close> exactly if the
  activation succeeded.\<close>

theorem mmio_driver_initializes:
  assumes "device_status d = RESET" and "length (vc_queues (dv_cfg d)) = length ss" and "length ss < 65536"
    and "NOT (device_features d) AND f = 0" and "\<forall>k < length ss. setup_ok (vc_queues (dv_cfg d) ! k) (ss ! k)"
  shows "mmio_writes D (driver_init f ss) d =
    Some (case di_activate D (initialized d f ss) of
        (e, Inr _) \<Rightarrow> set_device_status e (ACKNOWLEDGE OR DRIVER OR FEATURES_OK OR DRIVER_OK)
      | (e, Inl _) \<Rightarrow> e)"
  using assms by (rule driver_init_result)

theorem mmio_driver_initializes_witness:
  "\<exists>d'. mmio_writes dummy_impl (driver_init 4 [\<lparr>qu_num = 128, qu_desc = 0x1000, qu_avail = 0x2000, qu_used = 0x300003000\<rparr>])
     demo_device = Some d' \<and>
   device_status d' = 15 \<and> driver_features d' = 4 \<and> dm_activate_count (dv_inner d') = 1 \<and>
   map (\<lambda>q. (q_size q, q_ready q, q_desc_table q, q_avail_ring q, q_used_ring q)) (vc_queues (dv_cfg d')) =
     [(128, True, 0x1000, 0x2000, 0x300003000)]"
proof -
  let ?s = "\<lparr>qu_num = 128, qu_desc = 0x1000, qu_avail = 0x2000, qu_used = 0x300003000\<rparr>"
  have "mmio_writes dummy_impl (driver_init 4 [?s]) demo_device =
      Some (case di_activate dummy_impl (initialized demo_device 4 [?s]) of
          (e, Inr _) \<Rightarrow> set_device_status e (ACKNOWLEDGE OR DRIVER OR FEATURES_OK OR DRIVER_OK)
        | (e, Inl _) \<Rightarrow> e)"
    by (rule mmio_driver_initializes)
      (simp_all add: demo_device_def virtio_config_new_def device_status_def device_features_def status_defs setup_ok_def
        pow2_check_def)
  then show ?thesis
    by (simp add: dummy_impl_def dummy_activate_def set_device_status_def device_status_def driver_features_def status_defs)
      (simp add: initialized_def configured_def demo_device_def virtio_config_new_def)
qed

text \<open>The queues can be configured only between \<open>FEATURES_OK\<close> and \<open>DRIVER_OK\<close>: in any other state a
  write to any register but the status and the notification register leaves all queues as they are.\<close>

theorem queue_config_frozen:
  assumes "\<not> check_device_status d FEATURES_OK (DRIVER_OK OR FAILED)"
    and "offset \<noteq> 0x70" and "offset \<noteq> 0x50" and "mmio_write D d offset data = Some d'"
  shows "vc_queues (dv_cfg d') = vc_queues (dv_cfg d)"
proof -
  have reg: "ucast offset \<noteq> VIRTIO_MMIO_STATUS \<and> ucast offset \<noteq> VIRTIO_MMIO_QUEUE_NOTIFY"
    if "offset \<le> 255"
  proof -
    have "unat (ucast offset :: u32) = unat offset"
      using that by (simp add: word_le_nat_alt unsigned_ucast_eq take_bit_nat_eq_self)
    then have "(ucast offset :: u32) = w \<longleftrightarrow> offset = ucast w" for w :: u32
      by (simp add: word_unat_eq_iff)
    with assms(2,3) show ?thesis by (simp add: register_defs)
  qed
  have upd: "update_queue_field d f = d" for f using assms(1) by (simp add: update_queue_field_def)
  show ?thesis
    using assms(4) reg unfolding mmio_write_def Let_def upd
    by (auto simp: set_device_features_select_def set_driver_features_def set_driver_features_select_def
        set_queue_select_def write_config_def Let_def split: if_splits)
qed

theorem queue_config_frozen_witness:
  "\<exists>d'. mmio_write dummy_impl demo_device 0x38 [128, 0, 0, 0] = Some d' \<and>
     vc_queues (dv_cfg d') = vc_queues (dv_cfg demo_device)"
proof -
  have "\<not> check_device_status demo_device FEATURES_OK (DRIVER_OK OR FAILED)"
    by (simp add: check_device_status_def device_status_def demo_device_def virtio_config_new_def status_defs)
  moreover obtain d' where "mmio_write dummy_impl demo_device 0x38 [128, 0, 0, 0] = Some d'"
    using mmio_write_total by fast
  ultimately show ?thesis
    using queue_config_frozen [of demo_device "0x38" dummy_impl "[128, 0, 0, 0]" d'] by auto
qed

section \<open>Status transitions\<close>




text \<open>C32. \<open>DRIVER_OK\<close> can be gained only by activation: if a status write makes it appear, the status was
  \<open>ACKNOWLEDGE | DRIVER | FEATURES_OK\<close>, the device's activation was invoked once and succeeded, and the
  result is what activation left with the new status.\<close>

theorem driver_ok_only_by_activation:
  assumes "ack_device_status D d st = Some d'"
    and "\<not> bit (device_status d) 2" and "bit (device_status d') 2"
    and "\<not> bit (device_status (fst (di_reset D d))) 2" and "\<not> bit (device_status (fst (di_activate D d))) 2"
  shows "device_status d = ACKNOWLEDGE OR DRIVER OR FEATURES_OK \<and>
    (\<exists>e. di_activate D d = (e, Inr ()) \<and> d' = set_device_status e st)"
proof -
  let ?cur = "device_status d"
  have st: "device_status (set_device_status e v) = v" for e :: "'a device" and v
    by (simp add: device_status_def set_device_status_def)
  have new: "bit (NOT ?cur AND st) 2" if "bit st 2" using assms(2) that by (simp add: bit_simps)
  have z: "\<not> bit ACKNOWLEDGE 2" "\<not> bit DRIVER 2" "\<not> bit FEATURES_OK 2"
    by (simp_all add: status_defs bit_numeral_rec bit_1_iff)
  have failed: "\<not> bit (?cur OR FAILED) 2" using assms(2) by (simp add: FAILED_def bit_or_iff bit_numeral_rec)
  consider (early) "device_status d' = st" "NOT ?cur AND st \<in> {ACKNOWLEDGE, DRIVER, FEATURES_OK}"
    | (act) e r where "?cur = ACKNOWLEDGE OR DRIVER OR FEATURES_OK" "di_activate D d = (e, r)"
        "d' = (case r of Inr _ \<Rightarrow> set_device_status e st | Inl _ \<Rightarrow> e)"
    | (other) "d' = set_device_status d (?cur OR FAILED) \<or> d' = fst (di_reset D d) \<or> d' = d"
    using assms(1) unfolding ack_device_status_def Let_def
    by (auto simp: st split: if_splits option.splits prod.splits sum.splits)
  then show ?thesis
  proof cases
    case early
    then show ?thesis using assms(3) new z by auto
  next
    case act
    then show ?thesis using assms(3,5) by (cases r) auto
  next
    case other
    then show ?thesis using assms(2-4) failed st by auto
  qed
qed

definition demo_ready_device :: "dummy_dev device" where
  "demo_ready_device = demo_device\<lparr>dv_cfg := (dv_cfg demo_device)\<lparr>vc_device_status := 11\<rparr>\<rparr>"

lemma demo_ready_status: "device_status demo_ready_device = 11"
  by (simp add: demo_ready_device_def device_status_def)

lemma demo_ready_bits:
  "\<not> bit (device_status (fst (di_reset dummy_impl demo_ready_device))) 2"
  "\<not> bit (device_status (fst (di_activate dummy_impl demo_ready_device))) 2"
  by (simp_all add: dummy_impl_def dummy_reset_def dummy_activate_def device_status_def demo_ready_device_def
      bit_numeral_rec)

lemma demo_activation:
  "ack_device_status dummy_impl demo_ready_device v =
     Some (set_device_status (fst (dummy_activate demo_ready_device)) v)" if "v = 15 \<or> v = 6"
  using that
  by (auto simp: ack_device_status_def demo_ready_status status_defs dummy_impl_def dummy_activate_def)

theorem driver_ok_only_by_activation_witness:
  "\<exists>d' e. ack_device_status dummy_impl demo_ready_device 15 = Some d' \<and>
     di_activate dummy_impl demo_ready_device = (e, Inr ()) \<and> d' = set_device_status e 15"
proof -
  let ?d = "set_device_status (fst (dummy_activate demo_ready_device)) 15"
  have a: "ack_device_status dummy_impl demo_ready_device 15 = Some ?d" by (rule demo_activation) simp
  have "\<not> bit (device_status demo_ready_device) 2" "bit (device_status ?d) 2"
    by (simp_all add: demo_ready_status bit_numeral_rec) (simp add: device_status_def set_device_status_def bit_numeral_rec)
  from driver_ok_only_by_activation [OF a this demo_ready_bits] a show ?thesis by blast
qed

text \<open>A status write may clear bits that were set. From \<open>ACKNOWLEDGE | DRIVER | FEATURES_OK\<close> the write of
  \<open>DRIVER | DRIVER_OK\<close> activates the device and clears \<open>FEATURES_OK\<close>; after that the driver features of the
  active device can be changed, to features that were not offered.\<close>

lemma features_writable_after_activation:
  "\<exists>d'. mmio_writes dummy_impl [(0x70, le_bytes 4 (6 :: u32)), (0x20, le_bytes 4 (2 :: u32))] demo_ready_device = Some d' \<and>
     bit (device_status d') 2 \<and> dm_activate_count (dv_inner d') = 1 \<and>
     NOT (device_features d') AND driver_features d' \<noteq> 0"
proof -
  let ?d = "set_device_status (fst (dummy_activate demo_ready_device)) 6"
  have w1: "mmio_write dummy_impl demo_ready_device 0x70 (le_bytes 4 (6 :: u32)) = Some ?d"
    using demo_activation [of 6] by (simp add: mmio_write_def register_defs)
  have c: "check_device_status ?d DRIVER (FEATURES_OK OR FAILED)"
    by (simp add: check_device_status_def device_status_def set_device_status_def status_defs)
  have w2: "mmio_write dummy_impl ?d 0x20 (le_bytes 4 (2 :: u32)) =
      Some (set_driver_features ?d (vc_driver_features_select (dv_cfg ?d)) 2)"
    using c by (simp add: mmio_write_def register_defs)
  let ?e = "set_driver_features ?d (vc_driver_features_select (dv_cfg ?d)) 2"
  have "bit (device_status ?e) 2" "dm_activate_count (dv_inner ?e) = 1"
      "NOT (device_features ?e) AND driver_features ?e \<noteq> 0"
    by (simp_all add: set_driver_features_def set_device_status_def dummy_activate_def demo_ready_device_def
        demo_device_def virtio_config_new_def compose_features_def device_status_def device_features_def
        driver_features_def bit_numeral_rec)
  with w1 w2 show ?thesis by simp
qed

end
