(* ===== verification/Blk_Request.thy ===== *)
theory Blk_Request
  imports Descriptor_Chain
begin

text \<open>
  Parsing of block requests (\<open>virtio-blk/src/request.rs\<close>) with the constants of \<open>defs.rs\<close> and of the
  block bindings. The parser consumes a descriptor chain; \<open>parse_descs\<close> states what it computes as a
  function of the list of descriptors the chain yields.
\<close>

section \<open>Constants and data\<close>

definition SECTOR_SHIFT :: nat where "SECTOR_SHIFT = 9"
definition SECTOR_SIZE :: u64 where "SECTOR_SIZE = push_bit SECTOR_SHIFT 1"

definition VIRTIO_BLK_F_RO :: nat where "VIRTIO_BLK_F_RO = 5"
definition VIRTIO_BLK_F_FLUSH :: nat where "VIRTIO_BLK_F_FLUSH = 9"
definition VIRTIO_BLK_F_DISCARD :: nat where "VIRTIO_BLK_F_DISCARD = 13"
definition VIRTIO_BLK_F_WRITE_ZEROES :: nat where "VIRTIO_BLK_F_WRITE_ZEROES = 14"
definition VIRTIO_BLK_ID_BYTES :: nat where "VIRTIO_BLK_ID_BYTES = 20"
definition VIRTIO_BLK_T_IN :: u32 where "VIRTIO_BLK_T_IN = 0"
definition VIRTIO_BLK_T_OUT :: u32 where "VIRTIO_BLK_T_OUT = 1"
definition VIRTIO_BLK_T_FLUSH :: u32 where "VIRTIO_BLK_T_FLUSH = 4"
definition VIRTIO_BLK_T_GET_ID :: u32 where "VIRTIO_BLK_T_GET_ID = 8"
definition VIRTIO_BLK_T_DISCARD :: u32 where "VIRTIO_BLK_T_DISCARD = 11"
definition VIRTIO_BLK_T_WRITE_ZEROES :: u32 where "VIRTIO_BLK_T_WRITE_ZEROES = 13"
definition VIRTIO_BLK_S_OK :: u8 where "VIRTIO_BLK_S_OK = 0"
definition VIRTIO_BLK_S_IOERR :: u8 where "VIRTIO_BLK_S_IOERR = 1"
definition VIRTIO_BLK_S_UNSUPP :: u8 where "VIRTIO_BLK_S_UNSUPP = 2"

lemmas blk_type_defs =
  VIRTIO_BLK_T_IN_def VIRTIO_BLK_T_OUT_def VIRTIO_BLK_T_FLUSH_def VIRTIO_BLK_T_GET_ID_def
  VIRTIO_BLK_T_DISCARD_def VIRTIO_BLK_T_WRITE_ZEROES_def

datatype blk_error =
    BlkDescriptorChainTooShort
  | BlkDescriptorLengthTooSmall
  | BlkGuestMemory gm_error
  | BlkInvalidFlushSector
  | BlkUnexpectedReadOnlyDescriptor
  | BlkUnexpectedWriteOnlyDescriptor

text \<open>The message of an error; \<open>gm\<close> prints the memory error it wraps.\<close>

fun blk_error_display :: "(gm_error \<Rightarrow> string) \<Rightarrow> blk_error \<Rightarrow> string" where
  "blk_error_display gm BlkDescriptorChainTooShort = ''descriptor chain too short''"
| "blk_error_display gm BlkDescriptorLengthTooSmall = ''descriptor length too small''"
| "blk_error_display gm (BlkGuestMemory err) = ''error accessing guest memory: '' @ gm err"
| "blk_error_display gm BlkInvalidFlushSector = ''invalid sector in flush request, it should be 0''"
| "blk_error_display gm BlkUnexpectedReadOnlyDescriptor = ''unexpected read only descriptor''"
| "blk_error_display gm BlkUnexpectedWriteOnlyDescriptor = ''unexpected write only descriptor''"

datatype request_type =
    RtIn
  | RtOut
  | RtFlush
  | RtGetDeviceID
  | RtDiscard
  | RtWriteZeroes
  | RtUnsupported u32

definition request_type_from :: "u32 \<Rightarrow> request_type" where
  "request_type_from v =
     (if v = VIRTIO_BLK_T_IN then RtIn
      else if v = VIRTIO_BLK_T_OUT then RtOut
      else if v = VIRTIO_BLK_T_FLUSH then RtFlush
      else if v = VIRTIO_BLK_T_GET_ID then RtGetDeviceID
      else if v = VIRTIO_BLK_T_DISCARD then RtDiscard
      else if v = VIRTIO_BLK_T_WRITE_ZEROES then RtWriteZeroes
      else RtUnsupported v)"

record request_header =
  rh_request_type :: u32
  rh_reserved :: u32
  rh_sector :: u64

text \<open>The header is plain data in host byte order.\<close>

definition request_header_of_bytes :: "endian \<Rightarrow> byte list \<Rightarrow> request_header" where
  "request_header_of_bytes e bs =
     \<lparr>rh_request_type = native_word e (take 4 bs),
      rh_reserved = native_word e (take 4 (drop 4 bs)),
      rh_sector = native_word e (take 8 (drop 8 bs))\<rparr>"

record request =
  rq_request_type :: request_type
  rq_data :: "(u64 \<times> u32) list"
  rq_sector :: u64
  rq_status_addr :: u64

definition total_data_len :: "request \<Rightarrow> u64" where
  "total_data_len r = sum_list (map (\<lambda>x. ucast (snd x)) (rq_data r))"

section \<open>Parsing\<close>

definition check_status_desc :: "'m guest_memory \<Rightarrow> 'm \<Rightarrow> raw_descriptor \<Rightarrow> blk_error + unit" where
  "check_status_desc G m raw =
     (let desc = split_of_raw raw in
      if \<not> is_write_only desc then Inl BlkUnexpectedReadOnlyDescriptor
      else if sd_len desc < 1 then Inl BlkDescriptorLengthTooSmall
      else case gm_check_address G m (sd_addr desc) of
        None \<Rightarrow> Inl (BlkGuestMemory (InvalidGuestAddress (sd_addr desc)))
      | Some _ \<Rightarrow> Inr ())"

definition check_data_desc :: "raw_descriptor \<Rightarrow> request_type \<Rightarrow> blk_error + unit" where
  "check_data_desc raw rt =
     (let desc = split_of_raw raw in
      if \<not> is_write_only desc \<and> rt = RtIn then Inl BlkUnexpectedReadOnlyDescriptor else Inr ())"

text \<open>The loop over the data descriptors; its result is the data list and the status descriptor.\<close>

function parse_data ::
    "'m guest_memory \<Rightarrow> 'm \<Rightarrow> desc_chain \<Rightarrow> request_type \<Rightarrow> split_desc \<Rightarrow> (u64 \<times> u32) list \<Rightarrow>
     desc_chain \<times> (blk_error + (u64 \<times> u32) list \<times> split_desc)" where
  "parse_data G m c rt desc data =
     (if has_next desc then
        (case check_data_desc (raw_of_split desc) rt of
           Inl e \<Rightarrow> (c, Inl e)
         | Inr _ \<Rightarrow>
             (case chain_next G m c of
                (c', None) \<Rightarrow> (c', Inl BlkDescriptorChainTooShort)
              | (c', Some desc') \<Rightarrow>
                  parse_data G m c' rt desc' (data @ [(sd_addr desc, sd_len desc)])))
      else (c, Inr (data, desc)))"
  by pat_completeness auto
termination
  by (relation "measure (\<lambda>(G, m, c, rt, desc, data). chain_bound c)")
    (auto dest!: sym [of "(_, _)"] chain_next_Some)

declare parse_data.simps [simp del]

text \<open>The rest of the parser, after the header was read.\<close>

definition parse_rest ::
    "'m guest_memory \<Rightarrow> 'm \<Rightarrow> desc_chain \<Rightarrow> request_header \<Rightarrow> desc_chain \<times> (blk_error + request)" where
  "parse_rest G m c h =
     (let rt = request_type_from (rh_request_type h) in
      case chain_next G m c of
        (c2, None) \<Rightarrow> (c2, Inl BlkDescriptorChainTooShort)
      | (c2, Some desc) \<Rightarrow>
          (case parse_data G m c2 rt desc [] of
             (c3, Inl e) \<Rightarrow> (c3, Inl e)
           | (c3, Inr (data, status_desc)) \<Rightarrow>
               (case check_status_desc G m (raw_of_split status_desc) of
                  Inl e \<Rightarrow> (c3, Inl e)
                | Inr _ \<Rightarrow>
                    (c3, Inr \<lparr>rq_request_type = rt, rq_data = data, rq_sector = rh_sector h,
                              rq_status_addr = sd_addr status_desc\<rparr>))))"

definition blk_parse :: "'m guest_memory \<Rightarrow> 'm \<Rightarrow> desc_chain \<Rightarrow> desc_chain \<times> (blk_error + request)" where
  "blk_parse G m c =
     (case chain_next G m c of
        (c1, None) \<Rightarrow> (c1, Inl BlkDescriptorChainTooShort)
      | (c1, Some chain_head) \<Rightarrow>
          if is_write_only chain_head then (c1, Inl BlkUnexpectedWriteOnlyDescriptor)
          else (case gm_read_slice G m (sd_addr chain_head) 16 of
            Inl e \<Rightarrow> (c1, Inl (BlkGuestMemory e))
          | Inr bs \<Rightarrow>
              let h = request_header_of_bytes (gm_endian G) bs in
              if rh_request_type h = VIRTIO_BLK_T_FLUSH \<and> rh_sector h \<noteq> 0
              then (c1, Inl BlkInvalidFlushSector)
              else parse_rest G m c1 h))"

section \<open>The parser as a function of the descriptors\<close>

fun parse_data_descs ::
    "request_type \<Rightarrow> split_desc list \<Rightarrow> blk_error + (u64 \<times> u32) list \<times> split_desc" where
  "parse_data_descs rt [] = Inl BlkDescriptorChainTooShort"
| "parse_data_descs rt (d # ds) =
     (if \<not> has_next d then Inr ([], d)
      else if rt = RtIn \<and> \<not> is_write_only d then Inl BlkUnexpectedReadOnlyDescriptor
      else case parse_data_descs rt ds of
        Inl e \<Rightarrow> Inl e
      | Inr (data, st) \<Rightarrow> Inr ((sd_addr d, sd_len d) # data, st))"

definition parse_descs :: "'m guest_memory \<Rightarrow> 'm \<Rightarrow> split_desc list \<Rightarrow> blk_error + request" where
  "parse_descs G m ds =
     (case ds of
        [] \<Rightarrow> Inl BlkDescriptorChainTooShort
      | hd_desc # rest \<Rightarrow>
          if is_write_only hd_desc then Inl BlkUnexpectedWriteOnlyDescriptor
          else case gm_read_slice G m (sd_addr hd_desc) 16 of
            Inl e \<Rightarrow> Inl (BlkGuestMemory e)
          | Inr bs \<Rightarrow>
              let h = request_header_of_bytes (gm_endian G) bs;
                  rt = request_type_from (rh_request_type h) in
              if rt = RtFlush \<and> rh_sector h \<noteq> 0 then Inl BlkInvalidFlushSector
              else case parse_data_descs rt rest of
                Inl e \<Rightarrow> Inl e
              | Inr (data, st) \<Rightarrow>
                  if \<not> is_write_only st then Inl BlkUnexpectedReadOnlyDescriptor
                  else if sd_len st = 0 then Inl BlkDescriptorLengthTooSmall
                  else if gm_check_address G m (sd_addr st) = None
                    then Inl (BlkGuestMemory (InvalidGuestAddress (sd_addr st)))
                  else Inr \<lparr>rq_request_type = rt, rq_data = data, rq_sector = rh_sector h,
                            rq_status_addr = sd_addr st\<rparr>)"

lemma request_type_flush: "request_type_from v = RtFlush \<longleftrightarrow> v = VIRTIO_BLK_T_FLUSH"
  by (auto simp: request_type_from_def blk_type_defs)

lemma parse_data_descs_eq:
  "snd (parse_data G m c rt d data) =
     (case parse_data_descs rt (d # chain_collect G m c) of
        Inl e \<Rightarrow> Inl e | Inr (data', st) \<Rightarrow> Inr (data @ data', st))"
proof (induction G m c rt d data rule: parse_data.induct)
  case (1 G m c rt d data)
  show ?case
  proof (cases "has_next d \<and> \<not> (rt = RtIn \<and> \<not> is_write_only d)")
    case False
    then show ?thesis by (auto simp: parse_data.simps [of G m c] check_data_desc_def)
  next
    case True
    then have ok: "check_data_desc (raw_of_split d) rt = Inr ()" by (auto simp: check_data_desc_def)
    show ?thesis
    proof (cases "chain_next G m c")
      case (Pair c' r)
      show ?thesis
      proof (cases r)
        case None
        with True ok Pair show ?thesis
          by (auto simp: parse_data.simps [of G m c] chain_collect_None)
      next
        case (Some d')
        with "1.IH" [of "()" c' r d'] True ok Pair show ?thesis
          by (auto simp: parse_data.simps [of G m c] chain_collect_Some split: sum.splits)
      qed
    qed
  qed
qed

lemma check_status_desc_eq:
  "check_status_desc G m (raw_of_split st) =
     (if \<not> is_write_only st then Inl BlkUnexpectedReadOnlyDescriptor
      else if sd_len st = 0 then Inl BlkDescriptorLengthTooSmall
      else if gm_check_address G m (sd_addr st) = None
        then Inl (BlkGuestMemory (InvalidGuestAddress (sd_addr st)))
      else Inr ())"
  by (auto simp: check_status_desc_def word_less_nat_alt unat_eq_zero split: option.splits)

lemma parse_data_start:
  "snd (parse_data G m c rt d []) = parse_data_descs rt (d # chain_collect G m c)"
  unfolding parse_data_descs_eq by (simp split: sum.split)

lemma parse_rest_descs:
  "snd (parse_rest G m c h) =
     (case parse_data_descs (request_type_from (rh_request_type h)) (chain_collect G m c) of
        Inl e \<Rightarrow> Inl e
      | Inr (data, st) \<Rightarrow>
          (case check_status_desc G m (raw_of_split st) of
             Inl e \<Rightarrow> Inl e
           | Inr _ \<Rightarrow> Inr \<lparr>rq_request_type = request_type_from (rh_request_type h), rq_data = data,
                           rq_sector = rh_sector h, rq_status_addr = sd_addr st\<rparr>))"
proof (cases "chain_next G m c")
  case (Pair c2 r)
  let ?rt = "request_type_from (rh_request_type h)"
  show ?thesis
  proof (cases r)
    case None
    with Pair show ?thesis by (simp add: parse_rest_def chain_collect_None)
  next
    case (Some d)
    obtain c3 x where x: "parse_data G m c2 ?rt d [] = (c3, x)" by fastforce
    then have "parse_data_descs ?rt (chain_collect G m c) = x"
      using parse_data_start [of G m c2 ?rt d] chain_collect_Some [OF Pair [unfolded Some]] by simp
    with Pair Some x show ?thesis
      by (auto simp: parse_rest_def split: sum.split)
  qed
qed

lemma blk_parse_descs: "snd (blk_parse G m c) = parse_descs G m (chain_collect G m c)"
proof (cases "chain_next G m c")
  case (Pair c1 r)
  show ?thesis
  proof (cases r)
    case None
    with Pair show ?thesis by (simp add: blk_parse_def parse_descs_def chain_collect_None)
  next
    case (Some h)
    note Pair [unfolded Some] chain_collect_Some [OF Pair [unfolded Some]]
    then show ?thesis
      by (auto simp: blk_parse_def parse_descs_def parse_rest_descs check_status_desc_eq
          request_type_flush Let_def split: sum.split)
  qed
qed

lemma parse_data_descs_bytes:
  "parse_data_descs rt ds = Inr (data, st) \<Longrightarrow>
     sum_list (map (\<lambda>x. unat (snd x)) data) + unat (sd_len st) \<le> sum_list (map (\<lambda>d. unat (sd_len d)) ds)"
  by (induction ds arbitrary: data) (auto split: if_splits sum.splits)

text \<open>A read request laid out in the descriptor table.\<close>

lemma parse_data_laid_out:
  assumes "laid_out G m tbl qs i (data @ [st])" and "\<forall>d\<in>set data. is_write_only d"
  shows "parse_data_descs RtIn (data @ [st]) = Inr (map (\<lambda>d. (sd_addr d, sd_len d)) data, st)"
  using assms
proof (induction data arbitrary: i)
  case (Cons d data)
  then show ?case by (cases "data @ [st]") auto
qed simp

end
