(* ===== verification/Blk_Executor.thy ===== *)
theory Blk_Executor
  imports Blk_Request Descriptor_Utils
begin

text \<open>
  Execution of block requests (\<open>virtio-blk/src/stdio_executor.rs\<close>). The backend (\<open>Seek\<close>, \<open>FileSync\<close>,
  \<open>PunchHole\<close>, \<open>WriteZeroesAt\<close>) and the volatile transfers between it and guest memory belong to other
  crates: they are the record \<open>blk_io\<close>, and the locale \<open>blk_disk\<close> states what a backend promises over a
  view of its contents. An out-of-range slice of the device id would panic: the value \<open>None\<close>.
\<close>

section \<open>Data and errors\<close>

record discard_write_zeroes =
  dwz_sector :: u64
  dwz_num_sectors :: u32
  dwz_flags :: u32

definition DWZ_UNMAP :: u32 where "DWZ_UNMAP = 1"
definition DWZ_LEN :: u64 where "DWZ_LEN = 16"

definition dwz_of_bytes :: "endian \<Rightarrow> byte list \<Rightarrow> discard_write_zeroes" where
  "dwz_of_bytes e bs =
     \<lparr>dwz_sector = native_word e (take 8 bs),
      dwz_num_sectors = native_word e (take 4 (drop 8 bs)),
      dwz_flags = native_word e (take 4 (drop 12 bs))\<rparr>"

datatype exec_error =
    ExDiscardWriteZeroes io_error
  | ExFlush io_error
  | ExGuestMemory gm_error
  | ExInvalidAccess
  | ExInvalidFlags
  | ExInvalidDataLength
  | ExOverflow
  | ExRead gm_error u32
  | ExReadOnly
  | ExWrite gm_error
  | ExSeek io_error
  | ExUnsupported u32

fun exec_error_status :: "exec_error \<Rightarrow> u8" where
  "exec_error_status (ExDiscardWriteZeroes _) = VIRTIO_BLK_S_IOERR"
| "exec_error_status (ExFlush _) = VIRTIO_BLK_S_IOERR"
| "exec_error_status (ExGuestMemory _) = VIRTIO_BLK_S_IOERR"
| "exec_error_status ExInvalidAccess = VIRTIO_BLK_S_IOERR"
| "exec_error_status ExInvalidFlags = VIRTIO_BLK_S_UNSUPP"
| "exec_error_status ExInvalidDataLength = VIRTIO_BLK_S_IOERR"
| "exec_error_status ExOverflow = VIRTIO_BLK_S_IOERR"
| "exec_error_status (ExRead _ _) = VIRTIO_BLK_S_IOERR"
| "exec_error_status ExReadOnly = VIRTIO_BLK_S_IOERR"
| "exec_error_status (ExWrite _) = VIRTIO_BLK_S_IOERR"
| "exec_error_status (ExSeek _) = VIRTIO_BLK_S_IOERR"
| "exec_error_status (ExUnsupported _) = VIRTIO_BLK_S_UNSUPP"

text \<open>The message of an error; \<open>io\<close> and \<open>gm\<close> print the errors it wraps.\<close>

fun exec_error_display :: "(io_error \<Rightarrow> string) \<Rightarrow> (gm_error \<Rightarrow> string) \<Rightarrow> exec_error \<Rightarrow> string" where
  "exec_error_display io gm (ExDiscardWriteZeroes err) = ''discard/write zeroes execution failed: '' @ io err"
| "exec_error_display io gm (ExFlush err) = ''flush execution failed: '' @ io err"
| "exec_error_display io gm (ExGuestMemory err) = ''error accessing guest memory: '' @ gm err"
| "exec_error_display io gm ExInvalidAccess = ''invalid file access''"
| "exec_error_display io gm ExInvalidDataLength = ''invalid data length of request''"
| "exec_error_display io gm ExInvalidFlags = ''invalid flags for discard/write zeroes request''"
| "exec_error_display io gm ExOverflow = ''overflow when computing memory address''"
| "exec_error_display io gm (ExRead err _) = ''error during read request execution: '' @ gm err"
| "exec_error_display io gm ExReadOnly =
     ''can't execute an operation other than `read` on a read-only device''"
| "exec_error_display io gm (ExWrite err) = ''error during write request execution: '' @ gm err"
| "exec_error_display io gm (ExSeek err) = ''file seek execution failed: '' @ io err"
| "exec_error_display io gm (ExUnsupported t) = ''can't execute unsupported request '' @ show_nat (unat t)"

datatype process_req_error =
    PrGuestMemory gm_error
  | PrOverflow

section \<open>The backend\<close>

datatype seek_from = SeekStart u64 | SeekEnd int

record ('m, 'b) blk_io =
  io_seek :: "'b \<Rightarrow> seek_from \<Rightarrow> 'b \<times> (io_error + u64)"
  io_fsync :: "'b \<Rightarrow> 'b \<times> (io_error + unit)"
  io_punch_hole :: "'b \<Rightarrow> u64 \<Rightarrow> u64 \<Rightarrow> 'b \<times> (io_error + unit)"
  io_write_all_zeroes_at :: "'b \<Rightarrow> u64 \<Rightarrow> nat \<Rightarrow> 'b \<times> (io_error + unit)"
  io_read_exact_from :: "'m \<Rightarrow> u64 \<Rightarrow> 'b \<Rightarrow> nat \<Rightarrow> 'm \<times> 'b \<times> (gm_error + unit)"
  io_write_all_to :: "'m \<Rightarrow> u64 \<Rightarrow> 'b \<Rightarrow> nat \<Rightarrow> 'b \<times> (gm_error + unit)"
  io_read_exact_bytes :: "'m \<Rightarrow> u64 \<Rightarrow> byte list \<Rightarrow> nat \<Rightarrow> 'm \<times> (gm_error + unit)"

record 'b stdio_backend =
  sb_inner :: 'b
  sb_num_sectors :: u64
  sb_features :: u64
  sb_device_id :: "byte list option"

definition stdio_backend_new :: "('m, 'b) blk_io \<Rightarrow> 'b \<Rightarrow> u64 \<Rightarrow> exec_error + 'b stdio_backend" where
  "stdio_backend_new V inner features =
     (case io_seek V inner (SeekEnd 0) of
        (_, Inl e) \<Rightarrow> Inl (ExSeek e)
      | (inner', Inr disk_size) \<Rightarrow>
          Inr \<lparr>sb_inner = inner', sb_num_sectors = drop_bit SECTOR_SHIFT disk_size,
               sb_features = features, sb_device_id = None\<rparr>)"

definition with_device_id :: "'b stdio_backend \<Rightarrow> byte list \<Rightarrow> 'b stdio_backend" where
  "with_device_id sb device_id = sb\<lparr>sb_device_id := Some device_id\<rparr>"

definition has_feature :: "'b stdio_backend \<Rightarrow> nat \<Rightarrow> bool" where
  "has_feature sb feature_pos \<longleftrightarrow> sb_features sb AND push_bit feature_pos 1 \<noteq> 0"

definition check_access :: "'b stdio_backend \<Rightarrow> u64 \<Rightarrow> u64 \<Rightarrow> exec_error + unit" where
  "check_access sb sectors_count sector =
     (case checked_add sectors_count sector of
        None \<Rightarrow> Inl ExInvalidAccess
      | Some n \<Rightarrow> if n > sb_num_sectors sb then Inl ExInvalidAccess else Inr ())"

definition check_request :: "'b stdio_backend \<Rightarrow> request_type \<Rightarrow> exec_error + unit" where
  "check_request sb rt =
     (if has_feature sb VIRTIO_BLK_F_RO \<and> rt \<noteq> RtIn then Inl ExReadOnly
      else if rt = RtFlush \<and> \<not> has_feature sb VIRTIO_BLK_F_FLUSH then Inl (ExUnsupported VIRTIO_BLK_T_FLUSH)
      else if rt = RtDiscard \<and> \<not> has_feature sb VIRTIO_BLK_F_DISCARD
        then Inl (ExUnsupported VIRTIO_BLK_T_DISCARD)
      else if rt = RtWriteZeroes \<and> \<not> has_feature sb VIRTIO_BLK_F_WRITE_ZEROES
        then Inl (ExUnsupported VIRTIO_BLK_T_WRITE_ZEROES)
      else Inr ())"

section \<open>Execution\<close>

definition handle_discard_write_zeroes ::
    "('m, 'b) blk_io \<Rightarrow> 'b stdio_backend \<Rightarrow> discard_write_zeroes \<Rightarrow> request_type \<Rightarrow>
     'b stdio_backend \<times> (exec_error + u32)" where
  "handle_discard_write_zeroes V sb segment rt =
     (let sector = dwz_sector segment;
          num_sectors = dwz_num_sectors segment;
          flags = dwz_flags segment;
          valid_flags = (if rt = RtWriteZeroes then DWZ_UNMAP else 0) in
      if flags AND NOT valid_flags \<noteq> 0 then (sb, Inl ExInvalidFlags)
      else case checked_shl sector SECTOR_SHIFT of
        None \<Rightarrow> (sb, Inl ExInvalidAccess)
      | Some offset \<Rightarrow>
          (case checked_shl (ucast num_sectors :: u64) SECTOR_SHIFT of
             None \<Rightarrow> (sb, Inl ExInvalidAccess)
           | Some len \<Rightarrow>
               (case check_access sb (ucast num_sectors) sector of
                  Inl e \<Rightarrow> (sb, Inl e)
                | Inr _ \<Rightarrow>
                    if rt = RtDiscard then
                      (sb\<lparr>sb_inner := fst (io_punch_hole V (sb_inner sb) offset len)\<rparr>, Inr 0)
                    else
                      let (b1, failed) =
                        (if flags AND DWZ_UNMAP = 0 then (sb_inner sb, True)
                         else case io_punch_hole V (sb_inner sb) offset len of
                           (b, Inl _) \<Rightarrow> (b, True) | (b, Inr _) \<Rightarrow> (b, False)) in
                      if failed then
                        (case io_write_all_zeroes_at V b1 offset (unat len) of
                           (b2, Inl e) \<Rightarrow> (sb\<lparr>sb_inner := b2\<rparr>, Inl (ExDiscardWriteZeroes e))
                         | (b2, Inr _) \<Rightarrow> (sb\<lparr>sb_inner := b2\<rparr>, Inr 0))
                      else (sb\<lparr>sb_inner := b1\<rparr>, Inr 0))))"

text \<open>The error of a failed transfer into memory counts the bytes that were written.\<close>

definition read_error :: "gm_error \<Rightarrow> u32 \<Rightarrow> exec_error" where
  "read_error e bytes_to_mem =
     ExRead e (case e of
       PartialBuffer expct completd \<Rightarrow> bytes_to_mem + of_nat completd
     | _ \<Rightarrow> bytes_to_mem)"

fun exec_in ::
    "('m, 'b) blk_io \<Rightarrow> 'm \<Rightarrow> 'b \<Rightarrow> (u64 \<times> u32) list \<Rightarrow> u32 \<Rightarrow> 'm \<times> 'b \<times> (exec_error + u32)" where
  "exec_in V m b [] bytes_to_mem = (m, b, Inr bytes_to_mem)"
| "exec_in V m b ((data_addr, data_len) # ds) bytes_to_mem =
     (case io_read_exact_from V m data_addr b (unat data_len) of
        (m', b', Inl e) \<Rightarrow> (m', b', Inl (read_error e bytes_to_mem))
      | (m', b', Inr _) \<Rightarrow> exec_in V m' b' ds (bytes_to_mem + data_len))"

fun exec_out ::
    "('m, 'b) blk_io \<Rightarrow> 'm \<Rightarrow> 'b \<Rightarrow> (u64 \<times> u32) list \<Rightarrow> 'b \<times> (exec_error + unit)" where
  "exec_out V m b [] = (b, Inr ())"
| "exec_out V m b ((data_addr, data_len) # ds) =
     (case io_write_all_to V m data_addr b (unat data_len) of
        (b', Inl e) \<Rightarrow> (b', Inl (ExWrite e))
      | (b', Inr _) \<Rightarrow> exec_out V m b' ds)"

text \<open>\<open>&bs[i..j]\<close> panics unless \<open>i \<le> j\<close> and \<open>j\<close> is in range.\<close>

definition slice_range :: "'a list \<Rightarrow> nat \<Rightarrow> nat \<Rightarrow> 'a list option" where
  "slice_range bs i j = (if i \<le> j \<and> j \<le> length bs then Some (take (j - i) (drop i bs)) else None)"

fun exec_get_id ::
    "('m, 'b) blk_io \<Rightarrow> 'm \<Rightarrow> byte list \<Rightarrow> (u64 \<times> u32) list \<Rightarrow> u32 \<Rightarrow> ('m \<times> (exec_error + u32)) option" where
  "exec_get_id V m device_id [] bytes_to_mem = Some (m, Inr bytes_to_mem)"
| "exec_get_id V m device_id ((data_addr, data_len) # ds) bytes_to_mem =
     (case slice_range device_id (unat bytes_to_mem) (unat (data_len + bytes_to_mem)) of
        None \<Rightarrow> None
      | Some src \<Rightarrow>
          (case io_read_exact_bytes V m data_addr src (unat data_len) of
             (m', Inl e) \<Rightarrow> Some (m', Inl (read_error e bytes_to_mem))
           | (m', Inr _) \<Rightarrow> exec_get_id V m' device_id ds (bytes_to_mem + data_len)))"

function exec_segments ::
    "'m guest_memory \<Rightarrow> ('m, 'b) blk_io \<Rightarrow> 'm \<Rightarrow> 'b stdio_backend \<Rightarrow> request_type \<Rightarrow> u64 \<Rightarrow> u64 \<Rightarrow>
     'b stdio_backend \<times> (exec_error + unit)" where
  "exec_segments G V m sb rt crt_addr available_bytes =
     (if available_bytes \<ge> DWZ_LEN then
        (case gm_read_slice G m crt_addr 16 of
           Inl e \<Rightarrow> (sb, Inl (ExGuestMemory e))
         | Inr bs \<Rightarrow>
             (case handle_discard_write_zeroes V sb (dwz_of_bytes (gm_endian G) bs) rt of
                (sb', Inl e) \<Rightarrow> (sb', Inl e)
              | (sb', Inr _) \<Rightarrow>
                  exec_segments G V m sb' rt (crt_addr + DWZ_LEN) (available_bytes - DWZ_LEN)))
      else (sb, Inr ()))"
  by pat_completeness auto
termination
  by (relation "measure (\<lambda>(G, V, m, sb, rt, a, n). unat n)")
    (auto simp: DWZ_LEN_def word_le_nat_alt unat_sub)

declare exec_segments.simps [simp del]

fun exec_discard ::
    "'m guest_memory \<Rightarrow> ('m, 'b) blk_io \<Rightarrow> 'm \<Rightarrow> 'b stdio_backend \<Rightarrow> request_type \<Rightarrow> (u64 \<times> u32) list \<Rightarrow>
     'b stdio_backend \<times> (exec_error + unit)" where
  "exec_discard G V m sb rt [] = (sb, Inr ())"
| "exec_discard G V m sb rt ((data_addr, data_len) # ds) =
     (if (ucast data_len :: u64) mod DWZ_LEN \<noteq> 0 then (sb, Inl ExInvalidDataLength)
      else case checked_add data_addr (ucast data_len) of
        None \<Rightarrow> (sb, Inl ExOverflow)
      | Some _ \<Rightarrow>
          (case exec_segments G V m sb rt data_addr (ucast data_len) of
             (sb', Inl e) \<Rightarrow> (sb', Inl e)
           | (sb', Inr _) \<Rightarrow> exec_discard G V m sb' rt ds))"

definition execute_type ::
    "'m guest_memory \<Rightarrow> ('m, 'b) blk_io \<Rightarrow> 'b stdio_backend \<Rightarrow> 'm \<Rightarrow> request \<Rightarrow>
     ('b stdio_backend \<times> 'm \<times> (exec_error + u32)) option" where
  "execute_type G V sb m r =
     (let tot_len = total_data_len r; rt = rq_request_type r in
      case rt of
        RtIn \<Rightarrow>
          (case check_access sb (tot_len div SECTOR_SIZE) (rq_sector r) of
             Inl e \<Rightarrow> Some (sb, m, Inl e)
           | Inr _ \<Rightarrow>
               if tot_len > 0xFFFFFFFF then Some (sb, m, Inl ExInvalidDataLength)
               else (case exec_in V m (sb_inner sb) (rq_data r) 0 of
                       (m', b', res) \<Rightarrow> Some (sb\<lparr>sb_inner := b'\<rparr>, m', res)))
      | RtOut \<Rightarrow>
          (case check_access sb (tot_len div SECTOR_SIZE) (rq_sector r) of
             Inl e \<Rightarrow> Some (sb, m, Inl e)
           | Inr _ \<Rightarrow>
               (case exec_out V m (sb_inner sb) (rq_data r) of
                  (b', Inl e) \<Rightarrow> Some (sb\<lparr>sb_inner := b'\<rparr>, m, Inl e)
                | (b', Inr _) \<Rightarrow> Some (sb\<lparr>sb_inner := b'\<rparr>, m, Inr 0)))
      | RtFlush \<Rightarrow>
          (case io_fsync V (sb_inner sb) of
             (b', Inl e) \<Rightarrow> Some (sb\<lparr>sb_inner := b'\<rparr>, m, Inl (ExFlush e))
           | (b', Inr _) \<Rightarrow> Some (sb\<lparr>sb_inner := b'\<rparr>, m, Inr 0))
      | RtGetDeviceID \<Rightarrow>
          (case sb_device_id sb of
             None \<Rightarrow> Some (sb, m, Inl (ExUnsupported VIRTIO_BLK_T_GET_ID))
           | Some device_id \<Rightarrow>
               if tot_len \<noteq> of_nat VIRTIO_BLK_ID_BYTES then Some (sb, m, Inl ExInvalidDataLength)
               else (case exec_get_id V m device_id (rq_data r) 0 of
                       None \<Rightarrow> None
                     | Some (m', res) \<Rightarrow> Some (sb, m', res)))
      | RtUnsupported t \<Rightarrow> Some (sb, m, Inl (ExUnsupported t))
      | _ \<Rightarrow>
          (case exec_discard G V m sb rt (rq_data r) of
             (sb', Inl e) \<Rightarrow> Some (sb', m, Inl e)
           | (sb', Inr _) \<Rightarrow> Some (sb', m, Inr 0)))"

definition execute ::
    "'m guest_memory \<Rightarrow> ('m, 'b) blk_io \<Rightarrow> 'b stdio_backend \<Rightarrow> 'm \<Rightarrow> request \<Rightarrow>
     ('b stdio_backend \<times> 'm \<times> (exec_error + u32)) option" where
  "execute G V sb m r =
     (case checked_shl (rq_sector r) SECTOR_SHIFT of
        None \<Rightarrow> Some (sb, m, Inl ExInvalidAccess)
      | Some offset \<Rightarrow>
          (case io_seek V (sb_inner sb) (SeekStart offset) of
             (b, Inl e) \<Rightarrow> Some (sb\<lparr>sb_inner := b\<rparr>, m, Inl (ExSeek e))
           | (b, Inr _) \<Rightarrow>
               let sb1 = sb\<lparr>sb_inner := b\<rparr>; rt = rq_request_type r in
               (case check_request sb1 rt of
                  Inl e \<Rightarrow> Some (sb1, m, Inl e)
                | Inr _ \<Rightarrow>
                    if (rt = RtIn \<or> rt = RtOut) \<and> total_data_len r mod SECTOR_SIZE \<noteq> 0
                    then Some (sb1, m, Inl ExInvalidDataLength)
                    else execute_type G V sb1 m r)))"

definition process_request ::
    "'m guest_memory \<Rightarrow> ('m, 'b) blk_io \<Rightarrow> 'b stdio_backend \<Rightarrow> 'm \<Rightarrow> request \<Rightarrow>
     ('b stdio_backend \<times> 'm \<times> (process_req_error + u32)) option" where
  "process_request G V sb m r =
     (case execute G V sb m r of
        None \<Rightarrow> None
      | Some (sb', m', res) \<Rightarrow>
          let (status, len) =
            (case res of
               Inr len \<Rightarrow> (VIRTIO_BLK_S_OK, len)
             | Inl e \<Rightarrow>
                 (exec_error_status e, case e of ExRead _ bytes_to_mem \<Rightarrow> bytes_to_mem | _ \<Rightarrow> 0)) in
          (case gm_write_slice G m' (rq_status_addr r) [status] of
             (m'', Inl e) \<Rightarrow> Some (sb', m'', Inl (PrGuestMemory e))
           | (m'', Inr _) \<Rightarrow>
               (case checked_add len 1 of
                  None \<Rightarrow> Some (sb', m'', Inl PrOverflow)
                | Some n \<Rightarrow> Some (sb', m'', Inr n))))"

section \<open>Sectors and lengths\<close>

definition data_slices :: "(u64 \<times> u32) list \<Rightarrow> vslice list" where
  "data_slices data = map (\<lambda>(a, l). \<lparr>vs_addr = a, vs_len = unat l\<rparr>) data"

lemma data_slices_simps [simp]:
  "data_slices [] = []"
  "data_slices ((a, l) # ds) = \<lparr>vs_addr = a, vs_len = unat l\<rparr> # data_slices ds"
  by (simp_all add: data_slices_def)

lemma total_data_len_lens:
  assumes "lens (data_slices (rq_data r)) < 2 ^ 64"
  shows "unat (total_data_len r) = lens (data_slices (rq_data r))"
proof -
  have "lens (data_slices ds) < 2 ^ 64 \<Longrightarrow>
      unat (sum_list (map (\<lambda>x. ucast (snd x)) ds) :: u64) = lens (data_slices ds)" for ds
  proof (induction ds)
    case (Cons d ds)
    obtain a l where d: "d = (a, l)" by (cases d)
    have "unat (ucast l + sum_list (map (\<lambda>x. ucast (snd x)) ds) :: u64) =
        unat (ucast l :: u64) + unat (sum_list (map (\<lambda>x. ucast (snd x)) ds) :: u64)"
      using Cons d by (intro unat_add_no_wrap) simp
    with Cons d show ?case by simp
  qed simp
  with assms show ?thesis by (simp add: total_data_len_def)
qed

lemma SECTOR_SIZE_512: "SECTOR_SIZE = 512" "unat SECTOR_SIZE = 512"
  by (simp_all add: SECTOR_SIZE_def SECTOR_SHIFT_def)

text \<open>The shift by the sector size loses no bits for a sector \<open>check_access\<close> accepts.\<close>

lemma check_access_iff:
  "check_access sb n s = Inr () \<longleftrightarrow> unat n + unat s \<le> unat (sb_num_sectors sb)"
proof (cases "unat n + unat s < 2 ^ 64")
  case True
  then have c: "checked_add n s = Some (n + s)" and u: "unat (n + s) = unat n + unat s"
    by (auto intro: checked_add_SomeI unat_add_no_wrap)
  from u show ?thesis by (simp add: check_access_def c word_less_nat_alt not_less)
next
  case False
  then have "checked_add n s = None" by (simp add: checked_add_eq_None)
  moreover have "unat (sb_num_sectors sb) < 2 ^ 64" by simp
  then have "\<not> unat n + unat s \<le> unat (sb_num_sectors sb)" using False by linarith
  ultimately show ?thesis by (simp add: check_access_def)
qed

lemma check_access_err: "check_access sb n s \<noteq> Inr () \<Longrightarrow> check_access sb n s = Inl ExInvalidAccess"
  by (auto simp: check_access_def split: option.splits)

lemma unat_sector_offset:
  assumes "unat s < 2 ^ 55"
  shows "unat (push_bit 9 s :: u64) = unat s * 512"
proof -
  have "unat (push_bit 9 s :: u64) = unat (s * 512)" by (simp add: push_bit_eq_mult)
  also have "\<dots> = unat s * 512 mod 2 ^ 64" by (simp add: unat_word_ariths)
  finally show ?thesis using assms by simp
qed

section \<open>What a backend promises\<close>

text \<open>A disk is seen as its bytes and a position. Transfers move bytes between the position and
  accessible guest memory, as long as they stay inside the disk.\<close>

definition overwrite :: "'a list \<Rightarrow> nat \<Rightarrow> 'a list \<Rightarrow> 'a list" where
  "overwrite xs i ys = take i xs @ ys @ drop (i + length ys) xs"

lemma length_overwrite [simp]: "i + length ys \<le> length xs \<Longrightarrow> length (overwrite xs i ys) = length xs"
  by (simp add: overwrite_def)

lemma overwrite_append:
  "i + length ys \<le> length xs \<Longrightarrow>
     overwrite (overwrite xs i ys) (i + length ys) zs = overwrite xs i (ys @ zs)"
  by (simp add: overwrite_def add.assoc add.commute add.left_commute)

lemma take_drop_overwrite [simp]:
  "i + length ys \<le> length xs \<Longrightarrow> take (length ys) (drop i (overwrite xs i ys)) = ys"
  by (simp add: overwrite_def)

text \<open>A backend whose sectors lie on the disk.\<close>

definition backend_ok :: "('b \<Rightarrow> byte list) \<Rightarrow> 'b stdio_backend \<Rightarrow> bool" where
  "backend_ok disk sb \<longleftrightarrow>
     unat (sb_num_sectors sb) * 512 \<le> length (disk (sb_inner sb)) \<and> length (disk (sb_inner sb)) < 2 ^ 63"

lemma sectors_fit:
  assumes "s + n div 512 \<le> k" and "n mod 512 = 0"
  shows "s * 512 + n \<le> k * (512 :: nat)"
proof -
  have "n = n div 512 * 512" using assms(2) div_mult_mod_eq [of n 512] by simp
  then have "s * 512 + n = (s + n div 512) * 512" by (simp add: add_mult_distrib)
  with assms(1) show ?thesis by simp
qed

locale blk_disk = guest_mem G peek acc
  for G :: "'m guest_memory" and peek :: "'m \<Rightarrow> u64 \<Rightarrow> byte" and acc :: "'m \<Rightarrow> u64 \<Rightarrow> nat \<Rightarrow> bool" +
  fixes V :: "('m, 'b) blk_io"
    and disk :: "'b \<Rightarrow> byte list"
    and pos :: "'b \<Rightarrow> nat"
  assumes seek_end_law: "length (disk b) < 2 ^ 63 \<Longrightarrow>
        \<exists>b'. io_seek V b (SeekEnd 0) = (b', Inr (of_nat (length (disk b)))) \<and> disk b' = disk b"
    and seek_start_law: "unat off \<le> length (disk b) \<Longrightarrow>
        \<exists>b'. io_seek V b (SeekStart off) = (b', Inr off) \<and> disk b' = disk b \<and> pos b' = unat off"
    and seek_keeps: "disk (fst (io_seek V b sf)) = disk b"
    and fsync_keeps: "disk (fst (io_fsync V b)) = disk b"
    and read_from_law: "acc m a n \<Longrightarrow> pos b + n \<le> length (disk b) \<Longrightarrow>
        \<exists>m' b'. io_read_exact_from V m a b n = (m', b', Inr ()) \<and> disk b' = disk b \<and> pos b' = pos b + n \<and>
          peek m' = poke (peek m) a (take n (drop (pos b) (disk b))) \<and> acc m' = acc m"
    and write_to_law: "acc m a n \<Longrightarrow> pos b + n \<le> length (disk b) \<Longrightarrow>
        \<exists>b'. io_write_all_to V m a b n = (b', Inr ()) \<and> pos b' = pos b + n \<and>
          disk b' = overwrite (disk b) (pos b) (peek_bytes (peek m) a n)"
    and read_bytes_law: "acc m a n \<Longrightarrow> length src = n \<Longrightarrow>
        \<exists>m'. io_read_exact_bytes V m a src n = (m', Inr ()) \<and> peek m' = poke (peek m) a src \<and> acc m' = acc m"
    and zeroes_law: "unat off + n \<le> length (disk b) \<Longrightarrow>
        \<exists>b'. io_write_all_zeroes_at V b off n = (b', Inr ()) \<and>
          disk b' = overwrite (disk b) (unat off) (replicate n 0)"
    and punch_law: "unat off + unat len \<le> length (disk b) \<Longrightarrow>
        \<exists>b' r. io_punch_hole V b off len = (b', r) \<and>
          disk b' = (case r of Inr _ \<Rightarrow> overwrite (disk b) (unat off) (replicate (unat len) 0) | Inl _ \<Rightarrow> disk b)"
begin

lemma exec_in_spec:
  assumes "\<forall>vs\<in>set (data_slices ds). acc m (vs_addr vs) (vs_len vs)"
    and "pos b + lens (data_slices ds) \<le> length (disk b)"
  shows "\<exists>m' b'. exec_in V m b ds n = (m', b', Inr (n + of_nat (lens (data_slices ds)))) \<and>
    peek m' = pokes (peek m) (drop (pos b) (disk b)) (data_slices ds) \<and> acc m' = acc m \<and> disk b' = disk b"
  using assms
proof (induction ds arbitrary: m b n)
  case (Cons d ds)
  obtain a l where d: "d = (a, l)" by (cases d)
  obtain m1 b1 where s: "io_read_exact_from V m a b (unat l) = (m1, b1, Inr ())" "disk b1 = disk b"
      "pos b1 = pos b + unat l" "peek m1 = poke (peek m) a (take (unat l) (drop (pos b) (disk b)))" "acc m1 = acc m"
    using read_from_law [of m a "unat l" b] Cons.prems d by auto
  have "\<forall>vs\<in>set (data_slices ds). acc m1 (vs_addr vs) (vs_len vs)"
    "pos b1 + lens (data_slices ds) \<le> length (disk b1)"
    using Cons.prems d s by auto
  from Cons.IH [OF this, of "n + l"] obtain m' b' where
      "exec_in V m1 b1 ds (n + l) = (m', b', Inr (n + l + of_nat (lens (data_slices ds))))"
      "peek m' = pokes (peek m1) (drop (pos b1) (disk b1)) (data_slices ds)" "acc m' = acc m1" "disk b' = disk b1"
    by blast
  with s d show ?case by (simp add: add.commute add.left_commute drop_drop)
qed simp

lemma exec_out_spec:
  assumes "\<forall>vs\<in>set (data_slices ds). acc m (vs_addr vs) (vs_len vs)"
    and "pos b + lens (data_slices ds) \<le> length (disk b)"
  shows "\<exists>b'. exec_out V m b ds = (b', Inr ()) \<and>
    disk b' = overwrite (disk b) (pos b) (stream_of (peek m) (data_slices ds))"
  using assms
proof (induction ds arbitrary: b)
  case Nil
  then show ?case by (simp add: overwrite_def)
next
  case (Cons d ds)
  obtain a l where d: "d = (a, l)" by (cases d)
  obtain b1 where s: "io_write_all_to V m a b (unat l) = (b1, Inr ())" "pos b1 = pos b + unat l"
      "disk b1 = overwrite (disk b) (pos b) (peek_bytes (peek m) a (unat l))"
    using write_to_law [of m a "unat l" b] Cons.prems d by auto
  have "\<forall>vs\<in>set (data_slices ds). acc m (vs_addr vs) (vs_len vs)"
    "pos b1 + lens (data_slices ds) \<le> length (disk b1)"
    using Cons.prems d s by auto
  from Cons.IH [OF this] obtain b' where b': "exec_out V m b1 ds = (b', Inr ())"
      "disk b' = overwrite (disk b1) (pos b1) (stream_of (peek m) (data_slices ds))" by blast
  moreover have "overwrite (disk b1) (pos b1) (stream_of (peek m) (data_slices ds)) =
      overwrite (disk b) (pos b) (peek_bytes (peek m) a (unat l) @ stream_of (peek m) (data_slices ds))"
    using overwrite_append [of "pos b" "peek_bytes (peek m) a (unat l)" "disk b"] Cons.prems d s by simp
  ultimately show ?case using s d by simp
qed

lemma stdio_backend_new_ok:
  assumes "length (disk b) < 2 ^ 63"
  shows "\<exists>sb. stdio_backend_new V b f = Inr sb \<and> backend_ok disk sb \<and> disk (sb_inner sb) = disk b \<and>
    unat (sb_num_sectors sb) = length (disk b) div 512 \<and> sb_features sb = f"
proof -
  obtain b' where b': "io_seek V b (SeekEnd 0) = (b', Inr (of_nat (length (disk b))))" "disk b' = disk b"
    using seek_end_law [OF assms] by blast
  have "unat (of_nat (length (disk b)) :: u64) = length (disk b)"
    using assms by (intro unat_of_nat_less) simp
  then have "unat (drop_bit 9 (of_nat (length (disk b))) :: u64) = length (disk b) div 512"
    by (simp add: drop_bit_eq_div unat_div)
  with b' assms show ?thesis by (simp add: stdio_backend_new_def SECTOR_SHIFT_def backend_ok_def)
qed

text \<open>The seek of \<open>execute\<close> succeeds and lands on the sector, for a sector of the disk.\<close>

lemma execute_seek:
  assumes ok: "backend_ok disk sb" and s: "unat (rq_sector r) \<le> unat (sb_num_sectors sb)"
  shows "\<exists>b. io_seek V (sb_inner sb) (SeekStart (push_bit 9 (rq_sector r))) = (b, Inr (push_bit 9 (rq_sector r))) \<and>
    disk b = disk (sb_inner sb) \<and> pos b = unat (rq_sector r) * 512"
proof -
  have "unat (rq_sector r) * 512 \<le> length (disk (sb_inner sb))"
    using ok s by (simp add: backend_ok_def)
  moreover from this have "unat (rq_sector r) < 2 ^ 55" using ok by (simp add: backend_ok_def)
  ultimately show ?thesis
    using seek_start_law [of "push_bit 9 (rq_sector r)" "sb_inner sb"] by (simp add: unat_sector_offset)
qed

lemma aligned_len:
  assumes "lens (data_slices (rq_data r)) < 2 ^ 32"
  shows "unat (total_data_len r) = lens (data_slices (rq_data r))"
    and "total_data_len r mod SECTOR_SIZE = 0 \<longleftrightarrow> lens (data_slices (rq_data r)) mod 512 = 0"
    and "unat (total_data_len r div SECTOR_SIZE) = lens (data_slices (rq_data r)) div 512"
    and "\<not> total_data_len r > 0xFFFFFFFF"
proof -
  show u: "unat (total_data_len r) = lens (data_slices (rq_data r))"
    using assms by (intro total_data_len_lens) simp
  then show "total_data_len r mod SECTOR_SIZE = 0 \<longleftrightarrow> lens (data_slices (rq_data r)) mod 512 = 0"
    by (simp add: word_unat_eq_iff unat_mod SECTOR_SIZE_512)
  show "unat (total_data_len r div SECTOR_SIZE) = lens (data_slices (rq_data r)) div 512"
    using u by (simp add: unat_div SECTOR_SIZE_512)
  show "\<not> total_data_len r > 0xFFFFFFFF" using u assms by (simp add: word_less_nat_alt not_less)
qed

lemma execute_in_spec:
  assumes ok: "backend_ok disk sb" and rt: "rq_request_type r = RtIn"
    and acc: "\<forall>vs\<in>set (data_slices (rq_data r)). acc m (vs_addr vs) (vs_len vs)"
    and sep: "separate (data_slices (rq_data r))"
    and len: "lens (data_slices (rq_data r)) < 2 ^ 32" "lens (data_slices (rq_data r)) mod 512 = 0"
    and range: "unat (rq_sector r) + lens (data_slices (rq_data r)) div 512 \<le> unat (sb_num_sectors sb)"
  shows "\<exists>sb' m'. execute G V sb m r = Some (sb', m', Inr (of_nat (lens (data_slices (rq_data r))))) \<and>
    disk (sb_inner sb') = disk (sb_inner sb) \<and> acc m' = acc m \<and>
    stream_of (peek m') (data_slices (rq_data r)) =
      take (lens (data_slices (rq_data r))) (drop (unat (rq_sector r) * 512) (disk (sb_inner sb)))"
proof -
  let ?vss = "data_slices (rq_data r)" and ?D = "disk (sb_inner sb)"
  obtain b where b: "io_seek V (sb_inner sb) (SeekStart (push_bit 9 (rq_sector r))) = (b, Inr (push_bit 9 (rq_sector r)))"
      "disk b = ?D" "pos b = unat (rq_sector r) * 512"
    using execute_seek [OF ok, of r] range by auto
  have "unat (rq_sector r) * 512 + lens ?vss \<le> unat (sb_num_sectors sb) * 512" using sectors_fit [OF range len(2)] .
  then have fit: "pos b + lens ?vss \<le> length ?D" using ok b by (simp add: backend_ok_def)
  obtain m' b' where x: "exec_in V m b (rq_data r) 0 = (m', b', Inr (of_nat (lens ?vss)))"
      "peek m' = pokes (peek m) (drop (pos b) ?D) ?vss" "acc m' = acc m" "disk b' = ?D"
    using exec_in_spec [OF acc, of b 0] fit b by auto
  have "stream_of (peek m') ?vss = take (lens ?vss) (drop (pos b) ?D)"
    using stream_of_pokes [OF sep, of "peek m" "drop (pos b) ?D"] acc acc_no_wrap fit by (auto simp: x)
  moreover have "check_access (sb\<lparr>sb_inner := b\<rparr>) (total_data_len r div SECTOR_SIZE) (rq_sector r) = Inr ()"
    using range aligned_len(3) [OF len(1)] by (simp add: check_access_iff)
  ultimately show ?thesis
    using rt b x len(2) aligned_len(2,4) [OF len(1)]
    by (simp add: execute_def execute_type_def SECTOR_SHIFT_def checked_shl_9 check_request_def Let_def)
qed

text \<open>Processing a read: the data, then the status byte.\<close>

lemma process_in_spec:
  assumes ok: "backend_ok disk sb" and rt: "rq_request_type r = RtIn"
    and acc: "\<forall>vs\<in>set (data_slices (rq_data r)). acc m (vs_addr vs) (vs_len vs) \<and>
        disjoint_ranges (vs_addr vs) (vs_len vs) (rq_status_addr r) 1"
    and sep: "separate (data_slices (rq_data r))"
    and len: "lens (data_slices (rq_data r)) + 1 < 2 ^ 32" "lens (data_slices (rq_data r)) mod 512 = 0"
    and range: "unat (rq_sector r) + lens (data_slices (rq_data r)) div 512 \<le> unat (sb_num_sectors sb)"
    and st: "acc m (rq_status_addr r) 1"
  shows "\<exists>sb' m'. process_request G V sb m r = Some (sb', m', Inr (of_nat (lens (data_slices (rq_data r))) + 1)) \<and>
    disk (sb_inner sb') = disk (sb_inner sb) \<and> acc m' = acc m \<and> peek m' (rq_status_addr r) = VIRTIO_BLK_S_OK \<and>
    stream_of (peek m') (data_slices (rq_data r)) =
      take (lens (data_slices (rq_data r))) (drop (unat (rq_sector r) * 512) (disk (sb_inner sb)))"
proof -
  let ?vss = "data_slices (rq_data r)" and ?st = "rq_status_addr r"
  obtain sb' m1 where e: "execute G V sb m r = Some (sb', m1, Inr (of_nat (lens ?vss)))"
      "disk (sb_inner sb') = disk (sb_inner sb)" "acc m1 = acc m"
      "stream_of (peek m1) ?vss = take (lens ?vss) (drop (unat (rq_sector r) * 512) (disk (sb_inner sb)))"
    using execute_in_spec [OF ok rt _ sep _ len(2) range, of m] acc len(1) by auto
  have "acc m1 ?st (length [VIRTIO_BLK_S_OK])" using st e(3) by simp
  from write_law [OF this] obtain m2 where m2: "gm_write_slice G m1 ?st [VIRTIO_BLK_S_OK] = (m2, Inr ())"
      "peek m2 = poke (peek m1) ?st [VIRTIO_BLK_S_OK]" "acc m2 = acc m1"
    by blast
  have "stream_of (peek m2) ?vss = stream_of (peek m1) ?vss"
    unfolding m2(2) using acc acc_no_wrap acc_no_wrap [OF st] by (intro stream_of_poke_other) auto
  moreover have "checked_add (of_nat (lens ?vss)) (1 :: u32) = Some (of_nat (lens ?vss) + 1)"
    using len(1) by (intro checked_add_SomeI) (simp add: unat_of_nat_less)
  moreover have "peek m2 ?st = VIRTIO_BLK_S_OK" by (simp add: m2(2) poke_def)
  ultimately show ?thesis using e m2 by (simp add: process_request_def)
qed

lemma execute_out_spec:
  assumes ok: "backend_ok disk sb" and rt: "rq_request_type r = RtOut" and rw: "\<not> has_feature sb VIRTIO_BLK_F_RO"
    and acc: "\<forall>vs\<in>set (data_slices (rq_data r)). acc m (vs_addr vs) (vs_len vs)"
    and len: "lens (data_slices (rq_data r)) < 2 ^ 32" "lens (data_slices (rq_data r)) mod 512 = 0"
    and range: "unat (rq_sector r) + lens (data_slices (rq_data r)) div 512 \<le> unat (sb_num_sectors sb)"
  shows "\<exists>sb'. execute G V sb m r = Some (sb', m, Inr 0) \<and>
    disk (sb_inner sb') =
      overwrite (disk (sb_inner sb)) (unat (rq_sector r) * 512) (stream_of (peek m) (data_slices (rq_data r)))"
proof -
  let ?vss = "data_slices (rq_data r)" and ?D = "disk (sb_inner sb)"
  obtain b where b: "io_seek V (sb_inner sb) (SeekStart (push_bit 9 (rq_sector r))) = (b, Inr (push_bit 9 (rq_sector r)))"
      "disk b = ?D" "pos b = unat (rq_sector r) * 512"
    using execute_seek [OF ok, of r] range by auto
  have "unat (rq_sector r) * 512 + lens ?vss \<le> unat (sb_num_sectors sb) * 512" using sectors_fit [OF range len(2)] .
  then have "pos b + lens ?vss \<le> length (disk b)" using ok b by (simp add: backend_ok_def)
  then obtain b' where x: "exec_out V m b (rq_data r) = (b', Inr ())"
      "disk b' = overwrite ?D (pos b) (stream_of (peek m) ?vss)"
    using exec_out_spec [OF acc, of b] b by auto
  have "check_access (sb\<lparr>sb_inner := b\<rparr>) (total_data_len r div SECTOR_SIZE) (rq_sector r) = Inr ()"
    using range aligned_len(3) [OF len(1)] by (simp add: check_access_iff)
  moreover have "\<not> has_feature (sb\<lparr>sb_inner := b\<rparr>) VIRTIO_BLK_F_RO" using rw by (simp add: has_feature_def)
  ultimately show ?thesis
    using rt b x len(2) aligned_len(2,4) [OF len(1)]
    by (simp add: execute_def execute_type_def SECTOR_SHIFT_def checked_shl_9 check_request_def Let_def)
qed

text \<open>An access beyond the last sector is refused before any transfer, even when the shifted sector
  number wraps.\<close>

lemma execute_out_of_range:
  assumes rt: "rq_request_type r = RtIn \<or> rq_request_type r = RtOut"
    and len: "lens (data_slices (rq_data r)) < 2 ^ 32"
    and range: "unat (sb_num_sectors sb) < unat (rq_sector r) + lens (data_slices (rq_data r)) div 512"
  shows "\<exists>sb' e. execute G V sb m r = Some (sb', m, Inl e) \<and> disk (sb_inner sb') = disk (sb_inner sb) \<and>
    exec_error_status e = VIRTIO_BLK_S_IOERR"
proof -
  obtain b x where b: "io_seek V (sb_inner sb) (SeekStart (push_bit 9 (rq_sector r))) = (b, x)" by fastforce
  then have d: "disk b = disk (sb_inner sb)" using seek_keeps [of "sb_inner sb"] by (metis fst_conv)
  have "check_access (sb\<lparr>sb_inner := b\<rparr>) (total_data_len r div SECTOR_SIZE) (rq_sector r) \<noteq> Inr ()"
    using range aligned_len(3) [OF len] by (simp add: check_access_iff)
  then have "check_access (sb\<lparr>sb_inner := b\<rparr>) (total_data_len r div SECTOR_SIZE) (rq_sector r) = Inl ExInvalidAccess"
    by (rule check_access_err)
  with rt b d show ?thesis
    by (cases x) (auto simp: execute_def execute_type_def SECTOR_SHIFT_def checked_shl_9 check_request_def Let_def)
qed

text \<open>Discard and write zeroes.\<close>

lemma handle_segment_range:
  assumes "unat (dwz_num_sectors sg) + unat (dwz_sector sg) \<le> unat (sb_num_sectors sb)" and ok: "backend_ok disk sb"
  shows "check_access sb (ucast (dwz_num_sectors sg)) (dwz_sector sg) = Inr ()"
    and "unat (push_bit 9 (dwz_sector sg)) = unat (dwz_sector sg) * 512"
    and "unat (push_bit 9 (ucast (dwz_num_sectors sg) :: u64)) = unat (dwz_num_sectors sg) * 512"
    and "unat (dwz_sector sg) * 512 + unat (dwz_num_sectors sg) * 512 \<le> length (disk (sb_inner sb))"
proof -
  show "check_access sb (ucast (dwz_num_sectors sg)) (dwz_sector sg) = Inr ()"
    using assms(1) by (simp add: check_access_iff)
  show "unat (dwz_sector sg) * 512 + unat (dwz_num_sectors sg) * 512 \<le> length (disk (sb_inner sb))"
    using assms(1) ok unfolding backend_ok_def by linarith
  then have "unat (dwz_sector sg) < 2 ^ 55" "unat (dwz_num_sectors sg) < 2 ^ 55"
    using ok unfolding backend_ok_def by simp_all
  then show "unat (push_bit 9 (dwz_sector sg)) = unat (dwz_sector sg) * 512"
    "unat (push_bit 9 (ucast (dwz_num_sectors sg) :: u64)) = unat (dwz_num_sectors sg) * 512"
    by (simp_all add: unat_sector_offset)
qed

lemma write_zeroes_spec:
  assumes range: "unat (dwz_num_sectors sg) + unat (dwz_sector sg) \<le> unat (sb_num_sectors sb)"
    and ok: "backend_ok disk sb" and flags: "dwz_flags sg = 0 \<or> dwz_flags sg = DWZ_UNMAP"
  shows "\<exists>sb'. handle_discard_write_zeroes V sb sg RtWriteZeroes = (sb', Inr 0) \<and>
    sb' = sb\<lparr>sb_inner := sb_inner sb'\<rparr> \<and>
    disk (sb_inner sb') = overwrite (disk (sb_inner sb)) (unat (dwz_sector sg) * 512)
      (replicate (unat (dwz_num_sectors sg) * 512) 0)"
proof -
  note h = handle_segment_range [OF range ok]
  let ?o = "push_bit 9 (dwz_sector sg)" and ?l = "push_bit 9 (ucast (dwz_num_sectors sg) :: u64)"
  obtain bp r where p: "io_punch_hole V (sb_inner sb) ?o ?l = (bp, r)"
      "disk bp = (case r of Inr _ \<Rightarrow> overwrite (disk (sb_inner sb)) (unat ?o) (replicate (unat ?l) 0)
         | Inl _ \<Rightarrow> disk (sb_inner sb))"
    using punch_law [of ?o ?l "sb_inner sb"] h by auto
  obtain z where z: "io_write_all_zeroes_at V b ?o (unat ?l) = (z b, Inr ()) \<and>
      disk (z b) = overwrite (disk b) (unat ?o) (replicate (unat ?l) 0)"
    if "disk b = disk (sb_inner sb)" for b
    using zeroes_law [of ?o "unat ?l"] h by (metis (no_types))
  have fl: "dwz_flags sg AND NOT DWZ_UNMAP = 0" using flags by (auto simp: DWZ_UNMAP_def)
  show ?thesis
    using h fl p z [of "sb_inner sb"] z [of bp] flags
    by (cases r) (auto simp: handle_discard_write_zeroes_def SECTOR_SHIFT_def checked_shl_9 DWZ_UNMAP_def)
qed

end

section \<open>A file on single-region memory\<close>

record disk_file =
  fl_data :: "byte list"
  fl_pos :: nat

definition file_io :: "(region, disk_file) blk_io" where
  "file_io = \<lparr>
     io_seek = (\<lambda>f sf. case sf of
         SeekStart off \<Rightarrow> (f\<lparr>fl_pos := unat off\<rparr>, Inr off)
       | SeekEnd d \<Rightarrow> (f\<lparr>fl_pos := nat (int (length (fl_data f)) + d)\<rparr>, Inr (of_nat (nat (int (length (fl_data f)) + d))))),
     io_fsync = (\<lambda>f. (f, Inr ())),
     io_punch_hole = (\<lambda>f off len.
         (f\<lparr>fl_data := overwrite (fl_data f) (unat off) (replicate (unat len) 0)\<rparr>, Inr ())),
     io_write_all_zeroes_at = (\<lambda>f off n.
         (f\<lparr>fl_data := overwrite (fl_data f) (unat off) (replicate n 0)\<rparr>, Inr ())),
     io_read_exact_from = (\<lambda>m a f n.
         if fl_pos f + n \<le> length (fl_data f) then
           (case sr_write_slice m a (take n (drop (fl_pos f) (fl_data f))) of
              (m', Inl e) \<Rightarrow> (m', f, Inl e)
            | (m', Inr _) \<Rightarrow> (m', f\<lparr>fl_pos := fl_pos f + n\<rparr>, Inr ()))
         else (m, f, Inl (PartialBuffer n 0))),
     io_write_all_to = (\<lambda>m a f n.
         (case sr_read_slice m a n of
            Inl e \<Rightarrow> (f, Inl e)
          | Inr bs \<Rightarrow> (f\<lparr>fl_data := overwrite (fl_data f) (fl_pos f) bs, fl_pos := fl_pos f + n\<rparr>, Inr ()))),
     io_read_exact_bytes = (\<lambda>m a src n.
         (case sr_write_slice m a (take n src) of
            (m', Inl e) \<Rightarrow> (m', Inl e)
          | (m', Inr _) \<Rightarrow> (m', Inr ())))\<rparr>"

interpretation file_disk: blk_disk "single_region e" rg_data sr_acc file_io fl_data fl_pos for e
proof unfold_locales
  fix m :: region and a n and b :: disk_file
  assume acc: "sr_acc m a n" and fit: "fl_pos b + n \<le> length (fl_data b)"
  then show "\<exists>m' b'. io_read_exact_from file_io m a b n = (m', b', Inr ()) \<and> fl_data b' = fl_data b \<and>
      fl_pos b' = fl_pos b + n \<and> rg_data m' = poke (rg_data m) a (take n (drop (fl_pos b) (fl_data b))) \<and>
      sr_acc m' = sr_acc m"
    using sr.write_law [of m a "take n (drop (fl_pos b) (fl_data b))"] by (auto simp: file_io_def)
  show "\<exists>b'. io_write_all_to file_io m a b n = (b', Inr ()) \<and> fl_pos b' = fl_pos b + n \<and>
      fl_data b' = overwrite (fl_data b) (fl_pos b) (peek_bytes (rg_data m) a n)"
    using sr.read_law [OF acc] by (simp add: file_io_def)
next
  fix m :: region and a n and src :: "byte list"
  assume "sr_acc m a n" and "length src = n"
  then show "\<exists>m'. io_read_exact_bytes file_io m a src n = (m', Inr ()) \<and>
      rg_data m' = poke (rg_data m) a src \<and> sr_acc m' = sr_acc m"
    using sr.write_law [of m a src] by (auto simp: file_io_def)
qed (auto simp: file_io_def split: seek_from.splits)

lemmas file_disk_laws = file_disk.blk_disk_axioms

section \<open>No panic\<close>

lemma exec_get_id_total:
  assumes "unat n + lens (data_slices ds) \<le> length device_id" and "length device_id < 2 ^ 32"
  shows "exec_get_id V m device_id ds n \<noteq> None"
  using assms
proof (induction ds arbitrary: m n)
  case (Cons d ds)
  obtain a l where d: "d = (a, l)" by (cases d)
  have u: "unat (l + n) = unat l + unat n" using Cons.prems d by (intro unat_add_no_wrap) simp
  have "exec_get_id V m' device_id ds (n + l) \<noteq> None" for m'
    using Cons.IH [of "n + l" m'] Cons.prems d u by (simp add: add.commute)
  with Cons.prems d u show ?case
    by (auto simp: slice_range_def split: prod.splits sum.splits)
qed simp

lemma execute_total:
  assumes "lens (data_slices (rq_data r)) < 2 ^ 64"
    and "\<And>d. sb_device_id sb = Some d \<Longrightarrow> length d = VIRTIO_BLK_ID_BYTES"
  shows "execute G V sb m r \<noteq> None"
proof -
  have "exec_get_id V m d (rq_data r) 0 \<noteq> None"
    if "total_data_len r = of_nat VIRTIO_BLK_ID_BYTES" "sb_device_id sb = Some d" for d
  proof -
    have "unat (total_data_len r) = 20" using that(1) by (simp add: VIRTIO_BLK_ID_BYTES_def)
    then show ?thesis
      using total_data_len_lens [OF assms(1)] assms(2) [OF that(2)]
      by (intro exec_get_id_total) (simp_all add: VIRTIO_BLK_ID_BYTES_def)
  qed
  then have "execute_type G V (sb\<lparr>sb_inner := b\<rparr>) m r \<noteq> None" for b
    unfolding execute_type_def Let_def
    by (cases "rq_request_type r")
      (simp_all del: not_None_eq split: sum.split prod.split option.split, blast)
  then show ?thesis
    unfolding execute_def Let_def by (simp del: not_None_eq split: sum.split prod.split option.split)
qed

text \<open>A request that was parsed from a chain is processed without a panic, whatever the backend does: no
  slice of the device id is out of range and no count overflows.\<close>

lemma parsed_data_bytes:
  assumes "snd (blk_parse G m c) = Inr r"
  shows "lens (data_slices (rq_data r)) < 2 ^ 32"
proof -
  have "parse_descs G m (chain_collect G m c) = Inr r" using assms by (simp add: blk_parse_descs)
  then obtain h rest data st where ds: "chain_collect G m c = h # rest"
      and p: "parse_data_descs (rq_request_type r) rest = Inr (data, st)" and data: "rq_data r = data"
    by (auto simp: parse_descs_def Let_def split: list.splits if_splits sum.splits prod.splits)
  have "sum_list (map (\<lambda>x. unat (snd x)) data) \<le> sum_list (map (\<lambda>d. unat (sd_len d)) (chain_collect G m c))"
    using parse_data_descs_bytes [OF p] ds by simp
  also have "\<dots> < 2 ^ 32" using chain_collect_bytes [of c G m] by simp
  finally show ?thesis
    by (simp add: data lens_def data_slices_def comp_def case_prod_beta)
qed

lemma process_request_total:
  assumes "snd (blk_parse G m c) = Inr r" and "\<forall>d. sb_device_id sb = Some d \<longrightarrow> length d = VIRTIO_BLK_ID_BYTES"
  shows "process_request G V sb m' r \<noteq> None"
proof -
  have "lens (data_slices (rq_data r)) < 2 ^ 64" using parsed_data_bytes [OF assms(1)] by simp
  then have "execute G V sb m' r \<noteq> None" using assms(2) by (intro execute_total) auto
  then show ?thesis
    by (auto simp: process_request_def split: option.splits prod.splits sum.splits)
qed

end
