(* ===== verification/Blk_Properties.thy ===== *)
theory Blk_Properties
  imports Blk_Executor Chain_Properties
begin

text \<open>
  Properties of the block device: executing requests on a backend that behaves like a file. The file operations are parameters whose documented behaviour is the
  hypothesis \<open>blk_disk\<close>; the instances discharge it on a file in memory.
\<close>

section \<open>A backend for the instances\<close>

text \<open>A backend of two sectors, every byte 7.\<close>

definition demo_backend :: "disk_file stdio_backend" where
  "demo_backend =
     \<lparr>sb_inner = \<lparr>fl_data = replicate 1024 7, fl_pos = 0\<rparr>, sb_num_sectors = 2, sb_features = 0, sb_device_id = None\<rparr>"

lemma demo_backend_ok: "backend_ok fl_data demo_backend"
  by (simp add: backend_ok_def demo_backend_def)

section \<open>Reading and writing sectors\<close>

text \<open>A read request whose length is a multiple of the sector size and that lies within the device
  fills the request's buffers, one after the other, with the bytes of the device from its first sector
  on, reports their number and leaves the device's contents alone.\<close>

theorem blk_read_exact:
  assumes "blk_disk G peek acc V disk pos" and "backend_ok disk sb" and "rq_request_type r = RtIn"
    and "\<forall>vs\<in>set (data_slices (rq_data r)). acc m (vs_addr vs) (vs_len vs)"
    and "separate (data_slices (rq_data r))"
    and "lens (data_slices (rq_data r)) < 2 ^ 32" and "lens (data_slices (rq_data r)) mod 512 = 0"
    and "unat (rq_sector r) + lens (data_slices (rq_data r)) div 512 \<le> unat (sb_num_sectors sb)"
  shows "\<exists>sb' m'. execute G V sb m r = Some (sb', m', Inr (of_nat (lens (data_slices (rq_data r))))) \<and>
    disk (sb_inner sb') = disk (sb_inner sb) \<and>
    stream_of (peek m') (data_slices (rq_data r)) =
      take (lens (data_slices (rq_data r))) (drop (unat (rq_sector r) * 512) (disk (sb_inner sb)))"
  using blk_disk.execute_in_spec [OF assms] by blast

definition demo_read :: request where
  "demo_read = \<lparr>rq_request_type = RtIn, rq_data = [(1024, 256), (2048, 256)], rq_sector = 1, rq_status_addr = 3072\<rparr>"

theorem blk_read_exact_witness:
  "\<exists>sb' m'. execute (single_region LittleEndian) file_io demo_backend zero_region demo_read = Some (sb', m', Inr 512) \<and>
     stream_of (rg_data m') (data_slices (rq_data demo_read)) = replicate 512 7"
proof -
  have d: "rq_data demo_read = [(1024, 256), (2048, 256)]" "rq_request_type demo_read = RtIn" "rq_sector demo_read = 1"
    by (simp_all add: demo_read_def)
  have "separate (data_slices (rq_data demo_read))"
      "\<forall>vs\<in>set (data_slices (rq_data demo_read)). sr_acc zero_region (vs_addr vs) (vs_len vs)"
    by (simp_all add: d separate_def disjoint_ranges_def sr_acc_def zero_region_def demo_region_def)
  moreover have "sb_num_sectors demo_backend = 2" "fl_data (sb_inner demo_backend) = replicate 1024 7"
    by (simp_all add: demo_backend_def)
  ultimately show ?thesis
    using blk_read_exact [OF file_disk_laws demo_backend_ok, of demo_read zero_region LittleEndian]
    by (simp add: d) blast
qed

text \<open>A write request on a writable device, of a multiple of the sector size and within the device,
  replaces exactly the addressed bytes of the device with the contents of the request's buffers and
  writes nothing to guest memory.\<close>

theorem blk_write_exact:
  assumes "blk_disk G peek acc V disk pos" and "backend_ok disk sb" and "rq_request_type r = RtOut"
    and "\<not> has_feature sb VIRTIO_BLK_F_RO"
    and "\<forall>vs\<in>set (data_slices (rq_data r)). acc m (vs_addr vs) (vs_len vs)"
    and "lens (data_slices (rq_data r)) < 2 ^ 32" and "lens (data_slices (rq_data r)) mod 512 = 0"
    and "unat (rq_sector r) + lens (data_slices (rq_data r)) div 512 \<le> unat (sb_num_sectors sb)"
  shows "\<exists>sb'. execute G V sb m r = Some (sb', m, Inr 0) \<and>
    disk (sb_inner sb') =
      overwrite (disk (sb_inner sb)) (unat (rq_sector r) * 512) (stream_of (peek m) (data_slices (rq_data r)))"
  by (rule blk_disk.execute_out_spec [OF assms])

theorem blk_write_exact_witness:
  "\<exists>sb'. execute (single_region LittleEndian) file_io demo_backend zero_region (demo_read\<lparr>rq_request_type := RtOut\<rparr>) =
       Some (sb', zero_region, Inr 0) \<and>
     fl_data (sb_inner sb') = replicate 512 7 @ replicate 512 0"
proof -
  let ?r = "demo_read\<lparr>rq_request_type := RtOut\<rparr>"
  have d: "rq_data ?r = [(1024, 256), (2048, 256)]" "rq_request_type ?r = RtOut" "rq_sector ?r = 1"
    by (simp_all add: demo_read_def)
  have "\<forall>vs\<in>set (data_slices (rq_data ?r)). sr_acc zero_region (vs_addr vs) (vs_len vs)"
    unfolding d by (simp add: sr_acc_def zero_region_def demo_region_def)
  moreover have "sb_num_sectors demo_backend = 2" "fl_data (sb_inner demo_backend) = replicate 1024 7"
      "\<not> has_feature demo_backend VIRTIO_BLK_F_RO"
    by (simp_all add: demo_backend_def has_feature_def)
  ultimately show ?thesis
    using blk_write_exact [OF file_disk_laws demo_backend_ok, of ?r zero_region LittleEndian]
    unfolding d zero_stream by (simp add: d overwrite_def)
qed

text \<open>A read or write that reaches beyond the last sector is rejected with an I/O error status before
  any byte of the device or of guest memory changes, also where sector plus length overflow 64 bits.\<close>

theorem blk_out_of_range:
  assumes "blk_disk G peek acc V disk pos" and "rq_request_type r = RtIn \<or> rq_request_type r = RtOut"
    and "lens (data_slices (rq_data r)) < 2 ^ 32"
    and "unat (sb_num_sectors sb) < unat (rq_sector r) + lens (data_slices (rq_data r)) div 512"
  shows "\<exists>sb' e. execute G V sb m r = Some (sb', m, Inl e) \<and> disk (sb_inner sb') = disk (sb_inner sb) \<and>
    exec_error_status e = VIRTIO_BLK_S_IOERR"
  by (rule blk_disk.execute_out_of_range [OF assms])

theorem blk_out_of_range_witness:
  "\<exists>sb' e. execute (single_region LittleEndian) file_io demo_backend zero_region (demo_read\<lparr>rq_sector := 0xFFFFFFFFFFFFFFFF\<rparr>) =
       Some (sb', zero_region, Inl e) \<and> exec_error_status e = VIRTIO_BLK_S_IOERR"
proof -
  let ?r = "demo_read\<lparr>rq_sector := 0xFFFFFFFFFFFFFFFF\<rparr>"
  have d: "rq_data ?r = [(1024, 256), (2048, 256)]" "rq_request_type ?r = RtIn" "rq_sector ?r = 0xFFFFFFFFFFFFFFFF"
      "sb_num_sectors demo_backend = 2"
    by (simp_all add: demo_read_def demo_backend_def)
  show ?thesis
    using blk_out_of_range [OF file_disk_laws, of ?r demo_backend LittleEndian zero_region] by (simp add: d) blast
qed

text \<open>C33. A write-zeroes segment within the device zeroes exactly its sectors, whether or not it asks for
  unmapping and even if punching a hole fails.\<close>

theorem blk_write_zeroes:
  assumes "blk_disk G peek acc V disk pos"
    and "unat (dwz_num_sectors sg) + unat (dwz_sector sg) \<le> unat (sb_num_sectors sb)"
    and "backend_ok disk sb" and "dwz_flags sg = 0 \<or> dwz_flags sg = DWZ_UNMAP"
  shows "\<exists>sb'. handle_discard_write_zeroes V sb sg RtWriteZeroes = (sb', Inr 0) \<and>
    disk (sb_inner sb') = overwrite (disk (sb_inner sb)) (unat (dwz_sector sg) * 512)
      (replicate (unat (dwz_num_sectors sg) * 512) 0)"
  using blk_disk.write_zeroes_spec [OF assms] by blast

theorem blk_write_zeroes_witness:
  "\<exists>sb'. handle_discard_write_zeroes file_io demo_backend
       \<lparr>dwz_sector = 1, dwz_num_sectors = 1, dwz_flags = DWZ_UNMAP\<rparr> RtWriteZeroes = (sb', Inr 0) \<and>
     fl_data (sb_inner sb') = replicate 512 7 @ replicate 512 0"
  using blk_write_zeroes [OF file_disk_laws, of "\<lparr>dwz_sector = 1, dwz_num_sectors = 1, dwz_flags = DWZ_UNMAP\<rparr>"
      demo_backend] demo_backend_ok
  by (simp add: demo_backend_def overwrite_def)

section \<open>Reading after writing\<close>

lemma execute_out_keeps:
  assumes "execute G V sb m r = Some (sb', m', res)" and "rq_request_type r = RtOut"
  shows "sb_num_sectors sb' = sb_num_sectors sb"
  using assms
  by (auto simp: execute_def execute_type_def check_request_def Let_def
      split: option.splits prod.splits sum.splits if_splits)

text \<open>C13. What was written is read back: after a write request has been executed, a read request of the same
  sectors into any buffers of the same total length delivers exactly the bytes of the write request's
  buffers.\<close>

theorem blk_read_after_write:
  assumes disk: "blk_disk G peek acc V disk pos" and ok: "backend_ok disk sb"
    and w: "rq_request_type w = RtOut" "\<not> has_feature sb VIRTIO_BLK_F_RO"
      "\<forall>vs\<in>set (data_slices (rq_data w)). acc m (vs_addr vs) (vs_len vs)"
    and r: "rq_request_type r = RtIn" "\<forall>vs\<in>set (data_slices (rq_data r)). acc m2 (vs_addr vs) (vs_len vs)"
      "separate (data_slices (rq_data r))"
    and len: "lens (data_slices (rq_data w)) < 2 ^ 32" "lens (data_slices (rq_data w)) mod 512 = 0"
      "lens (data_slices (rq_data r)) = lens (data_slices (rq_data w))"
    and sector: "unat (rq_sector w) + lens (data_slices (rq_data w)) div 512 \<le> unat (sb_num_sectors sb)"
      "rq_sector r = rq_sector w"
  shows "\<exists>sb1 sb2 m'. execute G V sb m w = Some (sb1, m, Inr 0) \<and>
    execute G V sb1 m2 r = Some (sb2, m', Inr (of_nat (lens (data_slices (rq_data w))))) \<and>
    stream_of (peek m') (data_slices (rq_data r)) = stream_of (peek m) (data_slices (rq_data w))"
proof -
  let ?S = "stream_of (peek m) (data_slices (rq_data w))"
  have fit: "unat (rq_sector w) * 512 + length ?S \<le> length (disk (sb_inner sb))"
    using sectors_fit [OF sector(1) len(2)] ok by (simp add: backend_ok_def)
  obtain sb1 where e1: "execute G V sb m w = Some (sb1, m, Inr 0)"
      "disk (sb_inner sb1) = overwrite (disk (sb_inner sb)) (unat (rq_sector w) * 512) ?S"
    using blk_disk.execute_out_spec [OF disk ok w(1,2,3) len(1,2) sector(1)] by blast
  have n: "sb_num_sectors sb1 = sb_num_sectors sb" by (rule execute_out_keeps [OF e1(1) w(1)])
  have ok1: "backend_ok disk sb1"
    using ok length_overwrite [OF fit] by (simp add: backend_ok_def n e1(2))
  have "\<exists>sb2 m'. execute G V sb1 m2 r = Some (sb2, m', Inr (of_nat (lens (data_slices (rq_data r))))) \<and>
      disk (sb_inner sb2) = disk (sb_inner sb1) \<and> acc m' = acc m2 \<and>
      stream_of (peek m') (data_slices (rq_data r)) =
        take (lens (data_slices (rq_data r))) (drop (unat (rq_sector r) * 512) (disk (sb_inner sb1)))"
    using len sector by (intro blk_disk.execute_in_spec [OF disk ok1 r(1-3)]) (simp_all add: n)
  moreover have "take (lens (data_slices (rq_data r))) (drop (unat (rq_sector r) * 512) (disk (sb_inner sb1))) = ?S"
    using take_drop_overwrite [OF fit] by (simp only: e1(2) len(3) sector(2) length_stream_of)
  ultimately show ?thesis using e1(1) len(3) by metis
qed

theorem blk_read_after_write_witness:
  "\<exists>sb1 sb2 m'. execute (single_region LittleEndian) file_io demo_backend zero_region
       (demo_read\<lparr>rq_request_type := RtOut\<rparr>) = Some (sb1, zero_region, Inr 0) \<and>
     execute (single_region LittleEndian) file_io sb1 zero_region demo_read = Some (sb2, m', Inr 512) \<and>
     stream_of (rg_data m') (data_slices (rq_data demo_read)) = replicate 512 0"
proof -
  let ?w = "demo_read\<lparr>rq_request_type := RtOut\<rparr>"
  have d: "rq_data ?w = [(1024, 256), (2048, 256)]" "rq_data demo_read = [(1024, 256), (2048, 256)]"
      "rq_sector ?w = 1" "rq_sector demo_read = 1" "sb_num_sectors demo_backend = 2"
      "rq_request_type ?w = RtOut" "rq_request_type demo_read = RtIn" "\<not> has_feature demo_backend VIRTIO_BLK_F_RO"
    by (simp_all add: demo_read_def demo_backend_def has_feature_def)
  have "separate (data_slices [(1024, 256), (2048, 256)])"
      "\<forall>vs\<in>set (data_slices [(1024, 256), (2048, 256)]). sr_acc zero_region (vs_addr vs) (vs_len vs)"
    by (simp_all add: separate_def disjoint_ranges_def sr_acc_def zero_region_def demo_region_def)
  from blk_read_after_write [OF file_disk_laws demo_backend_ok, of ?w zero_region demo_read zero_region LittleEndian,
      unfolded d zero_stream, OF refl d(8) this(2) refl this(2) this(1)]
  show ?thesis unfolding d by simp
qed

end
