(* ===== verification/Console.thy ===== *)
theory Console
  imports Descriptor_Utils
begin

text \<open>
  The console device (\<open>virtio-console/src/console.rs\<close>): a bounded input buffer that is delivered to the
  receive queue and an output sink fed from the transmit queue. The sink is the parameter record
  \<open>sink_io\<close>; the locale \<open>console_sink\<close> states what a sink that accepts whole writes promises. The input
  buffer is the value behind its mutex.
\<close>

section \<open>Data\<close>

datatype console_error =
    CoWriteToGuestFailed gm_error
  | CoWriteToOutputFailed gm_error
  | CoChainLengthOverflow
  | CoBufferCapacityExceeded
  | CoUnexpectedReadOnlyDescriptor
  | CoUnexpectedWriteOnlyDescriptor
  | CoInvalidBufferCapacity
  | CoOutputSinkFlushFailed io_error

fun console_error_display :: "(gm_error \<Rightarrow> string) \<Rightarrow> (io_error \<Rightarrow> string) \<Rightarrow> console_error \<Rightarrow> string" where
  "console_error_display gm io (CoWriteToGuestFailed err) =
     ''Console failed to write slice to guest memory: '' @ gm err"
| "console_error_display gm io (CoWriteToOutputFailed err) =
     ''Console failed to write data to output sink: '' @ gm err"
| "console_error_display gm io CoChainLengthOverflow =
     ''Console transmitq chain length has overflown usize.''"
| "console_error_display gm io CoBufferCapacityExceeded =
     ''Console input buffer maximum capacity has been exceeded.''"
| "console_error_display gm io CoUnexpectedReadOnlyDescriptor = ''Unexpected read-only descriptor.''"
| "console_error_display gm io CoUnexpectedWriteOnlyDescriptor = ''Unexpected write-only descriptor.''"
| "console_error_display gm io CoInvalidBufferCapacity =
     ''The capacity should not be 0 or higher than MAX_CAPACITY.''"
| "console_error_display gm io (CoOutputSinkFlushFailed err) =
     ''Output sink flush has not written all bytes: '' @ io err"

record 'o console =
  cs_input_buffer :: "byte list"
  cs_capacity :: nat
  cs_output :: 'o

definition MAX_CAPACITY :: nat where "MAX_CAPACITY = 16384"
definition DEFAULT_CAPACITY :: nat where "DEFAULT_CAPACITY = 4096"

text \<open>The output sink: a volatile write from guest memory, which reports how many bytes it took, and
  \<open>flush\<close>.\<close>

record ('m, 'o) sink_io =
  so_write_volatile_to :: "'m \<Rightarrow> u64 \<Rightarrow> 'o \<Rightarrow> nat \<Rightarrow> 'o \<times> (gm_error + nat)"
  so_flush :: "'o \<Rightarrow> 'o \<times> (io_error + unit)"

section \<open>Operations\<close>

definition console_new_with_capacity :: "nat \<Rightarrow> 'o \<Rightarrow> console_error + 'o console" where
  "console_new_with_capacity capacity output =
     (if capacity = 0 \<or> capacity > MAX_CAPACITY then Inl CoInvalidBufferCapacity
      else Inr \<lparr>cs_input_buffer = [], cs_capacity = capacity, cs_output = output\<rparr>)"

text \<open>\<open>new\<close> unwraps the result; \<open>None\<close> would be a panic.\<close>

definition console_new :: "'o \<Rightarrow> 'o console option" where
  "console_new output =
     (case console_new_with_capacity DEFAULT_CAPACITY output of Inl _ \<Rightarrow> None | Inr c \<Rightarrow> Some c)"

text \<open>\<open>append\<close> moves the bytes out of the argument.\<close>

definition enqueue_data :: "'o console \<Rightarrow> byte list \<Rightarrow> 'o console \<times> byte list \<times> (console_error + unit)" where
  "enqueue_data cs data =
     (case usize_checked_add (length (cs_input_buffer cs)) (length data) of
        None \<Rightarrow> (cs, data, Inl CoBufferCapacityExceeded)
      | Some total_length \<Rightarrow>
          if total_length > cs_capacity cs then (cs, data, Inl CoBufferCapacityExceeded)
          else (cs\<lparr>cs_input_buffer := cs_input_buffer cs @ data\<rparr>, [], Inr ()))"

text \<open>The subtraction would panic on underflow: \<open>None\<close>.\<close>

definition available_capacity :: "'o console \<Rightarrow> nat option" where
  "available_capacity cs =
     (if length (cs_input_buffer cs) \<le> cs_capacity cs
      then Some (cs_capacity cs - length (cs_input_buffer cs)) else None)"

definition clear_input_buffer :: "'o console \<Rightarrow> 'o console" where
  "clear_input_buffer cs = cs\<lparr>cs_input_buffer := []\<rparr>"

definition is_input_buffer_empty :: "'o console \<Rightarrow> bool" where
  "is_input_buffer_empty cs \<longleftrightarrow> cs_input_buffer cs = []"

function tx_loop ::
    "'m guest_memory \<Rightarrow> ('m, 'o) sink_io \<Rightarrow> 'm \<Rightarrow> desc_chain \<Rightarrow> 'o \<Rightarrow> desc_chain \<times> 'o \<times> (console_error + unit)" where
  "tx_loop G S m c out =
     (case chain_next G m c of
        (c', None) \<Rightarrow> (c', out, Inr ())
      | (c', Some desc) \<Rightarrow>
          if is_write_only desc then (c', out, Inl CoUnexpectedWriteOnlyDescriptor)
          else (case so_write_volatile_to S m (sd_addr desc) out (unat (sd_len desc)) of
                  (out1, Inl e) \<Rightarrow> (c', out1, Inl (CoWriteToOutputFailed e))
                | (out1, Inr _) \<Rightarrow>
                    (case so_flush S out1 of
                       (out2, Inl e) \<Rightarrow> (c', out2, Inl (CoOutputSinkFlushFailed e))
                     | (out2, Inr _) \<Rightarrow> tx_loop G S m c' out2)))"
  by pat_completeness auto
termination
  by (relation "measure (\<lambda>(G, S, m, c, out). chain_bound c)")
    (auto dest!: sym [of "(_, _)"] chain_next_Some)

declare tx_loop.simps [simp del]

definition process_transmitq_chain ::
    "'m guest_memory \<Rightarrow> ('m, 'o) sink_io \<Rightarrow> 'm \<Rightarrow> 'o console \<Rightarrow> desc_chain \<Rightarrow>
     'o console \<times> desc_chain \<times> (console_error + unit)" where
  "process_transmitq_chain G S m cs c =
     (case tx_loop G S m c (cs_output cs) of (c', out, r) \<Rightarrow> (cs\<lparr>cs_output := out\<rparr>, c', r))"

function rx_loop ::
    "'m guest_memory \<Rightarrow> 'm \<Rightarrow> desc_chain \<Rightarrow> byte list \<Rightarrow> u32 \<Rightarrow>
     'm \<times> desc_chain \<times> byte list \<times> (console_error + u32)" where
  "rx_loop G m c input_buffer sent_bytes =
     (case chain_next G m c of
        (c', None) \<Rightarrow> (m, c', input_buffer, Inr sent_bytes)
      | (c', Some desc) \<Rightarrow>
          if \<not> is_write_only desc then (m, c', input_buffer, Inl CoUnexpectedReadOnlyDescriptor)
          else
            let len_write = min (sd_len desc) (of_nat (length input_buffer));
                buffer_slice = take (unat len_write) input_buffer;
                rest = drop (unat len_write) input_buffer in
            (case gm_write_slice G m (sd_addr desc) buffer_slice of
               (m', Inl e) \<Rightarrow> (m', c', rest, Inl (CoWriteToGuestFailed e))
             | (m', Inr _) \<Rightarrow>
                 if rest = [] then (m', c', rest, Inr (sent_bytes + len_write))
                 else rx_loop G m' c' rest (sent_bytes + len_write)))"
  by pat_completeness auto
termination
  by (relation "measure (\<lambda>(G, m, c, buf, n). chain_bound c)")
    (auto dest!: sym [of "(_, _)"] chain_next_Some)

declare rx_loop.simps [simp del]

definition process_receiveq_chain ::
    "'m guest_memory \<Rightarrow> 'm \<Rightarrow> 'o console \<Rightarrow> desc_chain \<Rightarrow> 'm \<times> 'o console \<times> desc_chain \<times> (console_error + u32)" where
  "process_receiveq_chain G m cs c =
     (if cs_input_buffer cs = [] then (m, cs, c, Inr 0)
      else case rx_loop G m c (cs_input_buffer cs) 0 of
        (m', c', buf, r) \<Rightarrow> (m', cs\<lparr>cs_input_buffer := buf\<rparr>, c', r))"

section \<open>The bound of the input buffer\<close>

definition console_inv :: "'o console \<Rightarrow> bool" where
  "console_inv cs \<longleftrightarrow>
     length (cs_input_buffer cs) \<le> cs_capacity cs \<and> 0 < cs_capacity cs \<and> cs_capacity cs \<le> MAX_CAPACITY"

lemma console_new_inv: "console_new_with_capacity n out = Inr cs \<Longrightarrow> console_inv cs"
  by (auto simp: console_new_with_capacity_def console_inv_def split: if_splits)

lemma enqueue_data_inv: "console_inv cs \<Longrightarrow> console_inv (fst (enqueue_data cs data))"
  by (auto simp: enqueue_data_def console_inv_def usize_checked_add_def)

lemma rx_loop_drops: "\<exists>k. fst (snd (snd (rx_loop G m c buf n))) = drop k buf"
proof (induction G m c buf n rule: rx_loop.induct)
  case (1 G m c buf n)
  obtain c' r where n: "chain_next G m c = (c', r)" by fastforce
  show ?case
  proof (cases r)
    case None
    with n show ?thesis by (subst rx_loop.simps) (auto intro: exI [of _ 0])
  next
    case (Some d)
    let ?l = "min (sd_len d) (of_nat (length buf))"
    obtain m' x where w: "gm_write_slice G m (sd_addr d) (take (unat ?l) buf) = (m', x)" by fastforce
    show ?thesis
    proof (cases "is_write_only d \<and> drop (unat ?l) buf \<noteq> [] \<and> x = Inr ()")
      case True
      obtain k where "fst (snd (snd (rx_loop G m' c' (drop (unat ?l) buf) (n + ?l)))) = drop k (drop (unat ?l) buf)"
        using "1.IH" [OF n [symmetric] Some _ refl refl refl w [symmetric]] True by auto
      with n Some w True show ?thesis
        by (subst rx_loop.simps) (auto simp: Let_def intro: exI [of _ "k + unat ?l"])
    next
      case False
      with n Some w show ?thesis
        by (subst rx_loop.simps) (cases x; auto simp: Let_def intro: exI [of _ 0] exI [of _ "unat ?l"] dest: sym)
    qed
  qed
qed

lemma process_receiveq_inv:
  assumes "console_inv cs"
  shows "console_inv (fst (snd (process_receiveq_chain G m cs c)))"
proof -
  obtain k where "fst (snd (snd (rx_loop G m c (cs_input_buffer cs) 0))) = drop k (cs_input_buffer cs)"
    using rx_loop_drops [of G m c "cs_input_buffer cs" 0] by blast
  with assms show ?thesis
    by (auto simp: process_receiveq_chain_def console_inv_def split: prod.splits)
qed

lemma process_transmitq_inv: "console_inv cs \<Longrightarrow> console_inv (fst (process_transmitq_chain G S m cs c))"
  by (auto simp: process_transmitq_chain_def console_inv_def split: prod.splits)

text \<open>The use of a console: its owner enqueues and clears input, the driver's chains are processed, and
  between two of these steps guest memory and the sink may change in any way.\<close>

inductive console_step :: "'m guest_memory \<Rightarrow> ('m, 'o) sink_io \<Rightarrow> 'o console \<Rightarrow> 'o console \<Rightarrow> bool"
  for G :: "'m guest_memory" and S :: "('m, 'o) sink_io" where
  enqueue: "enqueue_data cs data = (cs', data', r) \<Longrightarrow> console_step G S cs cs'"
| clear: "console_step G S cs (clear_input_buffer cs)"
| transmit: "process_transmitq_chain G S m cs c = (cs', c', r) \<Longrightarrow> console_step G S cs cs'"
| receive: "process_receiveq_chain G m cs c = (m', cs', c', r') \<Longrightarrow> console_step G S cs cs'"
| external: "console_step G S cs (cs\<lparr>cs_output := out\<rparr>)"

lemma console_step_inv: "console_step G S cs cs' \<Longrightarrow> console_inv cs \<Longrightarrow> console_inv cs'"
proof (induction rule: console_step.induct)
  case (enqueue cs data cs' data' r)
  then show ?case using enqueue_data_inv [of cs data] by simp
next
  case (transmit m cs c cs' c' r)
  then show ?case using process_transmitq_inv [of cs G S m c] by simp
next
  case (receive m cs c m' cs' c' r')
  then show ?case using process_receiveq_inv [of cs G m c] by simp
qed (simp_all add: clear_input_buffer_def console_inv_def)

lemma console_step_capacity: "console_step G S cs cs' \<Longrightarrow> cs_capacity cs' = cs_capacity cs"
  by (induction rule: console_step.induct)
    (auto simp: enqueue_data_def clear_input_buffer_def process_transmitq_chain_def process_receiveq_chain_def
      split: prod.splits option.splits if_splits)

lemma console_steps_inv:
  "(console_step G S)\<^sup>*\<^sup>* cs cs' \<Longrightarrow> console_inv cs \<Longrightarrow> console_inv cs' \<and> cs_capacity cs' = cs_capacity cs"
  by (induction rule: rtranclp_induct) (auto dest: console_step_inv console_step_capacity)

section \<open>Delivery\<close>

definition desc_slices :: "split_desc list \<Rightarrow> vslice list" where
  "desc_slices ds = map (\<lambda>d. \<lparr>vs_addr = sd_addr d, vs_len = unat (sd_len d)\<rparr>) ds"

lemma desc_slices_simps [simp]:
  "desc_slices [] = []"
  "desc_slices (d # ds) = \<lparr>vs_addr = sd_addr d, vs_len = unat (sd_len d)\<rparr> # desc_slices ds"
  by (simp_all add: desc_slices_def)

lemma lens_desc_slices: "lens (desc_slices ds) = sum_list (map (\<lambda>d. unat (sd_len d)) ds)"
  by (induction ds) auto

locale console_sink = guest_mem G peek acc
  for G :: "'m guest_memory" and peek :: "'m \<Rightarrow> u64 \<Rightarrow> byte" and acc :: "'m \<Rightarrow> u64 \<Rightarrow> nat \<Rightarrow> bool" +
  fixes S :: "('m, 'o) sink_io"
    and out :: "'o \<Rightarrow> byte list"
  assumes sink_write_law: "acc m a n \<Longrightarrow>
      \<exists>o'. so_write_volatile_to S m a sk n = (o', Inr n) \<and> out o' = out sk @ peek_bytes (peek m) a n"
    and sink_flush_law: "\<exists>o'. so_flush S sk = (o', Inr ()) \<and> out o' = out sk"
begin

text \<open>The transmit queue: the bytes of the buffers reach the sink in chain order.\<close>

lemma tx_loop_spec:
  assumes "\<forall>d\<in>set (chain_collect G m c). \<not> is_write_only d \<and> acc m (sd_addr d) (unat (sd_len d))"
  shows "\<exists>c' o'. tx_loop G S m c sk = (c', o', Inr ()) \<and>
    out o' = out sk @ stream_of (peek m) (desc_slices (chain_collect G m c))"
  using assms
proof (induction "length (chain_collect G m c)" arbitrary: c sk)
  case 0
  obtain c' r where n: "chain_next G m c = (c', r)" by fastforce
  with "0.hyps" have "r = None" by (cases r) (auto simp: chain_collect_Some)
  with n show ?case by (subst tx_loop.simps) (simp add: chain_collect_None)
next
  case (Suc k)
  obtain c' r where n: "chain_next G m c = (c', r)" by fastforce
  with Suc.hyps(2) obtain d where d: "r = Some d" by (cases r) (auto simp: chain_collect_None)
  have cc: "chain_collect G m c = d # chain_collect G m c'" using n d by (simp add: chain_collect_Some)
  have "\<not> is_write_only d" and "acc m (sd_addr d) (unat (sd_len d))" using Suc.prems cc by auto
  moreover obtain o1 where o1: "so_write_volatile_to S m (sd_addr d) sk (unat (sd_len d)) = (o1, Inr (unat (sd_len d)))"
      "out o1 = out sk @ peek_bytes (peek m) (sd_addr d) (unat (sd_len d))"
    using sink_write_law [OF calculation(2), of sk] by blast
  moreover obtain o2 where o2: "so_flush S o1 = (o2, Inr ())" "out o2 = out o1"
    using sink_flush_law by blast
  moreover obtain c'' o' where "tx_loop G S m c' o2 = (c'', o', Inr ())"
      "out o' = out o2 @ stream_of (peek m) (desc_slices (chain_collect G m c'))"
    using Suc.hyps(1) [of c' o2] Suc.hyps(2) Suc.prems cc by auto
  ultimately show ?case using n d cc by (subst tx_loop.simps) simp
qed

end

text \<open>A chain after it has yielded a descriptor.\<close>

definition chain_after :: "desc_chain \<Rightarrow> split_desc \<Rightarrow> desc_chain" where
  "chain_after c d =
     (if has_next d
      then c\<lparr>dc_yielded_bytes := dc_yielded_bytes c + sd_len d, dc_next_index := sd_next d, dc_ttl := dc_ttl c - 1\<rparr>
      else c\<lparr>dc_yielded_bytes := dc_yielded_bytes c + sd_len d, dc_ttl := 0\<rparr>)"

context guest_mem
begin

text \<open>One step of the receive loop: the buffer of the descriptor takes the front of the input buffer.\<close>

lemma rx_loop_step:
  fixes c :: desc_chain and d :: split_desc
  assumes e: "table_entry G m (dc_desc_table c) (dc_queue_size c) (dc_next_index c) d" "\<not> refers_to_indirect_table d"
    and t: "dc_ttl c \<noteq> 0" and b: "unat (dc_yielded_bytes c) + unat (sd_len d) < 2 ^ 32"
    and d: "is_write_only d" "acc m (sd_addr d) (unat (sd_len d))" and buf: "length buf < 2 ^ 32"
  defines "len \<equiv> unat (sd_len d)"
  shows "\<exists>m1. peek m1 = poke (peek m) (sd_addr d) (take len buf) \<and> acc m1 = acc m \<and>
    rx_loop G m c buf n =
      (if length buf \<le> len then (m1, chain_after c d, [], Inr (n + of_nat (length buf)))
       else rx_loop G m1 (chain_after c d) (drop len buf) (n + sd_len d))"
proof -
  let ?l = "min (sd_len d) (of_nat (length buf))"
  have l: "unat ?l = min len (length buf)"
    using buf by (auto simp: len_def min_def word_le_nat_alt unat_of_nat_less)
  then have td: "take (unat ?l) buf = take len buf" "drop (unat ?l) buf = drop len buf"
    by (auto simp: min_def)
  have lv: "?l = (if length buf \<le> len then of_nat (length buf) else sd_len d)"
    using l buf by (auto simp: word_unat_eq_iff unat_of_nat_less min_def len_def)
  have "acc m (sd_addr d) (length (take len buf))"
    using acc_sub [OF d(2), of 0 "length (take len buf)"] by (simp add: len_def)
  from write_law [OF this] obtain m1 where m1: "gm_write_slice G m (sd_addr d) (take len buf) = (m1, Inr ())"
      "peek m1 = poke (peek m) (sd_addr d) (take len buf)" "acc m1 = acc m" by blast
  have "chain_next G m c = (chain_after c d, Some d)"
    using chain_next_entry [OF e t b] by (cases "has_next d") (simp_all add: chain_after_def)
  then have "rx_loop G m c buf n =
      (if drop len buf = [] then (m1, chain_after c d, [], Inr (n + ?l)) else rx_loop G m1 (chain_after c d) (drop len buf) (n + ?l))"
    using d(1) m1(1) by (subst rx_loop.simps) (simp add: Let_def td del: drop_eq_Nil)
  with m1(2,3) lv show ?thesis by auto
qed

text \<open>The receive queue: the buffered bytes fill the buffers in chain order, as far as they fit. The
  descriptor table is not part of any buffer.\<close>

lemma rx_loop_exhausted: "dc_ttl c = 0 \<Longrightarrow> rx_loop G m c buf k = (m, c, buf, Inr k)"
  by (subst rx_loop.simps, subst chain_next.simps) simp

text \<open>The first buffer of a chain takes what it can; the rest of the chain is still in the table.\<close>

lemma rx_loop_first:
  assumes lo: "laid_out G m (dc_desc_table c) (dc_queue_size c) (dc_next_index c) (d # ds)"
    and t: "dc_ttl c \<noteq> 0" and b: "unat (dc_yielded_bytes c) + unat (sd_len d) < 2 ^ 32"
    and tbl: "acc m (dc_desc_table c) (16 * unat (dc_queue_size c))"
    and d: "is_write_only d" "acc m (sd_addr d) (unat (sd_len d))"
      "disjoint_ranges (dc_desc_table c) (16 * unat (dc_queue_size c)) (sd_addr d) (unat (sd_len d))"
    and buf: "length buf < 2 ^ 32"
  shows "\<exists>m1. peek m1 = poke (peek m) (sd_addr d) (take (unat (sd_len d)) buf) \<and> acc m1 = acc m \<and>
    rx_loop G m c buf n =
      (if length buf \<le> unat (sd_len d) then (m1, chain_after c d, [], Inr (n + of_nat (length buf)))
       else rx_loop G m1 (chain_after c d) (drop (unat (sd_len d)) buf) (n + sd_len d)) \<and>
    (has_next d \<longleftrightarrow> ds \<noteq> []) \<and>
    (ds \<noteq> [] \<longrightarrow> laid_out G m1 (dc_desc_table c) (dc_queue_size c) (sd_next d) ds)"
proof -
  have e: "table_entry G m (dc_desc_table c) (dc_queue_size c) (dc_next_index c) d" "\<not> refers_to_indirect_table d"
    using lo by (cases ds; simp)+
  from rx_loop_step [OF e t b d(1,2) buf, of n]
  obtain m1 where m1: "peek m1 = poke (peek m) (sd_addr d) (take (unat (sd_len d)) buf)" "acc m1 = acc m"
      "rx_loop G m c buf n =
        (if length buf \<le> unat (sd_len d) then (m1, chain_after c d, [], Inr (n + of_nat (length buf)))
         else rx_loop G m1 (chain_after c d) (drop (unat (sd_len d)) buf) (n + sd_len d))"
    by blast
  have "peek_bytes (peek m1) (dc_desc_table c) (16 * unat (dc_queue_size c)) =
      peek_bytes (peek m) (dc_desc_table c) (16 * unat (dc_queue_size c))"
    unfolding m1(1) using d(3) acc_no_wrap [OF tbl] acc_no_wrap [OF d(2)]
    by (intro peek_bytes_poke_disjoint) (auto intro: disjoint_ranges_take)
  note fr = laid_out_frame [OF tbl m1(2) this]
  have nx: "has_next d \<longleftrightarrow> ds \<noteq> []" using lo by (cases ds) simp_all
  have "ds \<noteq> [] \<longrightarrow> laid_out G m1 (dc_desc_table c) (dc_queue_size c) (sd_next d) ds"
    using lo by (cases ds) (simp_all add: fr)
  with m1 nx show ?thesis by (intro exI [of _ m1] conjI)
qed

lemma rx_loop_spec:
  assumes lo: "laid_out G m (dc_desc_table c) (dc_queue_size c) (dc_next_index c) ds"
    and ttl: "length ds \<le> unat (dc_ttl c)"
    and yb: "unat (dc_yielded_bytes c) + lens (desc_slices ds) < 2 ^ 32"
    and tbl: "acc m (dc_desc_table c) (16 * unat (dc_queue_size c))"
    and ds: "\<forall>d\<in>set ds. is_write_only d \<and> acc m (sd_addr d) (unat (sd_len d)) \<and>
        disjoint_ranges (dc_desc_table c) (16 * unat (dc_queue_size c)) (sd_addr d) (unat (sd_len d))"
    and buf: "length buf < 2 ^ 32"
  shows "\<exists>m' c'. rx_loop G m c buf n =
      (m', c', drop (lens (desc_slices ds)) buf, Inr (n + of_nat (min (lens (desc_slices ds)) (length buf)))) \<and>
    peek m' = pokes (peek m) buf (desc_slices ds) \<and> acc m' = acc m"
  using assms
proof (induction ds arbitrary: c m buf n)
  case (Cons d ds)
  let ?len = "unat (sd_len d)"
  have t: "dc_ttl c \<noteq> 0" and b: "unat (dc_yielded_bytes c) + ?len < 2 ^ 32" using Cons.prems(2,3) by auto
  have d: "is_write_only d" "acc m (sd_addr d) ?len"
      "disjoint_ranges (dc_desc_table c) (16 * unat (dc_queue_size c)) (sd_addr d) ?len"
    using Cons.prems(5) by auto
  from rx_loop_first [OF Cons.prems(1) t b Cons.prems(4) d Cons.prems(6), of n]
  obtain m1 where m1: "peek m1 = poke (peek m) (sd_addr d) (take ?len buf)" "acc m1 = acc m"
      and rx: "rx_loop G m c buf n =
        (if length buf \<le> ?len then (m1, chain_after c d, [], Inr (n + of_nat (length buf)))
         else rx_loop G m1 (chain_after c d) (drop ?len buf) (n + sd_len d))"
      and nx: "has_next d \<longleftrightarrow> ds \<noteq> []"
        "ds \<noteq> [] \<longrightarrow> laid_out G m1 (dc_desc_table c) (dc_queue_size c) (sd_next d) ds"
    by blast
  consider "length buf \<le> ?len" | "\<not> length buf \<le> ?len" "ds = []" | "\<not> length buf \<le> ?len" "ds \<noteq> []" by blast
  then show ?case
  proof cases
    case 1
    then have "min (lens (desc_slices (d # ds))) (length buf) = length buf" by simp
    with 1 rx m1 show ?thesis by simp
  next
    case 2
    with rx m1 nx(1) show ?thesis by (simp add: chain_after_def rx_loop_exhausted min_def)
  next
    case 3
    have "length (drop ?len buf) < 2 ^ 32" using Cons.prems(6) by simp
    then obtain m' e' where "rx_loop G m1 (chain_after c d) (drop ?len buf) (n + sd_len d) =
          (m', e', drop (lens (desc_slices ds)) (drop ?len buf),
           Inr (n + sd_len d + of_nat (min (lens (desc_slices ds)) (length (drop ?len buf)))))"
        "peek m' = pokes (peek m1) (drop ?len buf) (desc_slices ds)" "acc m' = acc m1"
      using Cons.IH [of m1 "chain_after c d" "drop ?len buf" "n + sd_len d"] Cons.prems unat_minus_1_less [OF t]
        unat_add_no_wrap [of "dc_yielded_bytes c" "sd_len d"] nx m1(2) 3(2) by (auto simp: chain_after_def)
    with 3 rx m1 show ?thesis by (auto simp: drop_drop add.commute min_def not_le)
  qed
qed simp

end

section \<open>A byte sink\<close>

text \<open>\<open>Vec<u8>\<close> as a sink over single-region memory: every write is taken whole.\<close>

definition vec_sink :: "(region, byte list) sink_io" where
  "vec_sink =
     \<lparr>so_write_volatile_to = (\<lambda>m a sk n. case sr_read_slice m a n of
          Inl e \<Rightarrow> (sk, Inl e) | Inr bs \<Rightarrow> (sk @ bs, Inr n)),
      so_flush = (\<lambda>sk. (sk, Inr ()))\<rparr>"

interpretation vec: console_sink "single_region e" rg_data sr_acc vec_sink "\<lambda>sk. sk" for e
proof unfold_locales
  fix m :: region and a n and sk :: "byte list" assume "sr_acc m a n"
  then show "\<exists>o'. so_write_volatile_to vec_sink m a sk n = (o', Inr n) \<and> o' = sk @ peek_bytes (rg_data m) a n"
    using sr.read_law [of m a n] by (simp add: vec_sink_def)
qed (simp add: vec_sink_def)

lemmas vec_sink_laws = vec.console_sink_axioms

end
