(* ===== verification/Vsock_Packet.thy ===== *)
theory Vsock_Packet
  imports Descriptor_Chain Single_Region
begin

text \<open>
  Vsock packets (\<open>virtio-vsock/src/packet.rs\<close>): the packed header and its layout, the accessors that
  keep the cached header and the header in guest memory together, and the construction of a packet
  from a chain of the TX or the RX queue. The \<open>unwrap\<close> of the setters would panic on a failed write: the
  value \<open>None\<close>.
\<close>

section \<open>Errors and header\<close>

datatype vsock_error =
    VsDescriptorChainTooShort
  | VsDescriptorLengthTooSmall
  | VsDescriptorLengthTooLong
  | VsInvalidHeaderInputSize nat
  | VsInvalidHeaderLen u32
  | VsInvalidMemoryAccess gm_error
  | VsInvalidVolatileAccess vm_error
  | VsUnexpectedReadOnlyDescriptor
  | VsUnexpectedWriteOnlyDescriptor

fun vsock_error_display :: "(gm_error \<Rightarrow> string) \<Rightarrow> (vm_error \<Rightarrow> string) \<Rightarrow> vsock_error \<Rightarrow> string" where
  "vsock_error_display gm vm VsDescriptorChainTooShort = ''There are not enough descriptors in the chain.''"
| "vsock_error_display gm vm VsDescriptorLengthTooSmall =
     ''The descriptor is pointing to a buffer that has a smaller length than expected.''"
| "vsock_error_display gm vm VsDescriptorLengthTooLong =
     ''The descriptor is pointing to a buffer that has a longer length than expected.''"
| "vsock_error_display gm vm (VsInvalidHeaderInputSize sz) = ''Invalid header input size: '' @ show_nat sz"
| "vsock_error_display gm vm (VsInvalidHeaderLen sz) =
     ''Invalid header `len` field value: '' @ show_nat (unat sz)"
| "vsock_error_display gm vm (VsInvalidMemoryAccess err) = ''Invalid guest memory access: '' @ gm err"
| "vsock_error_display gm vm (VsInvalidVolatileAccess err) = ''Invalid volatile memory access: '' @ vm err"
| "vsock_error_display gm vm VsUnexpectedReadOnlyDescriptor = ''Unexpected read-only descriptor.''"
| "vsock_error_display gm vm VsUnexpectedWriteOnlyDescriptor = ''Unexpected write-only descriptor.''"

record packet_header =
  ph_src_cid :: u64
  ph_dst_cid :: u64
  ph_src_port :: u32
  ph_dst_port :: u32
  ph_len :: u32
  ph_type :: u16
  ph_op :: u16
  ph_flags :: u32
  ph_buf_alloc :: u32
  ph_fwd_cnt :: u32

definition packet_header_default :: packet_header where
  "packet_header_default =
     \<lparr>ph_src_cid = 0, ph_dst_cid = 0, ph_src_port = 0, ph_dst_port = 0, ph_len = 0, ph_type = 0,
      ph_op = 0, ph_flags = 0, ph_buf_alloc = 0, ph_fwd_cnt = 0\<rparr>"

definition PKT_HEADER_SIZE :: nat where "PKT_HEADER_SIZE = 44"
definition SRC_CID_OFFSET :: nat where "SRC_CID_OFFSET = 0"
definition DST_CID_OFFSET :: nat where "DST_CID_OFFSET = 8"
definition SRC_PORT_OFFSET :: nat where "SRC_PORT_OFFSET = 16"
definition DST_PORT_OFFSET :: nat where "DST_PORT_OFFSET = 20"
definition LEN_OFFSET :: nat where "LEN_OFFSET = 24"
definition TYPE_OFFSET :: nat where "TYPE_OFFSET = 28"
definition OP_OFFSET :: nat where "OP_OFFSET = 30"
definition FLAGS_OFFSET :: nat where "FLAGS_OFFSET = 32"
definition BUF_ALLOC_OFFSET :: nat where "BUF_ALLOC_OFFSET = 36"
definition FWD_CNT_OFFSET :: nat where "FWD_CNT_OFFSET = 40"

lemmas offset_defs =
  SRC_CID_OFFSET_def DST_CID_OFFSET_def SRC_PORT_OFFSET_def DST_PORT_OFFSET_def LEN_OFFSET_def
  TYPE_OFFSET_def OP_OFFSET_def FLAGS_OFFSET_def BUF_ALLOC_OFFSET_def FWD_CNT_OFFSET_def

text \<open>The packed little-endian representation (\<open>repr(C, packed)\<close>).\<close>

definition header_bytes :: "packet_header \<Rightarrow> byte list" where
  "header_bytes h =
     le_bytes 8 (ph_src_cid h) @ le_bytes 8 (ph_dst_cid h) @ le_bytes 4 (ph_src_port h) @
     le_bytes 4 (ph_dst_port h) @ le_bytes 4 (ph_len h) @ le_bytes 2 (ph_type h) @
     le_bytes 2 (ph_op h) @ le_bytes 4 (ph_flags h) @ le_bytes 4 (ph_buf_alloc h) @
     le_bytes 4 (ph_fwd_cnt h)"

definition field :: "nat \<Rightarrow> nat \<Rightarrow> byte list \<Rightarrow> byte list" where
  "field off n bs = take n (drop off bs)"

definition header_of_bytes :: "byte list \<Rightarrow> packet_header" where
  "header_of_bytes bs =
     \<lparr>ph_src_cid = le_word (field SRC_CID_OFFSET 8 bs),
      ph_dst_cid = le_word (field DST_CID_OFFSET 8 bs),
      ph_src_port = le_word (field SRC_PORT_OFFSET 4 bs),
      ph_dst_port = le_word (field DST_PORT_OFFSET 4 bs),
      ph_len = le_word (field LEN_OFFSET 4 bs),
      ph_type = le_word (field TYPE_OFFSET 2 bs),
      ph_op = le_word (field OP_OFFSET 2 bs),
      ph_flags = le_word (field FLAGS_OFFSET 4 bs),
      ph_buf_alloc = le_word (field BUF_ALLOC_OFFSET 4 bs),
      ph_fwd_cnt = le_word (field FWD_CNT_OFFSET 4 bs)\<rparr>"

section \<open>Packets\<close>

record vsock_packet =
  vp_header_slice :: vslice
  vp_header :: packet_header
  vp_data_slice :: "vslice option"

text \<open>The macro \<open>set_header_field\<close>: the field in the cached header and its bytes in memory.\<close>

definition set_header_field ::
    "'m guest_memory \<Rightarrow> 'm \<Rightarrow> vsock_packet \<Rightarrow> (packet_header \<Rightarrow> packet_header) \<Rightarrow> nat \<Rightarrow> byte list \<Rightarrow>
     (vsock_packet \<times> 'm) option" where
  "set_header_field G m pkt upd off bs =
     (case gm_slice_write_at G m (vp_header_slice pkt) bs off of
        (m', Inl _) \<Rightarrow> None
      | (m', Inr _) \<Rightarrow> Some (pkt\<lparr>vp_header := upd (vp_header pkt)\<rparr>, m'))"

definition set_header_from_raw ::
    "'m guest_memory \<Rightarrow> 'm \<Rightarrow> vsock_packet \<Rightarrow> byte list \<Rightarrow> vsock_packet \<times> 'm \<times> (vsock_error + unit)" where
  "set_header_from_raw G m pkt bs =
     (if length bs \<noteq> PKT_HEADER_SIZE then (pkt, m, Inl (VsInvalidHeaderInputSize (length bs)))
      else case gm_slice_write_at G m (vp_header_slice pkt) bs 0 of
        (m', Inl e) \<Rightarrow> (pkt, m', Inl (VsInvalidVolatileAccess e))
      | (m', Inr _) \<Rightarrow>
          (case gm_slice_read_at G m' (vp_header_slice pkt) 0 PKT_HEADER_SIZE of
             Inl e \<Rightarrow> (pkt, m', Inl (VsInvalidVolatileAccess e))
           | Inr hs \<Rightarrow> (pkt\<lparr>vp_header := header_of_bytes hs\<rparr>, m', Inr ())))"

definition src_cid :: "vsock_packet \<Rightarrow> u64" where "src_cid pkt = ph_src_cid (vp_header pkt)"
definition dst_cid :: "vsock_packet \<Rightarrow> u64" where "dst_cid pkt = ph_dst_cid (vp_header pkt)"
definition src_port :: "vsock_packet \<Rightarrow> u32" where "src_port pkt = ph_src_port (vp_header pkt)"
definition dst_port :: "vsock_packet \<Rightarrow> u32" where "dst_port pkt = ph_dst_port (vp_header pkt)"
definition pkt_len :: "vsock_packet \<Rightarrow> u32" where "pkt_len pkt = ph_len (vp_header pkt)"
definition pkt_is_empty :: "vsock_packet \<Rightarrow> bool" where "pkt_is_empty pkt \<longleftrightarrow> pkt_len pkt = 0"
definition pkt_type :: "vsock_packet \<Rightarrow> u16" where "pkt_type pkt = ph_type (vp_header pkt)"
definition pkt_op :: "vsock_packet \<Rightarrow> u16" where "pkt_op pkt = ph_op (vp_header pkt)"
definition pkt_flags :: "vsock_packet \<Rightarrow> u32" where "pkt_flags pkt = ph_flags (vp_header pkt)"
definition buf_alloc :: "vsock_packet \<Rightarrow> u32" where "buf_alloc pkt = ph_buf_alloc (vp_header pkt)"
definition fwd_cnt :: "vsock_packet \<Rightarrow> u32" where "fwd_cnt pkt = ph_fwd_cnt (vp_header pkt)"

definition set_src_cid :: "'m guest_memory \<Rightarrow> 'm \<Rightarrow> vsock_packet \<Rightarrow> u64 \<Rightarrow> (vsock_packet \<times> 'm) option" where
  "set_src_cid G m pkt v = set_header_field G m pkt (ph_src_cid_update (\<lambda>_. v)) SRC_CID_OFFSET (le_bytes 8 v)"
definition set_dst_cid :: "'m guest_memory \<Rightarrow> 'm \<Rightarrow> vsock_packet \<Rightarrow> u64 \<Rightarrow> (vsock_packet \<times> 'm) option" where
  "set_dst_cid G m pkt v = set_header_field G m pkt (ph_dst_cid_update (\<lambda>_. v)) DST_CID_OFFSET (le_bytes 8 v)"
definition set_src_port :: "'m guest_memory \<Rightarrow> 'm \<Rightarrow> vsock_packet \<Rightarrow> u32 \<Rightarrow> (vsock_packet \<times> 'm) option" where
  "set_src_port G m pkt v = set_header_field G m pkt (ph_src_port_update (\<lambda>_. v)) SRC_PORT_OFFSET (le_bytes 4 v)"
definition set_dst_port :: "'m guest_memory \<Rightarrow> 'm \<Rightarrow> vsock_packet \<Rightarrow> u32 \<Rightarrow> (vsock_packet \<times> 'm) option" where
  "set_dst_port G m pkt v = set_header_field G m pkt (ph_dst_port_update (\<lambda>_. v)) DST_PORT_OFFSET (le_bytes 4 v)"
definition set_len :: "'m guest_memory \<Rightarrow> 'm \<Rightarrow> vsock_packet \<Rightarrow> u32 \<Rightarrow> (vsock_packet \<times> 'm) option" where
  "set_len G m pkt v = set_header_field G m pkt (ph_len_update (\<lambda>_. v)) LEN_OFFSET (le_bytes 4 v)"
definition set_type :: "'m guest_memory \<Rightarrow> 'm \<Rightarrow> vsock_packet \<Rightarrow> u16 \<Rightarrow> (vsock_packet \<times> 'm) option" where
  "set_type G m pkt v = set_header_field G m pkt (ph_type_update (\<lambda>_. v)) TYPE_OFFSET (le_bytes 2 v)"
definition set_op :: "'m guest_memory \<Rightarrow> 'm \<Rightarrow> vsock_packet \<Rightarrow> u16 \<Rightarrow> (vsock_packet \<times> 'm) option" where
  "set_op G m pkt v = set_header_field G m pkt (ph_op_update (\<lambda>_. v)) OP_OFFSET (le_bytes 2 v)"
definition set_flags :: "'m guest_memory \<Rightarrow> 'm \<Rightarrow> vsock_packet \<Rightarrow> u32 \<Rightarrow> (vsock_packet \<times> 'm) option" where
  "set_flags G m pkt v = set_header_field G m pkt (ph_flags_update (\<lambda>_. v)) FLAGS_OFFSET (le_bytes 4 v)"
definition set_flag :: "'m guest_memory \<Rightarrow> 'm \<Rightarrow> vsock_packet \<Rightarrow> u32 \<Rightarrow> (vsock_packet \<times> 'm) option" where
  "set_flag G m pkt flag = set_flags G m pkt (pkt_flags pkt OR flag)"
definition set_buf_alloc :: "'m guest_memory \<Rightarrow> 'm \<Rightarrow> vsock_packet \<Rightarrow> u32 \<Rightarrow> (vsock_packet \<times> 'm) option" where
  "set_buf_alloc G m pkt v = set_header_field G m pkt (ph_buf_alloc_update (\<lambda>_. v)) BUF_ALLOC_OFFSET (le_bytes 4 v)"
definition set_fwd_cnt :: "'m guest_memory \<Rightarrow> 'm \<Rightarrow> vsock_packet \<Rightarrow> u32 \<Rightarrow> (vsock_packet \<times> 'm) option" where
  "set_fwd_cnt G m pkt v = set_header_field G m pkt (ph_fwd_cnt_update (\<lambda>_. v)) FWD_CNT_OFFSET (le_bytes 4 v)"

section \<open>Packets from descriptor chains\<close>

definition from_tx_virtq_chain ::
    "'m guest_memory \<Rightarrow> 'm \<Rightarrow> desc_chain \<Rightarrow> u32 \<Rightarrow> desc_chain \<times> (vsock_error + vsock_packet)" where
  "from_tx_virtq_chain G m c max_data_size =
     (case chain_next G m c of
        (c1, None) \<Rightarrow> (c1, Inl VsDescriptorChainTooShort)
      | (c1, Some chain_head) \<Rightarrow>
          if is_write_only chain_head then (c1, Inl VsUnexpectedWriteOnlyDescriptor)
          else if unat (sd_len chain_head) < PKT_HEADER_SIZE then (c1, Inl VsDescriptorLengthTooSmall)
          else (case gm_get_slice G m (sd_addr chain_head) PKT_HEADER_SIZE of
            Inl e \<Rightarrow> (c1, Inl (VsInvalidMemoryAccess e))
          | Inr header_slice \<Rightarrow>
              (case gm_read_slice G m (sd_addr chain_head) PKT_HEADER_SIZE of
                 Inl e \<Rightarrow> (c1, Inl (VsInvalidMemoryAccess e))
               | Inr hs \<Rightarrow>
                   let pkt = \<lparr>vp_header_slice = header_slice, vp_header = header_of_bytes hs,
                              vp_data_slice = None\<rparr> in
                   if pkt_is_empty pkt then (c1, Inr pkt)
                   else if pkt_len pkt > max_data_size then (c1, Inl (VsInvalidHeaderLen (pkt_len pkt)))
                   else if \<not> has_next chain_head \<and>
                           sd_len chain_head - of_nat PKT_HEADER_SIZE \<ge> pkt_len pkt then
                     (case checked_add (sd_addr chain_head) (of_nat PKT_HEADER_SIZE) of
                        None \<Rightarrow> (c1, Inl VsDescriptorLengthTooSmall)
                      | Some a \<Rightarrow>
                          (case gm_get_slice G m a (unat (pkt_len pkt)) of
                             Inl e \<Rightarrow> (c1, Inl (VsInvalidMemoryAccess e))
                           | Inr ds \<Rightarrow> (c1, Inr (pkt\<lparr>vp_data_slice := Some ds\<rparr>))))
                   else if \<not> has_next chain_head then (c1, Inl VsDescriptorChainTooShort)
                   else (case chain_next G m c1 of
                     (c2, None) \<Rightarrow> (c2, Inl VsDescriptorChainTooShort)
                   | (c2, Some data_desc) \<Rightarrow>
                       if is_write_only data_desc then (c2, Inl VsUnexpectedWriteOnlyDescriptor)
                       else if sd_len data_desc < pkt_len pkt then (c2, Inl VsDescriptorLengthTooSmall)
                       else (case gm_get_slice G m (sd_addr data_desc) (unat (pkt_len pkt)) of
                               Inl e \<Rightarrow> (c2, Inl (VsInvalidMemoryAccess e))
                             | Inr ds \<Rightarrow> (c2, Inr (pkt\<lparr>vp_data_slice := Some ds\<rparr>)))))))"

definition from_rx_virtq_chain ::
    "'m guest_memory \<Rightarrow> 'm \<Rightarrow> desc_chain \<Rightarrow> u32 \<Rightarrow> desc_chain \<times> (vsock_error + vsock_packet)" where
  "from_rx_virtq_chain G m c max_data_size =
     (case chain_next G m c of
        (c1, None) \<Rightarrow> (c1, Inl VsDescriptorChainTooShort)
      | (c1, Some chain_head) \<Rightarrow>
          if \<not> is_write_only chain_head then (c1, Inl VsUnexpectedReadOnlyDescriptor)
          else if unat (sd_len chain_head) < PKT_HEADER_SIZE then (c1, Inl VsDescriptorLengthTooSmall)
          else (case gm_get_slice G m (sd_addr chain_head) PKT_HEADER_SIZE of
            Inl e \<Rightarrow> (c1, Inl (VsInvalidMemoryAccess e))
          | Inr header_slice \<Rightarrow>
              let packet = (\<lambda>ds. \<lparr>vp_header_slice = header_slice, vp_header = packet_header_default,
                                  vp_data_slice = Some ds\<rparr>) in
              if \<not> has_next chain_head \<and> unat (sd_len chain_head) > PKT_HEADER_SIZE then
                (case checked_add (sd_addr chain_head) (of_nat PKT_HEADER_SIZE) of
                   None \<Rightarrow> (c1, Inl VsDescriptorLengthTooSmall)
                 | Some a \<Rightarrow>
                     (case gm_get_slice G m a (unat (sd_len chain_head) - PKT_HEADER_SIZE) of
                        Inl e \<Rightarrow> (c1, Inl (VsInvalidMemoryAccess e))
                      | Inr ds \<Rightarrow> (c1, Inr (packet ds))))
              else if \<not> has_next chain_head then (c1, Inl VsDescriptorChainTooShort)
              else (case chain_next G m c1 of
                (c2, None) \<Rightarrow> (c2, Inl VsDescriptorChainTooShort)
              | (c2, Some data_desc) \<Rightarrow>
                  if \<not> is_write_only data_desc then (c2, Inl VsUnexpectedReadOnlyDescriptor)
                  else if sd_len data_desc > max_data_size then (c2, Inl VsDescriptorLengthTooLong)
                  else (case gm_get_slice G m (sd_addr data_desc) (unat (sd_len data_desc)) of
                          Inl e \<Rightarrow> (c2, Inl (VsInvalidMemoryAccess e))
                        | Inr ds \<Rightarrow> (c2, Inr (packet ds))))))"

text \<open>A packet over caller-provided slices.\<close>

definition vsock_packet_new :: "vslice \<Rightarrow> vslice option \<Rightarrow> vsock_error + vsock_packet" where
  "vsock_packet_new header data =
     (if vs_len header \<noteq> PKT_HEADER_SIZE then Inl (VsInvalidHeaderInputSize (vs_len header))
      else Inr \<lparr>vp_header_slice = header, vp_header = packet_header_default, vp_data_slice = data\<rparr>)"

section \<open>The layout\<close>

lemma length_header_bytes [simp]: "length (header_bytes h) = PKT_HEADER_SIZE"
  by (simp add: header_bytes_def PKT_HEADER_SIZE_def)

lemma header_of_bytes_header [simp]: "header_of_bytes (header_bytes h) = h"
  by (simp add: header_of_bytes_def header_bytes_def field_def offset_defs)

lemma field_split: "field off n bs @ drop (off + n) bs = drop off bs"
  by (simp add: field_def) (metis add.commute append_take_drop_id drop_drop)

lemma header_bytes_of_bytes:
  assumes "length bs = PKT_HEADER_SIZE"
  shows "header_bytes (header_of_bytes bs) = bs"
proof -
  have l: "length (field off n bs) = n" if "off + n \<le> 44" for off n
    using assms that by (simp add: field_def PKT_HEADER_SIZE_def)
  have w: "le_bytes 8 (le_word (field off 8 bs) :: u64) = field off 8 bs" if "off \<le> 36" for off
    using le_bytes_le_word [where 'a = 64, of "field off 8 bs"] that by (simp add: l)
  have v: "le_bytes 4 (le_word (field off 4 bs) :: u32) = field off 4 bs" if "off \<le> 40" for off
    using le_bytes_le_word [where 'a = 32, of "field off 4 bs"] that by (simp add: l)
  have h: "le_bytes 2 (le_word (field off 2 bs) :: u16) = field off 2 bs" if "off \<le> 42" for off
    using le_bytes_le_word [where 'a = 16, of "field off 2 bs"] that by (simp add: l)
  have "header_bytes (header_of_bytes bs) =
      field 0 8 bs @ field 8 8 bs @ field 16 4 bs @ field 20 4 bs @ field 24 4 bs @ field 28 2 bs @
      field 30 2 bs @ field 32 4 bs @ field 36 4 bs @ field 40 4 bs @ drop 44 bs"
    using assms by (simp add: header_bytes_def header_of_bytes_def offset_defs w v h PKT_HEADER_SIZE_def)
  also have "\<dots> = bs"
    using field_split [of 40 4 bs] field_split [of 36 4 bs] field_split [of 32 4 bs] field_split [of 30 2 bs]
      field_split [of 28 2 bs] field_split [of 24 4 bs] field_split [of 20 4 bs] field_split [of 16 4 bs]
      field_split [of 8 8 bs] field_split [of 0 8 bs] by simp
  finally show ?thesis .
qed

text \<open>Writing a field changes its bytes of the representation only.\<close>

definition patch_at :: "'a list \<Rightarrow> nat \<Rightarrow> 'a list \<Rightarrow> 'a list" where
  "patch_at xs off ys = take off xs @ ys @ drop (off + length ys) xs"

lemma header_patch_at:
  "header_bytes (h\<lparr>ph_src_cid := a\<rparr>) = patch_at (header_bytes h) SRC_CID_OFFSET (le_bytes 8 a)"
  "header_bytes (h\<lparr>ph_dst_cid := a\<rparr>) = patch_at (header_bytes h) DST_CID_OFFSET (le_bytes 8 a)"
  "header_bytes (h\<lparr>ph_src_port := b\<rparr>) = patch_at (header_bytes h) SRC_PORT_OFFSET (le_bytes 4 b)"
  "header_bytes (h\<lparr>ph_dst_port := b\<rparr>) = patch_at (header_bytes h) DST_PORT_OFFSET (le_bytes 4 b)"
  "header_bytes (h\<lparr>ph_len := b\<rparr>) = patch_at (header_bytes h) LEN_OFFSET (le_bytes 4 b)"
  "header_bytes (h\<lparr>ph_type := w\<rparr>) = patch_at (header_bytes h) TYPE_OFFSET (le_bytes 2 w)"
  "header_bytes (h\<lparr>ph_op := w\<rparr>) = patch_at (header_bytes h) OP_OFFSET (le_bytes 2 w)"
  "header_bytes (h\<lparr>ph_flags := b\<rparr>) = patch_at (header_bytes h) FLAGS_OFFSET (le_bytes 4 b)"
  "header_bytes (h\<lparr>ph_buf_alloc := b\<rparr>) = patch_at (header_bytes h) BUF_ALLOC_OFFSET (le_bytes 4 b)"
  "header_bytes (h\<lparr>ph_fwd_cnt := b\<rparr>) = patch_at (header_bytes h) FWD_CNT_OFFSET (le_bytes 4 b)"
  by (simp_all add: patch_at_def header_bytes_def offset_defs)

lemma peek_bytes_poke_patch:
  assumes "off + length bs \<le> n" and "unat a + n < 2 ^ 64"
  shows "peek_bytes (poke f (a + of_nat off) bs) a n = patch_at (peek_bytes f a n) off bs"
proof -
  let ?f = "poke f (a + of_nat off) bs" and ?k = "n - off - length bs"
  have n: "n = off + (length bs + ?k)" using assms(1) by simp
  have split: "peek_bytes g a n = peek_bytes g a off @ peek_bytes g (a + of_nat off) (length bs) @
      peek_bytes g (a + of_nat (off + length bs)) ?k" for g
    by (subst n) (simp only: peek_bytes_append of_nat_add add.assoc)
  have 1: "peek_bytes ?f a off = peek_bytes f a off"
    using peek_field_poke_other [of 0 off off bs a f] assms by simp
  have 2: "peek_bytes ?f (a + of_nat off) (length bs) = bs"
    using assms by (intro peek_field_poke_same) auto
  have 3: "peek_bytes ?f (a + of_nat (off + length bs)) ?k = peek_bytes f (a + of_nat (off + length bs)) ?k"
    using assms by (intro peek_field_poke_other) auto
  show ?thesis
    unfolding split [of ?f] 1 2 3 unfolding split [of f] by (simp add: patch_at_def)
qed

section \<open>The cached header and memory\<close>

text \<open>The header slice is accessible and holds the representation of the cached header.\<close>

definition header_synced ::
    "('m \<Rightarrow> u64 \<Rightarrow> byte) \<Rightarrow> ('m \<Rightarrow> u64 \<Rightarrow> nat \<Rightarrow> bool) \<Rightarrow> 'm \<Rightarrow> vsock_packet \<Rightarrow> bool" where
  "header_synced peek acc m pkt \<longleftrightarrow>
     vs_len (vp_header_slice pkt) = PKT_HEADER_SIZE \<and>
     acc m (vs_addr (vp_header_slice pkt)) PKT_HEADER_SIZE \<and>
     peek_bytes (peek m) (vs_addr (vp_header_slice pkt)) PKT_HEADER_SIZE = header_bytes (vp_header pkt)"

context guest_mem
begin

lemma set_header_field_synced:
  assumes "header_synced peek acc m pkt"
    and "header_bytes (upd (vp_header pkt)) = patch_at (header_bytes (vp_header pkt)) off bs"
    and "off + length bs \<le> PKT_HEADER_SIZE"
  shows "\<exists>m'. set_header_field G m pkt upd off bs = Some (pkt\<lparr>vp_header := upd (vp_header pkt)\<rparr>, m') \<and>
    header_synced peek acc m' (pkt\<lparr>vp_header := upd (vp_header pkt)\<rparr>) \<and>
    peek m' = poke (peek m) (vs_addr (vp_header_slice pkt) + of_nat off) bs \<and> acc m' = acc m"
proof -
  let ?a = "vs_addr (vp_header_slice pkt)"
  have s: "vp_header_slice pkt = \<lparr>vs_addr = ?a, vs_len = PKT_HEADER_SIZE\<rparr>"
    and acc: "acc m ?a PKT_HEADER_SIZE"
    and pk: "peek_bytes (peek m) ?a PKT_HEADER_SIZE = header_bytes (vp_header pkt)"
    using assms(1) by (auto simp: header_synced_def)
  obtain m' where m': "gm_slice_write_at G m (vp_header_slice pkt) bs off = (m', Inr (length bs))"
      "peek m' = poke (peek m) (?a + of_nat off) bs" "acc m' = acc m"
    using slice_write_at_law [OF acc assms(3)] s by metis
  moreover have "peek_bytes (peek m') ?a PKT_HEADER_SIZE = header_bytes (upd (vp_header pkt))"
    unfolding m'(2) assms(2) using assms(3) acc_no_wrap [OF acc] pk
    by (simp add: peek_bytes_poke_patch)
  ultimately show ?thesis using assms(1)
    by (simp add: set_header_field_def header_synced_def)
qed

end

section \<open>What an accepted packet satisfies\<close>

text \<open>The payload of an accepted TX packet: the rest of the single descriptor, or the second descriptor.\<close>

definition tx_payload :: "'m guest_memory \<Rightarrow> 'm \<Rightarrow> split_desc \<Rightarrow> split_desc list \<Rightarrow> u32 \<Rightarrow> vslice \<Rightarrow> bool" where
  "tx_payload G m hd_desc rest n ds \<longleftrightarrow>
     (\<not> has_next hd_desc \<and> PKT_HEADER_SIZE + unat n \<le> unat (sd_len hd_desc) \<and>
        gm_get_slice G m (sd_addr hd_desc + of_nat PKT_HEADER_SIZE) (unat n) = Inr ds) \<or>
     (\<exists>d rest'. has_next hd_desc \<and> rest = d # rest' \<and> \<not> is_write_only d \<and> n \<le> sd_len d \<and>
        gm_get_slice G m (sd_addr d) (unat n) = Inr ds)"

lemma from_tx_sound:
  assumes "from_tx_virtq_chain G m c max_size = (c', Inr pkt)"
  shows "\<exists>hd_desc rest hs. chain_collect G m c = hd_desc # rest \<and> \<not> is_write_only hd_desc \<and>
    PKT_HEADER_SIZE \<le> unat (sd_len hd_desc) \<and> gm_read_slice G m (sd_addr hd_desc) PKT_HEADER_SIZE = Inr hs \<and>
    gm_get_slice G m (sd_addr hd_desc) PKT_HEADER_SIZE = Inr (vp_header_slice pkt) \<and>
    vp_header pkt = header_of_bytes hs \<and>
    (if pkt_len pkt = 0 then vp_data_slice pkt = None
     else pkt_len pkt \<le> max_size \<and>
       (\<exists>ds. vp_data_slice pkt = Some ds \<and> tx_payload G m hd_desc rest (pkt_len pkt) ds))"
proof -
  obtain c1 hd_desc where n1: "chain_next G m c = (c1, Some hd_desc)"
    using assms by (auto simp: from_tx_virtq_chain_def split: prod.splits option.splits)
  have cc: "chain_collect G m c = hd_desc # chain_collect G m c1" using n1 by (rule chain_collect_Some)
  have h: "\<not> is_write_only hd_desc" "PKT_HEADER_SIZE \<le> unat (sd_len hd_desc)"
    using assms n1 by (auto simp: from_tx_virtq_chain_def split: if_splits)
  then obtain sl where sl: "gm_get_slice G m (sd_addr hd_desc) PKT_HEADER_SIZE = Inr sl"
    using assms n1 by (auto simp: from_tx_virtq_chain_def split: sum.splits)
  then obtain hs where hs: "gm_read_slice G m (sd_addr hd_desc) PKT_HEADER_SIZE = Inr hs"
    using assms n1 h by (auto simp: from_tx_virtq_chain_def split: sum.splits)
  have sub: "unat (sd_len hd_desc - 44) = unat (sd_len hd_desc) - 44"
    using h(2) by (simp add: unat_sub word_le_nat_alt PKT_HEADER_SIZE_def)
  let ?pkt = "\<lparr>vp_header_slice = sl, vp_header = header_of_bytes hs, vp_data_slice = None\<rparr>"
  show ?thesis
  proof (cases "\<not> has_next hd_desc \<and> sd_len hd_desc - of_nat PKT_HEADER_SIZE \<ge> pkt_len ?pkt")
    case True
    then show ?thesis
      using assms n1 cc h sl hs sub
      by (auto simp: from_tx_virtq_chain_def pkt_is_empty_def pkt_len_def tx_payload_def checked_add_eq_Some
          PKT_HEADER_SIZE_def word_le_nat_alt word_less_nat_alt Let_def split: if_splits option.splits sum.splits)
  next
    case False
    obtain c2 r where n2: "chain_next G m c1 = (c2, r)" by fastforce
    have "chain_collect G m c1 = (case r of None \<Rightarrow> [] | Some d \<Rightarrow> d # chain_collect G m c2)"
      using n2 by (cases r) (simp_all add: chain_collect_None chain_collect_Some)
    then show ?thesis
      using assms n1 n2 cc h sl hs False
      by (auto simp: from_tx_virtq_chain_def pkt_is_empty_def pkt_len_def tx_payload_def not_less Let_def
          split: if_splits option.splits sum.splits)
  qed
qed

lemma from_rx_sound:
  assumes "from_rx_virtq_chain G m c max_size = (c', Inr pkt)"
  shows "\<exists>hd_desc rest ds. chain_collect G m c = hd_desc # rest \<and> is_write_only hd_desc \<and>
    PKT_HEADER_SIZE \<le> unat (sd_len hd_desc) \<and>
    gm_get_slice G m (sd_addr hd_desc) PKT_HEADER_SIZE = Inr (vp_header_slice pkt) \<and>
    vp_header pkt = packet_header_default \<and> vp_data_slice pkt = Some ds \<and>
    ((\<not> has_next hd_desc \<and> PKT_HEADER_SIZE < unat (sd_len hd_desc) \<and>
        gm_get_slice G m (sd_addr hd_desc + of_nat PKT_HEADER_SIZE) (unat (sd_len hd_desc) - PKT_HEADER_SIZE) = Inr ds) \<or>
     (\<exists>d rest'. has_next hd_desc \<and> rest = d # rest' \<and> is_write_only d \<and> sd_len d \<le> max_size \<and>
        gm_get_slice G m (sd_addr d) (unat (sd_len d)) = Inr ds))"
proof -
  obtain c1 hd_desc where n1: "chain_next G m c = (c1, Some hd_desc)"
    using assms by (auto simp: from_rx_virtq_chain_def split: prod.splits option.splits)
  have cc: "chain_collect G m c = hd_desc # chain_collect G m c1" using n1 by (rule chain_collect_Some)
  obtain c2 r where n2: "chain_next G m c1 = (c2, r)" by fastforce
  have "chain_collect G m c1 = (case r of None \<Rightarrow> [] | Some d \<Rightarrow> d # chain_collect G m c2)"
    using n2 by (cases r) (simp_all add: chain_collect_None chain_collect_Some)
  then show ?thesis
    using assms n1 n2 cc
    by (auto simp: from_rx_virtq_chain_def checked_add_eq_Some not_less Let_def
        split: if_splits option.splits sum.splits)
qed

section \<open>Every branch, over accessible buffers\<close>

text \<open>What the two constructors decide, over the list of the chain's descriptors and the bytes in memory.\<close>

definition tx_packet :: "(u64 \<Rightarrow> byte) \<Rightarrow> u32 \<Rightarrow> split_desc list \<Rightarrow> vsock_error + vsock_packet" where
  "tx_packet f max_size ds =
     (case ds of
        [] \<Rightarrow> Inl VsDescriptorChainTooShort
      | d # rest \<Rightarrow>
          let h = header_of_bytes (peek_bytes f (sd_addr d) 44);
              packet = (\<lambda>data. \<lparr>vp_header_slice = \<lparr>vs_addr = sd_addr d, vs_len = 44\<rparr>, vp_header = h,
                 vp_data_slice = data\<rparr>) in
          if is_write_only d then Inl VsUnexpectedWriteOnlyDescriptor
          else if unat (sd_len d) < 44 then Inl VsDescriptorLengthTooSmall
          else if ph_len h = 0 then Inr (packet None)
          else if ph_len h > max_size then Inl (VsInvalidHeaderLen (ph_len h))
          else if \<not> has_next d then
            (if 44 + unat (ph_len h) \<le> unat (sd_len d)
             then Inr (packet (Some \<lparr>vs_addr = sd_addr d + 44, vs_len = unat (ph_len h)\<rparr>))
             else Inl VsDescriptorChainTooShort)
          else (case rest of
              [] \<Rightarrow> Inl VsDescriptorChainTooShort
            | d' # _ \<Rightarrow>
                if is_write_only d' then Inl VsUnexpectedWriteOnlyDescriptor
                else if sd_len d' < ph_len h then Inl VsDescriptorLengthTooSmall
                else Inr (packet (Some \<lparr>vs_addr = sd_addr d', vs_len = unat (ph_len h)\<rparr>))))"

definition rx_packet :: "u32 \<Rightarrow> split_desc list \<Rightarrow> vsock_error + vsock_packet" where
  "rx_packet max_size ds =
     (case ds of
        [] \<Rightarrow> Inl VsDescriptorChainTooShort
      | d # rest \<Rightarrow>
          let packet = (\<lambda>data. \<lparr>vp_header_slice = \<lparr>vs_addr = sd_addr d, vs_len = 44\<rparr>,
                 vp_header = packet_header_default, vp_data_slice = Some data\<rparr>) in
          if \<not> is_write_only d then Inl VsUnexpectedReadOnlyDescriptor
          else if unat (sd_len d) < 44 then Inl VsDescriptorLengthTooSmall
          else if \<not> has_next d then
            (if 44 < unat (sd_len d)
             then Inr (packet \<lparr>vs_addr = sd_addr d + 44, vs_len = unat (sd_len d) - 44\<rparr>)
             else Inl VsDescriptorChainTooShort)
          else (case rest of
              [] \<Rightarrow> Inl VsDescriptorChainTooShort
            | d' # _ \<Rightarrow>
                if \<not> is_write_only d' then Inl VsUnexpectedReadOnlyDescriptor
                else if sd_len d' > max_size then Inl VsDescriptorLengthTooLong
                else Inr (packet \<lparr>vs_addr = sd_addr d', vs_len = unat (sd_len d')\<rparr>)))"

lemma chain_collect_cases:
  "chain_collect G m c = (case chain_next G m c of (c', None) \<Rightarrow> [] | (c', Some d) \<Rightarrow> d # chain_collect G m c')"
  by (auto simp: chain_collect_None chain_collect_Some split: prod.splits option.splits)

context guest_mem
begin

lemma get_prefix:
  assumes "acc m a n" and "i + k \<le> n"
  shows "gm_get_slice G m (a + of_nat i) k = Inr \<lparr>vs_addr = a + of_nat i, vs_len = k\<rparr>"
  using get_slice_law [OF acc_sub [OF assms]] .

lemma from_tx_reference:
  assumes "\<forall>d\<in>set (chain_collect G m c). acc m (sd_addr d) (unat (sd_len d))"
  shows "snd (from_tx_virtq_chain G m c max_size) = tx_packet (peek m) max_size (chain_collect G m c)"
proof -
  obtain c1 r where n1: "chain_next G m c = (c1, r)" by fastforce
  show ?thesis
  proof (cases r)
    case (Some d)
    have cc: "chain_collect G m c = d # chain_collect G m c1" using n1 Some by (simp add: chain_collect_Some)
    have a: "acc m (sd_addr d) (unat (sd_len d))" using assms cc by simp
    obtain c2 r2 where n2: "chain_next G m c1 = (c2, r2)" by fastforce
    show ?thesis
    proof (cases "is_write_only d \<or> unat (sd_len d) < 44")
      case True
      with n1 Some cc show ?thesis
        by (auto simp: from_tx_virtq_chain_def tx_packet_def PKT_HEADER_SIZE_def)
    next
      case False
      have h: "gm_get_slice G m (sd_addr d) 44 = Inr \<lparr>vs_addr = sd_addr d, vs_len = 44\<rparr>"
          "gm_read_slice G m (sd_addr d) 44 = Inr (peek_bytes (peek m) (sd_addr d) 44)"
        using False get_prefix [OF a, of 0 44] read_law [OF acc_sub [OF a, of 0 44]] by simp_all
      have sub: "unat (sd_len d - 44) = unat (sd_len d) - 44"
        using False by (simp add: unat_sub word_le_nat_alt)
      have pay: "44 + k \<le> unat (sd_len d) \<Longrightarrow>
          gm_get_slice G m (sd_addr d + 44) k = Inr \<lparr>vs_addr = sd_addr d + 44, vs_len = k\<rparr>" for k
        using get_prefix [OF a, of 44 k] by simp
      have ca: "checked_add (sd_addr d) 44 = Some (sd_addr d + 44)"
        using checked_add_acc [OF a, of 44] False by simp
      have rest: "chain_collect G m c1 = (case r2 of None \<Rightarrow> [] | Some d' \<Rightarrow> d' # chain_collect G m c2)"
        using n2 by (subst chain_collect_cases) (simp split: option.splits)
      have snd: "r2 = Some d' \<Longrightarrow> k \<le> unat (sd_len d') \<Longrightarrow>
          gm_get_slice G m (sd_addr d') k = Inr \<lparr>vs_addr = sd_addr d', vs_len = k\<rparr>" for d' k
        using get_prefix [of m "sd_addr d'" "unat (sd_len d')" 0 k] assms cc rest by simp
      show ?thesis
        using n1 n2 Some cc False h sub pay ca rest snd
        by (auto simp: from_tx_virtq_chain_def tx_packet_def pkt_is_empty_def pkt_len_def Let_def PKT_HEADER_SIZE_def
            word_le_nat_alt word_less_nat_alt split: option.splits)
    qed
  qed (use n1 in \<open>simp add: from_tx_virtq_chain_def tx_packet_def chain_collect_None\<close>)
qed

lemma from_rx_reference:
  assumes "\<forall>d\<in>set (chain_collect G m c). acc m (sd_addr d) (unat (sd_len d))"
  shows "snd (from_rx_virtq_chain G m c max_size) = rx_packet max_size (chain_collect G m c)"
proof -
  obtain c1 r where n1: "chain_next G m c = (c1, r)" by fastforce
  show ?thesis
  proof (cases r)
    case (Some d)
    have cc: "chain_collect G m c = d # chain_collect G m c1" using n1 Some by (simp add: chain_collect_Some)
    have a: "acc m (sd_addr d) (unat (sd_len d))" using assms cc by simp
    obtain c2 r2 where n2: "chain_next G m c1 = (c2, r2)" by fastforce
    have rest: "chain_collect G m c1 = (case r2 of None \<Rightarrow> [] | Some d' \<Rightarrow> d' # chain_collect G m c2)"
      using n2 by (subst chain_collect_cases) (simp split: option.splits)
    have h: "44 \<le> unat (sd_len d) \<Longrightarrow> gm_get_slice G m (sd_addr d) 44 = Inr \<lparr>vs_addr = sd_addr d, vs_len = 44\<rparr>"
        "44 \<le> unat (sd_len d) \<Longrightarrow> gm_get_slice G m (sd_addr d + 44) (unat (sd_len d) - 44) =
           Inr \<lparr>vs_addr = sd_addr d + 44, vs_len = unat (sd_len d) - 44\<rparr>"
        "44 \<le> unat (sd_len d) \<Longrightarrow> checked_add (sd_addr d) 44 = Some (sd_addr d + 44)"
      using get_prefix [OF a, of 0 44] get_prefix [OF a, of 44 "unat (sd_len d) - 44"]
        checked_add_acc [OF a, of 44] by simp_all
    have "r2 = Some d' \<Longrightarrow> gm_get_slice G m (sd_addr d') (unat (sd_len d')) =
        Inr \<lparr>vs_addr = sd_addr d', vs_len = unat (sd_len d')\<rparr>" for d'
      using get_slice_law assms cc rest by simp
    with n1 n2 Some cc rest h show ?thesis
      by (auto simp: from_rx_virtq_chain_def rx_packet_def Let_def PKT_HEADER_SIZE_def not_less
          split: option.splits)
  qed (use n1 in \<open>simp add: from_rx_virtq_chain_def rx_packet_def chain_collect_None\<close>)
qed

end

end
