(* ===== verification/Vsock_Properties.thy ===== *)
theory Vsock_Properties
  imports Vsock_Packet Chain_Properties
begin

text \<open>
  Properties of vsock packets: the constructors accept exactly the well-formed chains and the packet
  they build lies inside the chain, and the setters keep the cached header and guest memory the same.
\<close>

section \<open>Packets from chains\<close>


text \<open>A packet in one descriptor: the header, and two bytes of payload.\<close>

definition tx_header :: packet_header where
  "tx_header = packet_header_default\<lparr>ph_src_cid := 3, ph_dst_cid := 2, ph_len := 2\<rparr>"

definition tx_desc :: split_desc where
  "tx_desc = split_desc_new 1024 46 0 0"

definition tx_region :: region where
  "tx_region = demo_region (poke (poke (\<lambda>_. 0) 256 (split_desc_bytes tx_desc)) 1024 (header_bytes tx_header @ [7, 8]))"


lemma tx_header_bytes: "peek_bytes (rg_data tx_region) 1024 44 = header_bytes tx_header"
proof -
  have "peek_bytes (rg_data tx_region) 1024 (44 + 2) = header_bytes tx_header @ [7, 8]"
    by (simp add: tx_region_def demo_region_def peek_field_poke_same PKT_HEADER_SIZE_def del: peek_bytes_append)
  then have "take 44 (peek_bytes (rg_data tx_region) 1024 (44 + 2)) = take 44 (header_bytes tx_header @ [7, 8])"
    by simp
  then show ?thesis by (simp only: peek_bytes_append) (simp add: PKT_HEADER_SIZE_def)
qed


text \<open>A writable descriptor for a packet of the RX queue.\<close>

definition rx_desc :: split_desc where
  "rx_desc = split_desc_new 1024 100 2 0"

definition rx_region :: region where
  "rx_region = demo_region (poke (\<lambda>_. 0) 256 (split_desc_bytes rx_desc))"

lemma rx_chain: "chain_collect (single_region LittleEndian) rx_region (chain_new 256 2 0) = [rx_desc]"
proof -
  have "read_split_desc (single_region LittleEndian) rx_region 256 = Inr rx_desc"
    unfolding rx_region_def by (rule demo_read_desc; simp add: peek_field_poke_same)
  then have "laid_out (single_region LittleEndian) rx_region 256 2 0 [rx_desc]"
    by (simp add: table_entry_def rx_desc_def flag_simps)
  then show ?thesis
    by (intro chain_collect_laid_out) (simp_all add: chain_new_def chain_with_ttl_def rx_desc_def)
qed

lemma rx_accessible:
  "\<forall>d\<in>set (chain_collect (single_region LittleEndian) rx_region (chain_new 256 2 0)).
     sr_acc rx_region (sd_addr d) (unat (sd_len d))"
  unfolding rx_chain by (simp add: rx_desc_def sr_acc_def rx_region_def demo_region_def)

text \<open>The size limit is not applied to a packet in a single descriptor: 56 bytes of data are accepted
  under a limit of zero.\<close>

lemma rx_limit_unchecked:
  "\<exists>pkt ds. snd (from_rx_virtq_chain (single_region LittleEndian) rx_region (chain_new 256 2 0) 0) = Inr pkt \<and>
     vp_data_slice pkt = Some ds \<and> vs_len ds = 56"
  using guest_mem.from_rx_reference [OF single_region_laws rx_accessible, of 0]
  by (simp add: rx_chain rx_packet_def rx_desc_def flag_simps)

section \<open>Arbitrary chains\<close>

text \<open>Whatever chain and memory a driver presents, an accepted packet lies inside the chain: its header
  slice is the start of the first descriptor, which has room for it, and its data slice lies in the rest
  of that descriptor, or in the second one, which has the direction of the first, within the limit.\<close>

theorem vsock_packet_inside:
  assumes "snd (from_tx_virtq_chain G m c max_size) = Inr pkt \<or> snd (from_rx_virtq_chain G m c max_size) = Inr pkt"
  shows "\<exists>d rest. chain_collect G m c = d # rest \<and> PKT_HEADER_SIZE \<le> unat (sd_len d) \<and>
    gm_get_slice G m (sd_addr d) PKT_HEADER_SIZE = Inr (vp_header_slice pkt) \<and>
    (case vp_data_slice pkt of
       None \<Rightarrow> pkt_len pkt = 0
     | Some ds \<Rightarrow>
         (\<exists>n. PKT_HEADER_SIZE + n \<le> unat (sd_len d) \<and>
              gm_get_slice G m (sd_addr d + of_nat PKT_HEADER_SIZE) n = Inr ds) \<or>
         (\<exists>d' rest' n. rest = d' # rest' \<and> n \<le> unat (sd_len d') \<and> n \<le> unat max_size \<and>
              is_write_only d' = is_write_only d \<and> gm_get_slice G m (sd_addr d') n = Inr ds))"
  using assms
proof
  assume a: "snd (from_tx_virtq_chain G m c max_size) = Inr pkt"
  obtain c' where "from_tx_virtq_chain G m c max_size = (c', Inr pkt)"
    using a by (cases "from_tx_virtq_chain G m c max_size") simp
  from from_tx_sound [OF this] show ?thesis
    by (fastforce simp: tx_payload_def word_le_nat_alt split: if_splits option.splits)
next
  assume a: "snd (from_rx_virtq_chain G m c max_size) = Inr pkt"
  obtain c' where "from_rx_virtq_chain G m c max_size = (c', Inr pkt)"
    using a by (cases "from_rx_virtq_chain G m c max_size") simp
  from from_rx_sound [OF this] show ?thesis
    by (fastforce simp: word_le_nat_alt split: option.splits)
qed

theorem vsock_packet_inside_witness:
  "\<exists>pkt d rest. snd (from_rx_virtq_chain (single_region LittleEndian) rx_region (chain_new 256 2 0) 64) = Inr pkt \<and>
     chain_collect (single_region LittleEndian) rx_region (chain_new 256 2 0) = d # rest \<and>
     gm_get_slice (single_region LittleEndian) rx_region (sd_addr d) PKT_HEADER_SIZE = Inr (vp_header_slice pkt)"
proof -
  obtain pkt where "snd (from_rx_virtq_chain (single_region LittleEndian) rx_region (chain_new 256 2 0) 64) = Inr pkt"
    using guest_mem.from_rx_reference [OF single_region_laws rx_accessible, of 64]
    by (simp add: rx_chain rx_packet_def rx_desc_def flag_simps)
  with vsock_packet_inside [OF disjI2 [OF this]] show ?thesis by blast
qed

section \<open>The header\<close>

text \<open>A setter succeeded: the cached header is updated, guest memory holds the new header, and nothing
  outside the header has changed.\<close>

definition header_updated ::
    "('m \<Rightarrow> u64 \<Rightarrow> byte) \<Rightarrow> ('m \<Rightarrow> u64 \<Rightarrow> nat \<Rightarrow> bool) \<Rightarrow> 'm \<Rightarrow> vsock_packet \<Rightarrow> (packet_header \<Rightarrow> packet_header) \<Rightarrow>
     (vsock_packet \<times> 'm) option \<Rightarrow> bool" where
  "header_updated peek acc m pkt upd r \<longleftrightarrow>
     (\<exists>m'. r = Some (pkt\<lparr>vp_header := upd (vp_header pkt)\<rparr>, m') \<and>
        header_synced peek acc m' (pkt\<lparr>vp_header := upd (vp_header pkt)\<rparr>) \<and>
        (\<forall>a k. unat a + k < 2 ^ 64 \<longrightarrow>
           disjoint_ranges a k (vs_addr (vp_header_slice pkt)) PKT_HEADER_SIZE \<longrightarrow>
           peek_bytes (peek m') a k = peek_bytes (peek m) a k))"

lemma set_header_field_updated:
  assumes "guest_mem G peek acc" and s: "header_synced peek acc m pkt"
    and b: "header_bytes (upd (vp_header pkt)) = patch_at (header_bytes (vp_header pkt)) off bs"
    and l: "off + length bs \<le> PKT_HEADER_SIZE"
  shows "header_updated peek acc m pkt upd (set_header_field G m pkt upd off bs)"
proof -
  let ?a = "vs_addr (vp_header_slice pkt)"
  obtain m' where m': "set_header_field G m pkt upd off bs = Some (pkt\<lparr>vp_header := upd (vp_header pkt)\<rparr>, m')"
      "header_synced peek acc m' (pkt\<lparr>vp_header := upd (vp_header pkt)\<rparr>)"
      "peek m' = poke (peek m) (?a + of_nat off) bs"
    using guest_mem.set_header_field_synced [OF assms(1) s, of upd off bs] b l by blast
  have nw: "unat ?a + PKT_HEADER_SIZE < 2 ^ 64"
    using s guest_mem.acc_no_wrap [OF assms(1)] unfolding header_synced_def by blast
  then have ao: "unat (?a + of_nat off) = unat ?a + off" using l by (intro unat_add_of_nat) simp
  have "peek_bytes (peek m') a k = peek_bytes (peek m) a k"
    if "unat a + k < 2 ^ 64" and "disjoint_ranges a k ?a PKT_HEADER_SIZE" for a k
    unfolding m'(3) using that l nw ao by (intro peek_bytes_poke_disjoint) (auto simp: disjoint_ranges_def)
  with m'(1,2) show ?thesis by (auto simp: header_updated_def)
qed

text \<open>Every setter of the header succeeds on a packet whose cached header and guest memory agree,
  updates exactly its field in both, leaves the rest of memory alone, and so keeps the two in agreement.\<close>

theorem vsock_setters_synced:
  assumes "guest_mem G peek acc" and "header_synced peek acc m pkt"
  shows "header_updated peek acc m pkt (ph_src_cid_update (\<lambda>_. cid)) (set_src_cid G m pkt cid) \<and>
    header_updated peek acc m pkt (ph_dst_cid_update (\<lambda>_. cid)) (set_dst_cid G m pkt cid) \<and>
    header_updated peek acc m pkt (ph_src_port_update (\<lambda>_. v)) (set_src_port G m pkt v) \<and>
    header_updated peek acc m pkt (ph_dst_port_update (\<lambda>_. v)) (set_dst_port G m pkt v) \<and>
    header_updated peek acc m pkt (ph_len_update (\<lambda>_. v)) (set_len G m pkt v) \<and>
    header_updated peek acc m pkt (ph_type_update (\<lambda>_. w)) (set_type G m pkt w) \<and>
    header_updated peek acc m pkt (ph_op_update (\<lambda>_. w)) (set_op G m pkt w) \<and>
    header_updated peek acc m pkt (ph_flags_update (\<lambda>_. v)) (set_flags G m pkt v) \<and>
    header_updated peek acc m pkt (ph_flags_update (\<lambda>f. f OR v)) (set_flag G m pkt v) \<and>
    header_updated peek acc m pkt (ph_buf_alloc_update (\<lambda>_. v)) (set_buf_alloc G m pkt v) \<and>
    header_updated peek acc m pkt (ph_fwd_cnt_update (\<lambda>_. v)) (set_fwd_cnt G m pkt v)"
proof -
  note u = set_header_field_updated [OF assms]
  have "header_updated peek acc m pkt (ph_flags_update (\<lambda>f. f OR v)) r =
      header_updated peek acc m pkt (ph_flags_update (\<lambda>_. ph_flags (vp_header pkt) OR v)) r" for r
    unfolding header_updated_def by (cases "vp_header pkt") simp
  moreover have "header_updated peek acc m pkt (ph_flags_update (\<lambda>_. b)) (set_flags G m pkt b)" for b
    unfolding set_flags_def by (intro u header_patch_at) (simp add: offset_defs PKT_HEADER_SIZE_def)
  ultimately show ?thesis
    unfolding set_src_cid_def set_dst_cid_def set_src_port_def set_dst_port_def set_len_def set_type_def set_op_def
      set_flag_def set_buf_alloc_def set_fwd_cnt_def pkt_flags_def
    by (intro conjI) (simp | intro u header_patch_at | simp add: offset_defs PKT_HEADER_SIZE_def)+
qed

definition tx_packet_demo :: vsock_packet where
  "tx_packet_demo =
     \<lparr>vp_header_slice = \<lparr>vs_addr = 1024, vs_len = 44\<rparr>, vp_header = tx_header,
      vp_data_slice = Some \<lparr>vs_addr = 1068, vs_len = 2\<rparr>\<rparr>"

theorem vsock_setters_synced_witness:
  "header_updated rg_data sr_acc tx_region tx_packet_demo (ph_flags_update (\<lambda>f. f OR 2))
     (set_flag (single_region LittleEndian) tx_region tx_packet_demo 2)"
proof -
  have "header_synced rg_data sr_acc tx_region tx_packet_demo"
    using tx_header_bytes
    by (simp add: header_synced_def tx_packet_demo_def PKT_HEADER_SIZE_def) (simp add: sr_acc_def tx_region_def demo_region_def)
  from vsock_setters_synced [OF single_region_laws this] show ?thesis by blast
qed

end
