(* ===== verification/Mock_Build.thy ===== *)
theory Mock_Build
  imports Mock_Driver
begin

text \<open>
  What the mock driver leaves in guest memory: \<open>MockSplitQueue::create\<close> succeeds over accessible memory,
  the loop of \<open>add_desc_chains\<close> fills the descriptor table and the available ring without a panic, and
  the chain that \<open>build_desc_chain\<close> returns yields the descriptors that were put in.
\<close>

section \<open>Alignment\<close>

lemma align_up_2:
  fixes a :: u64
  assumes "a AND 1 = 0" and "unat a + 1 < 2 ^ 64"
  shows "align_up a 2 = Some a"
proof -
  have "a + 1 = a OR 1" using assms(1) by (rule disjunctive_add_eq_or)
  moreover have "(a OR 1) AND NOT 1 = a" using assms(1) by (simp add: bit_eq_iff bit_simps) metis
  moreover have "checked_add a 1 = Some (a + 1)" using assms(2) by (intro checked_add_SomeI) simp
  ultimately show ?thesis by (simp add: align_up_def)
qed

lemma align_up_4:
  fixes a :: u64
  assumes "unat a + 3 < 2 ^ 64"
  shows "\<exists>b. align_up a 4 = Some b \<and> b AND 3 = 0 \<and> unat a \<le> unat b \<and> unat b \<le> unat a + 3"
proof -
  let ?s = "a + 3"
  have s: "unat ?s = unat a + 3" using assms by (simp add: unat_add_no_wrap)
  have "checked_add a 3 = Some ?s" using assms by (intro checked_add_SomeI) simp
  moreover have "(?s AND NOT 3) AND 3 = 0" by (simp add: bit_eq_iff bit_simps)
  moreover have "(?s AND NOT 3) + (?s AND 3) = ?s"
    by (subst disjunctive_add_eq_or) (simp_all add: bit_eq_iff bit_simps, blast)
  moreover have "?s AND 3 \<le> 3" by (rule word_and_le1)
  moreover have "?s AND NOT 3 \<le> ?s" by (rule word_and_le2)
  ultimately show ?thesis
    using s by (auto simp: align_up_def word_le_nat_alt unat_word_ariths dest: arg_cong [of _ _ unat])
qed

lemma avail_addr_even:
  assumes "start AND 15 = 0" and "unat (a :: u64) = unat (start :: u64) + 16 * n"
  shows "a AND 1 = 0"
proof -
  have "16 dvd unat start" using assms(1) and_mask_eq_0_iff [of start 4] by (simp add: mask_eq_exp_minus_1)
  then have "2 dvd unat a" unfolding assms(2) by presburger
  then show ?thesis using and_mask_eq_0_iff [of a 1] by (simp add: mask_eq_exp_minus_1)
qed

section \<open>Creating the mock queue\<close>

lemma native_zero [simp]: "native_bytes e 2 (0 :: u16) = [0, 0]"
  by (cases e) (simp_all add: native_bytes_def le_bytes_def upt_rec)

lemma le_word_zero [simp]: "le_word [0, 0] = (0 :: u16)"
  by simp

text \<open>Consecutive entries of a table written one after the other.\<close>

primrec poke_table :: "(u64 \<Rightarrow> byte) \<Rightarrow> u64 \<Rightarrow> nat \<Rightarrow> byte list list \<Rightarrow> u64 \<Rightarrow> byte" where
  "poke_table f tbl idx [] = f"
| "poke_table f tbl idx (b # bs) = poke_table (poke f (tbl + of_nat (16 * idx)) b) tbl (Suc idx) bs"

lemma poke_table_frame:
  assumes "\<forall>b\<in>set bs. length b = 16" and "unat tbl + 16 * (idx + length bs) < 2 ^ 64"
    and "disjoint_ranges a n (tbl + of_nat (16 * idx)) (16 * length bs)" and "unat a + n \<le> 2 ^ 64"
  shows "peek_bytes (poke_table f tbl idx bs) a n = peek_bytes f a n"
  using assms
proof (induction bs arbitrary: f idx)
  case (Cons b bs)
  have u: "unat (tbl + of_nat (16 * j)) = unat tbl + 16 * j" if "j \<le> idx + Suc (length bs)" for j
    using Cons.prems(2) that by (intro unat_add_of_nat) simp
  have "peek_bytes (poke_table f tbl idx (b # bs)) a n = peek_bytes (poke f (tbl + of_nat (16 * idx)) b) a n"
    using Cons.prems u [of idx] u [of "Suc idx"]
    by (simp only: poke_table.simps) (rule Cons.IH, auto simp: disjoint_ranges_def)
  also have "\<dots> = peek_bytes f a n"
    using Cons.prems u [of idx] by (intro peek_bytes_poke_disjoint) (auto simp: disjoint_ranges_def)
  finally show ?case .
qed simp

lemma poke_table_entry:
  assumes "\<forall>b\<in>set bs. length b = 16" and "unat tbl + 16 * (idx + length bs) < 2 ^ 64" and "k < length bs"
  shows "peek_bytes (poke_table f tbl idx bs) (tbl + of_nat (16 * (idx + k))) 16 = bs ! k"
  using assms
proof (induction bs arbitrary: f idx k)
  case (Cons b bs)
  have u: "unat (tbl + of_nat (16 * j)) = unat tbl + 16 * j" if "j \<le> idx + Suc (length bs)" for j
    using Cons.prems(2) that by (intro unat_add_of_nat) simp
  show ?case
  proof (cases k)
    case 0
    have "peek_bytes (poke_table f tbl idx (b # bs)) (tbl + of_nat (16 * idx)) 16 =
        peek_bytes (poke f (tbl + of_nat (16 * idx)) b) (tbl + of_nat (16 * idx)) 16"
      using Cons.prems u [of idx] u [of "Suc idx"]
      by (simp only: poke_table.simps) (rule poke_table_frame, auto simp: disjoint_ranges_def)
    with 0 Cons.prems(1) show ?thesis by (simp add: peek_field_poke_same del: of_nat_mult of_nat_add)
  next
    case (Suc j)
    with Cons.IH [of "Suc idx" j] Cons.prems show ?thesis by (simp del: of_nat_mult of_nat_add)
  qed
qed simp

text \<open>Where \<open>create\<close> places the table and the available ring.\<close>

definition mock_placed :: "mock_split_queue \<Rightarrow> u64 \<Rightarrow> u16 \<Rightarrow> bool" where
  "mock_placed mq start len \<longleftrightarrow>
     mk_len mq = len \<and> mk_desc_table_addr mq = start \<and> mk_desc_table mq = descriptor_table_new start len \<and>
     mk_avail_addr mq = start + of_nat (16 * unat len) \<and> mk_used_addr mq AND 3 = 0 \<and>
     sqr_idx (mk_avail mq) = mk_avail_addr mq + 2 \<and>
     sqr_ring (mk_avail mq) = \<lparr>ar_addr = mk_avail_addr mq + 4, ar_len = unat len\<rparr>"

context guest_mem
begin

lemma ref_store_ok:
  assumes "acc m a n" and "i + length bs \<le> n"
  shows "\<exists>m'. ref_store G m (a + of_nat i) bs = Some m' \<and> peek m' = poke (peek m) (a + of_nat i) bs \<and> acc m' = acc m"
  using write_at [OF assms] by (auto simp: ref_store_def)

lemma split_queue_ring_new_ok:
  assumes a: "acc m base (6 + 2 * unat len)"
  shows "\<exists>m'. split_queue_ring_new G m base len =
      Some (\<lparr>sqr_flags = base, sqr_idx = base + 2, sqr_ring = \<lparr>ar_addr = base + 4, ar_len = unat len\<rparr>,
             sqr_event = base + of_nat (4 + 2 * unat len)\<rparr>, m') \<and>
    peek m' = poke (poke (poke (peek m) base [0, 0]) (base + of_nat 2) [0, 0])
      (base + of_nat (4 + 2 * unat len)) [0, 0] \<and> acc m' = acc m"
proof -
  let ?n = "6 + 2 * unat len"
  have c: "checked_add base 2 = Some (base + 2)" "checked_add base 4 = Some (base + 4)"
    using checked_add_acc [OF a, of 2] checked_add_acc [OF a, of 4] by simp_all
  have "unat (base + 4) = unat base + 4"
    using acc_no_wrap [OF a] unat_add_of_nat [of base 4] by simp
  then have e: "checked_add (base + 4) (of_nat (2 * unat len)) = Some (base + of_nat (4 + 2 * unat len))"
    using checked_add_of_nat [of "base + 4" "2 * unat len"] acc_no_wrap [OF a] by (simp add: add.assoc)
  obtain m1 where m1: "ref_store G m base [0, 0] = Some m1" "peek m1 = poke (peek m) base [0, 0]" "acc m1 = acc m"
    using ref_store_ok [OF a, of 0 "[0, 0]"] by auto
  have a1: "acc m1 base ?n" using a m1(3) by simp
  obtain m2 where m2: "ref_store G m1 (base + of_nat 2) [0, 0] = Some m2"
      "peek m2 = poke (peek m1) (base + of_nat 2) [0, 0]" "acc m2 = acc m1"
    using ref_store_ok [OF a1, of 2 "[0, 0]"] by auto
  have a2: "acc m2 base ?n" using a1 m2(3) by simp
  obtain m3 where m3: "ref_store G m2 (base + of_nat (4 + 2 * unat len)) [0, 0] = Some m3"
      "peek m3 = poke (peek m2) (base + of_nat (4 + 2 * unat len)) [0, 0]" "acc m3 = acc m2"
    using ref_store_ok [OF a2, of "4 + 2 * unat len" "[0, 0]"] by auto
  show ?thesis
    using m1 m2 m3 c e by (simp add: split_queue_ring_new_def ref_store_u16_def del: of_nat_add of_nat_mult)
qed

text \<open>Placing the used ring leaves the index of the available ring zero.\<close>

lemma avail_index_kept:
  fixes f :: "u64 \<Rightarrow> byte" and len :: u16 and start ua :: u64
  defines "av \<equiv> start + of_nat (16 * unat len)"
  assumes nw: "unat start + 19 * unat len + 16 < 2 ^ 64" and len: "0 < unat len"
    and ua: "unat start + 17 * unat len + 4 \<le> unat ua" "unat ua \<le> unat start + 17 * unat len + 7"
  shows "peek_bytes (poke (poke (poke (poke (poke (poke f av [0, 0]) (av + of_nat 2) [0, 0])
      (av + of_nat (4 + 2 * unat len)) [0, 0]) ua [0, 0]) (ua + of_nat 2) [0, 0]) (ua + of_nat (4 + 2 * unat len)) [0, 0])
    (av + of_nat 2) 2 = [0, 0]"
proof -
  let ?L = "unat len"
  have "unat av = unat start + 16 * ?L" unfolding av_def using nw by (intro unat_add_of_nat) simp
  then have u: "unat (av + of_nat 2) = unat start + 16 * ?L + 2" "unat (ua + of_nat 2) = unat ua + 2"
      "unat (av + of_nat (4 + 2 * ?L)) = unat start + 18 * ?L + 4" "unat (ua + of_nat (4 + 2 * ?L)) = unat ua + (4 + 2 * ?L)"
    using nw ua len by (simp_all add: unat_add_of_nat del: of_nat_add of_nat_mult of_nat_numeral)
  have "peek_bytes (poke g b [0, 0]) (av + of_nat 2) 2 = peek_bytes g (av + of_nat 2) 2"
    if "unat start + 16 * ?L + 4 \<le> unat b" and "unat b + 2 \<le> 2 ^ 64" for g b
    using that u(1) by (intro peek_bytes_poke_disjoint) (simp_all add: disjoint_ranges_def)
  then show ?thesis
    using u ua nw len by (simp add: peek_field_poke_same del: of_nat_add of_nat_mult of_nat_numeral)
qed

text \<open>The table, the rings as far as the mock uses them: \<open>19 len + 16\<close> bytes from the start.\<close>

lemma mock_create_ok:
  assumes a: "acc m start (19 * unat len + 16)" and al: "start AND 15 = 0" and len: "0 < unat len"
  shows "\<exists>mq m'. mock_create G m start len = Some (mq, m') \<and> mock_placed mq start len \<and>
    peek_bytes (peek m') (start + of_nat (16 * unat len) + 2) 2 = [0, 0] \<and> acc m' = acc m"
proof -
  let ?L = "unat len"
  let ?av = "start + of_nat (16 * ?L)"
  have nw: "unat start + 19 * ?L + 16 < 2 ^ 64" using acc_no_wrap [OF a] by simp
  have av: "unat ?av = unat start + 16 * ?L" using nw by (intro unat_add_of_nat) simp
  have c1: "checked_add start (16 * ucast len) = Some ?av"
    using checked_add_acc [OF a, of "16 * ?L"] by simp
  have "?av AND 1 = 0" using al av by (rule avail_addr_even)
  then have c2: "align_up ?av 2 = Some ?av" using nw av by (intro align_up_2) simp_all
  have aa: "acc m ?av (6 + 2 * ?L)" using a by (rule acc_sub) (use len in simp)
  obtain ring m1 where r1: "split_queue_ring_new G m ?av len = Some (ring, m1)"
      "sqr_ring ring = \<lparr>ar_addr = ?av + 4, ar_len = ?L\<rparr>" "sqr_idx ring = ?av + 2" "acc m1 = acc m"
      "peek m1 = poke (poke (poke (peek m) ?av [0, 0]) (?av + of_nat 2) [0, 0]) (?av + of_nat (4 + 2 * ?L)) [0, 0]"
    using split_queue_ring_new_ok [OF aa] by fastforce
  let ?e = "?av + 4 + of_nat ?L"
  have e: "unat ?e = unat start + 17 * ?L + 4"
    using nw av unat_add_of_nat [of ?av "4 + ?L"] by (simp add: add.assoc)
  have c3: "ring_end ring = Some ?e"
    using e nw av r1(2) checked_add_of_nat [of "?av + 4" ?L] unat_add_of_nat [of ?av 4]
    by (simp add: ring_end_def ring_start_def)
  obtain ua where ua: "align_up ?e 4 = Some ua" "ua AND 3 = 0" "unat ?e \<le> unat ua" "unat ua \<le> unat ?e + 3"
    using align_up_4 [of ?e] e nw by auto
  have uo: "ua = start + of_nat (unat ua - unat start)"
    using ua(3) e by (simp add: word_unat_eq_iff unat_word_ariths unat_of_nat)
  have "acc m1 ua (6 + 2 * ?L)"
    unfolding r1(4) by (subst uo, rule acc_sub [OF a]) (use ua(4) e len in linarith)
  from split_queue_ring_new_ok [OF this] obtain used m2 where r2: "split_queue_ring_new G m1 ua len = Some (used, m2)"
      "peek m2 = poke (poke (poke (peek m1) ua [0, 0]) (ua + of_nat 2) [0, 0]) (ua + of_nat (4 + 2 * ?L)) [0, 0]"
      "acc m2 = acc m1"
    by fastforce
  have "peek_bytes (peek m2) (?av + of_nat 2) 2 = [0, 0]"
    unfolding r2(2) r1(5) using nw len ua(3,4) e by (intro avail_index_kept) simp_all
  with c1 c2 c3 r1 r2 ua show ?thesis
    by (simp add: mock_create_def mock_placed_def)
qed

section \<open>Adding descriptors\<close>

lemma table_store_at:
  assumes a: "acc m tbl (16 * unat len)"
  shows "if unat i < unat len
    then \<exists>m'. table_store G m (descriptor_table_new tbl len) i d = Some (m', Inr ()) \<and>
      peek m' = poke (peek m) (tbl + of_nat (16 * unat i)) (raw_desc_bytes d) \<and> acc m' = acc m
    else table_store G m (descriptor_table_new tbl len) i d = Some (m, Inl MkInvalidIndex)"
proof (cases "unat i < unat len")
  case True
  have "checked_add tbl (of_nat (unat i * 16)) = Some (tbl + of_nat (unat i * 16))"
    using True by (intro checked_add_acc [OF a]) simp
  moreover obtain m' where "ref_store G m (tbl + of_nat (unat i * 16)) (raw_desc_bytes d) = Some m'"
      "peek m' = poke (peek m) (tbl + of_nat (unat i * 16)) (raw_desc_bytes d)" "acc m' = acc m"
    using ref_store_ok [OF a, of "unat i * 16" "raw_desc_bytes d"] True by auto
  ultimately show ?thesis
    using True
    by (simp add: table_store_def descriptor_table_new_def ref_at_def mult.commute [of 16] del: of_nat_mult)
qed (simp add: table_store_def descriptor_table_new_def ref_at_def)

lemma table_acc: "acc m start (19 * unat len + 16) \<Longrightarrow> acc m start (16 * unat len)"
  using acc_sub [of m start "19 * unat len + 16" 0 "16 * unat len"] by simp

lemmas table_store_ok = table_store_at [OF table_acc]

text \<open>One write to the available ring.\<close>

lemma avail_write_ok:
  fixes i slot :: u16
  assumes a: "acc m start (19 * unat len + 16)" and n: "unat slot < unat len"
  shows "\<exists>m'. gm_write_slice G m (start + of_nat (16 * unat len) + (VIRTQ_AVAIL_RING_HEADER_SIZE +
        ucast slot * VIRTQ_AVAIL_ELEMENT_SIZE)) (native_bytes (gm_endian G) 2 (to_le (gm_endian G) i)) = (m', Inr ()) \<and>
    peek m' = poke (peek m) (start + of_nat (16 * unat len + 4 + 2 * unat slot)) (le_bytes 2 i) \<and> acc m' = acc m"
proof -
  have "start + of_nat (16 * unat len) + (VIRTQ_AVAIL_RING_HEADER_SIZE + ucast slot * VIRTQ_AVAIL_ELEMENT_SIZE) =
      start + of_nat (16 * unat len + 4 + 2 * unat slot)"
    by (simp add: queue_const_defs add.assoc mult.commute)
  moreover have "native_bytes (gm_endian G) 2 (to_le (gm_endian G) i) = le_bytes 2 i"
    by (rule native_bytes_to_le) simp
  moreover have "16 * unat len + 4 + 2 * unat slot + length (le_bytes 2 i) \<le> 19 * unat len + 16" using n by simp
  ultimately show ?thesis using write_at [OF a, of "16 * unat len + 4 + 2 * unat slot" "le_bytes 2 i"] by metis
qed

lemma add_desc_loop_total:
  assumes "mock_placed mq start len" and "acc m start (19 * unat len + 16)" and "unat len \<le> 2 ^ 15"
    and "unat n \<le> idx" and "idx \<le> unat len"
  shows "\<exists>m' r. add_desc_loop G m mq 0 0 n prev idx descs = Some (m', r) \<and> acc m' = acc m \<and>
    (\<forall>k. r = Inr k \<longrightarrow> unat k \<le> unat len)"
  using assms
proof (induction descs arbitrary: m n prev idx)
  case (Cons d descs)
  have p: "mk_desc_table mq = descriptor_table_new start len" "mk_avail_addr mq = start + of_nat (16 * unat len)"
    using Cons.prems(1) by (simp_all add: mock_placed_def)
  have i: "unat (of_nat idx :: u16) = idx" using Cons.prems(3,5) by (intro unat_of_nat_less) simp
  have c0: "checked_add (of_nat idx) (0 :: u16) = Some (of_nat idx)"
    using i Cons.prems(3,5) by (simp add: checked_add_def)
  show ?case
  proof (cases "idx < unat len")
    case True
    obtain m1 where m1: "table_store G m (descriptor_table_new start len) (of_nat idx) d = Some (m1, Inr ())" "acc m1 = acc m"
      using table_store_ok [OF Cons.prems(2), of "of_nat idx" d] True i by auto
    have nn: "unat (n + 1) = unat n + 1" "checked_add 0 n = Some n" "checked_add n 1 = Some (n + 1)"
      using Cons.prems(3,4) True by (simp_all add: checked_add_def unat_add_no_wrap)
    obtain m2 where m2: "gm_write_slice G m1 (start + of_nat (16 * unat len) + (VIRTQ_AVAIL_RING_HEADER_SIZE +
        ucast n * VIRTQ_AVAIL_ELEMENT_SIZE)) (native_bytes (gm_endian G) 2 (to_le (gm_endian G) (of_nat idx :: u16))) =
          (m2, Inr ())" "acc m2 = acc m1"
      using avail_write_ok [of m1 start len n "of_nat idx"] Cons.prems(2,4) m1(2) True by auto
    have IH: "\<exists>m' r. add_desc_loop G m'' mq 0 0 n' (Some d) (Suc idx) descs = Some (m', r) \<and> acc m' = acc m'' \<and>
        (\<forall>k. r = Inr k \<longrightarrow> unat k \<le> unat len)"
      if "acc m'' = acc m" and "unat n' \<le> Suc idx" for m'' n'
      using Cons.IH [of m'' n' "Suc idx" "Some d"] Cons.prems(1,2,3) that True by simp
    show ?thesis
      using IH [of m1 n] IH [of m2 "n + 1"] m1 m2 nn c0 p Cons.prems(4)
      by (simp split: option.splits)
  next
    case False
    then show ?thesis
      using table_store_ok [OF Cons.prems(2), of "of_nat idx" d] i c0 p by simp
  qed
qed simp

lemma avail_index_zero:
  assumes "mock_placed mq start len" and "acc m start (19 * unat len + 16)" and "0 < unat len"
    and "peek_bytes (peek m) (start + of_nat (16 * unat len) + 2) 2 = [0, 0]"
  shows "\<exists>bs. gm_read_slice G m (mk_avail_addr mq + 2) 2 = Inr bs \<and>
    from_le (gm_endian G) (native_word (gm_endian G) bs) = (0 :: u16)"
proof -
  have a: "acc m (start + of_nat (16 * unat len + 2)) 2" using assms(2) by (rule acc_sub) simp
  have "gm_read_slice G m (start + of_nat (16 * unat len) + 2) 2 = Inr [0, 0]"
    using read_law [OF a] assms(4) by (simp add: ac_simps)
  moreover have "from_le (gm_endian G) (native_word (gm_endian G) [0, 0]) = (0 :: u16)"
    by (subst from_le_native_word) simp_all
  ultimately show ?thesis using assms(1) by (simp add: mock_placed_def)
qed

text \<open>Adding any list of descriptors to a fresh mock queue neither panics nor reports anything but an index
  beyond the table.\<close>

lemma add_desc_chains_total:
  assumes "mock_placed mq start len" and "acc m start (19 * unat len + 16)" and "0 < unat len" and "unat len \<le> 2 ^ 15"
    and "peek_bytes (peek m) (start + of_nat (16 * unat len) + 2) 2 = [0, 0]"
  shows "\<exists>m' r. add_desc_chains G m mq descs 0 = Some (m', r) \<and> acc m' = acc m"
proof -
  obtain bs where bs: "gm_read_slice G m (mk_avail_addr mq + 2) 2 = Inr bs"
      "from_le (gm_endian G) (native_word (gm_endian G) bs) = (0 :: u16)"
    using avail_index_zero [OF assms(1,2,3,5)] by blast
  obtain m1 r1 where l: "add_desc_loop G m mq 0 0 0 None 0 descs = Some (m1, r1)" "acc m1 = acc m"
    using add_desc_loop_total [OF assms(1,2,4), of 0 0 None descs] by auto
  show ?thesis
  proof (cases r1)
    case (Inl e)
    with bs l show ?thesis by (simp add: add_desc_chains_def)
  next
    case (Inr n)
    have a: "acc m1 start (19 * unat len + 16)" using assms(2) l(2) by simp
    obtain m2 where m2: "gm_write_slice G m1 (start + of_nat (16 * unat len + 2))
        (native_bytes (gm_endian G) 2 (to_le (gm_endian G) n)) = (m2, Inr ())" "acc m2 = acc m1"
      using write_at [OF a, of "16 * unat len + 2" "native_bytes (gm_endian G) 2 (to_le (gm_endian G) n)"] by auto
    have "checked_add 0 n = Some n" by (simp add: checked_add_def)
    with bs l Inr m2 assms(1) show ?thesis
      by (simp add: add_desc_chains_def mock_placed_def ac_simps)
  qed
qed

lemma build_multiple_desc_chains_total:
  assumes "mock_placed mq start len" and "acc m start (19 * unat len + 16)" and "0 < unat len" and "unat len \<le> 2 ^ 15"
    and "peek_bytes (peek m) (start + of_nat (16 * unat len) + 2) 2 = [0, 0]"
  shows "\<exists>m' r. build_multiple_desc_chains G m mq descs = Some (m', r) \<and> acc m' = acc m"
  using add_desc_chains_total [OF assms, of descs]
  by (auto simp: build_multiple_desc_chains_def split: sum.splits)

end

end
