(* ===== verification/Mock_Chains.thy ===== *)
theory Mock_Chains
  imports Mock_Build
begin

text \<open>
  From the mock driver to the device: descriptors that \<open>add_desc_chains\<close> stores in the table, and the heads
  it publishes, are what the iterators of the device find. A descriptor is a head if the one before it
  does not have the \<open>NEXT\<close> flag, so one call publishes several chains.
\<close>

section \<open>Published heads\<close>

text \<open>An available ring at \<open>av\<close> whose entries are the given heads.\<close>

definition ring_published :: "(u64 \<Rightarrow> byte) \<Rightarrow> u64 \<Rightarrow> u16 list \<Rightarrow> bool" where
  "ring_published f av hs \<longleftrightarrow> peek_bytes f (av + of_nat 2) 2 = le_bytes 2 (of_nat (length hs) :: u16) \<and>
     (\<forall>j < length hs. peek_bytes f (av + of_nat (4 + 2 * j)) 2 = le_bytes 2 (hs ! j))"

context guest_mem
begin

text \<open>The queue created from a mock driver with published heads yields one chain for each of them.\<close>

lemma created_queue:
  assumes mq: "mock_placed mq start len" and a: "acc m start (19 * unat len + 16)" and al: "start AND 15 = 0"
    and q: "queue_new len = Inr q0"
  shows "\<exists>q. create_queue mq = Inr q \<and> wf_queue q \<and> avail_ring_acc acc q m \<and> q_ready q \<and> q_avail_ring q \<noteq> 0 \<and>
    q_avail_ring q = start + of_nat (16 * unat len) \<and> q_desc_table q = start \<and> q_size q = len \<and> q_next_avail q = 0 \<and>
    q_next_used q = 0 \<and> q_used_ring q = mk_used_addr mq \<and> q_max_size q = len \<and> q_event_idx_enabled q = False"
proof -
  have len: "0 < unat len" and q0: "q_size q0 = len" "q_next_avail q0 = 0"
      "q_next_used q0 = 0" "q_max_size q0 = len" "\<not> q_event_idx_enabled q0"
    using q by (auto simp: queue_new_Inr unat_gt_0)
  let ?av = "start + of_nat (16 * unat len)"
  let ?q = "q0\<lparr>q_ready := True, q_desc_table := start, q_avail_ring := ?av, q_used_ring := mk_used_addr mq\<rparr>"
  have pl: "mk_len mq = len" "mk_desc_table_addr mq = start" "mk_avail_addr mq = ?av" "mk_used_addr mq AND 3 = 0"
    using mq by (simp_all add: mock_placed_def)
  have av: "unat ?av = unat start + 16 * unat len" using acc_no_wrap [OF a] by (intro unat_add_of_nat) simp
  have av1: "?av AND 1 = 0" using al av by (rule avail_addr_even)
  have "create_queue mq = Inr ?q" using create_queue_ok [of mq q0] q al av1 pl by simp
  moreover have "wf_queue ?q" using wf_queue_new [OF q] al av1 pl(4) by (simp add: wf_queue_def)
  moreover have "acc m ?av (6 + 2 * unat len)" using a by (rule acc_sub) (use len in simp)
  then have "avail_ring_acc acc ?q m" using q0(1) by (simp add: avail_ring_acc_def)
  moreover have "?av \<noteq> 0" using av len by (metis add_is_0 mult_is_0 not_less0 unat_0 zero_neq_numeral)
  ultimately show ?thesis using q0 by (intro exI [of _ ?q]) simp
qed

lemma published_views:
  assumes "ring_published (peek m) (q_avail_ring q) hs" and "length hs \<le> unat (q_size q)"
  shows "avail_idx_at (peek m) q = of_nat (length hs)"
    and "j < length hs \<Longrightarrow> avail_head_at (peek m) q (of_nat j) = hs ! j"
proof -
  show "avail_idx_at (peek m) q = of_nat (length hs)"
    using assms(1) by (simp add: ring_published_def avail_idx_at_def)
  assume j: "j < length hs"
  then have "unat (of_nat j :: u16) = j"
    using le_less_trans [OF assms(2) unat_u16_bound] by (intro unat_of_nat_less) simp
  then have "avail_slot q (of_nat j) = q_avail_ring q + of_nat (4 + 2 * j)" using j assms(2) by (simp add: avail_slot_def)
  with assms(1) j show "avail_head_at (peek m) q (of_nat j) = hs ! j"
    by (simp add: ring_published_def avail_head_at_def del: of_nat_add of_nat_mult)
qed

lemma published_iter:
  assumes q: "wf_queue q" "avail_ring_acc acc q m" "q_ready q" "q_avail_ring q \<noteq> 0" "q_next_avail q = 0"
    and p: "ring_published (peek m) (q_avail_ring q) hs" "length hs \<le> unat (q_size q)"
  shows "\<exists>it. queue_iter G q m = Inr it \<and>
    avail_iter_collect G m it = map (chain_new (q_desc_table q) (q_size q)) hs \<and>
    (hs \<noteq> [] \<longrightarrow> snd (avail_iter_next G m it) = Some (chain_new (q_desc_table q) (q_size q) (hd hs)))"
proof -
  let ?it = "\<lparr>ai_desc_table = q_desc_table q, ai_avail_ring = q_avail_ring q, ai_queue_size = q_size q,
    ai_last_index = of_nat (length hs), ai_next_avail = 0\<rparr>"
  note v = published_views [OF p]
  have u: "unat (of_nat (length hs) :: u16) = length hs"
    using le_less_trans [OF p(2) unat_u16_bound] by (intro unat_of_nat_less) simp
  have it: "queue_iter G q m = Inr ?it" using queue_iter_ok [OF q(1-4)] q(5) v(1) p(2) u by simp
  have c: "avail_iter_collect G m ?it = map (chain_new (q_desc_table q) (q_size q)) hs"
    using avail_iter_collect_heads [OF q(1,2), of ?it] v(2) u
    by (intro nth_equalityI) simp_all
  have n: "snd (avail_iter_next G m ?it) = Some (chain_new (q_desc_table q) (q_size q) (hd hs))" if "hs \<noteq> []"
  proof -
    have "(0 :: u16) \<noteq> of_nat (length hs)" using u that by (metis length_0_conv unat_0)
    then show ?thesis using avail_iter_next_head [OF q(1,2), of ?it] v(2) [of 0] that by (simp add: hd_conv_nth)
  qed
  from it c n show ?thesis by (intro exI [of _ ?it]) simp
qed

end

section \<open>Storing descriptors and publishing their heads\<close>

text \<open>The positions of the heads; the flag says whether the descriptor before continues.\<close>

definition linked_on :: "raw_descriptor \<Rightarrow> bool" where
  "linked_on d \<longleftrightarrow> sd_flags (split_of_raw d) AND ucast VRING_DESC_F_NEXT = 1"

fun chain_heads :: "bool \<Rightarrow> nat \<Rightarrow> raw_descriptor list \<Rightarrow> nat list" where
  "chain_heads linked idx [] = []"
| "chain_heads linked idx (d # ds) = (if linked then [] else [idx]) @ chain_heads (linked_on d) (Suc idx) ds"

lemma chain_heads_length: "length (chain_heads linked idx ds) \<le> length ds"
  by (induction linked idx ds rule: chain_heads.induct) auto

text \<open>A table from \<open>start\<close> on that holds descriptors, and the ring after it with the heads written so far; the
  rest of the table is as in the view \<open>f0\<close>.\<close>

definition descs_placed ::
    "(u64 \<Rightarrow> byte) \<Rightarrow> (u64 \<Rightarrow> byte) \<Rightarrow> u64 \<Rightarrow> u16 \<Rightarrow> raw_descriptor list \<Rightarrow> u16 list \<Rightarrow> bool" where
  "descs_placed f0 f start len ds hs \<longleftrightarrow>
     (\<forall>k < length ds. peek_bytes f (start + of_nat (16 * k)) 16 = raw_desc_bytes (ds ! k)) \<and>
     (\<forall>j < length hs. peek_bytes f (start + of_nat (16 * unat len + 4 + 2 * j)) 2 = le_bytes 2 (hs ! j)) \<and>
     (\<forall>i n. 16 * length ds \<le> i \<longrightarrow> i + n \<le> 16 * unat len \<longrightarrow>
        peek_bytes f (start + of_nat i) n = peek_bytes f0 (start + of_nat i) n)"

lemma descs_placed_desc:
  assumes p: "descs_placed f0 f start len ds hs" and nw: "unat start + (19 * unat len + 16) < 2 ^ 64"
    and l: "length ds < unat len" "length hs \<le> unat len"
  shows "descs_placed f0 (poke f (start + of_nat (16 * length ds)) (raw_desc_bytes d)) start len (ds @ [d]) hs"
    (is "descs_placed _ ?f _ _ _ _")
proof -
  have o: "peek_bytes ?f (start + of_nat i) n = peek_bytes f (start + of_nat i) n"
    if "i + n \<le> 16 * length ds \<or> 16 * length ds + 16 \<le> i" "i + n \<le> 19 * unat len + 16" for i n
    using that nw l by (intro peek_field_poke_other) auto
  have "peek_bytes ?f (start + of_nat (16 * k)) 16 = raw_desc_bytes ((ds @ [d]) ! k)" if "k < Suc (length ds)" for k
    using o [of "16 * k" 16] p that l
    by (cases "k = length ds") (simp_all add: descs_placed_def nth_append peek_field_poke_same del: of_nat_mult)
  moreover have "peek_bytes ?f (start + of_nat (16 * unat len + 4 + 2 * j)) 2 = le_bytes 2 (hs ! j)" if "j < length hs" for j
    using o [of "16 * unat len + 4 + 2 * j" 2] p that l by (simp add: descs_placed_def del: of_nat_add of_nat_mult)
  moreover have "peek_bytes ?f (start + of_nat i) n = peek_bytes f0 (start + of_nat i) n"
    if "16 * length (ds @ [d]) \<le> i" "i + n \<le> 16 * unat len" for i n
    using o [of i n] p that by (simp add: descs_placed_def)
  ultimately show ?thesis by (simp add: descs_placed_def del: of_nat_add of_nat_mult)
qed

lemma descs_placed_head:
  assumes p: "descs_placed f0 f start len ds hs" and nw: "unat start + (19 * unat len + 16) < 2 ^ 64"
    and l: "length ds \<le> unat len" "length hs < unat len"
  shows "descs_placed f0 (poke f (start + of_nat (16 * unat len + 4 + 2 * length hs)) (le_bytes 2 h)) start len ds (hs @ [h])"
    (is "descs_placed _ ?f _ _ _ _")
proof -
  have o: "peek_bytes ?f (start + of_nat i) n = peek_bytes f (start + of_nat i) n"
    if "i + n \<le> 16 * unat len + 4 + 2 * length hs" for i n
    using that nw l by (intro peek_field_poke_other) auto
  have "peek_bytes ?f (start + of_nat (16 * k)) 16 = raw_desc_bytes (ds ! k)" if "k < length ds" for k
    using o [of "16 * k" 16] p that l by (simp add: descs_placed_def del: of_nat_mult of_nat_add)
  moreover have "peek_bytes ?f (start + of_nat (16 * unat len + 4 + 2 * j)) 2 = le_bytes 2 ((hs @ [h]) ! j)"
    if "j < Suc (length hs)" for j
    using o [of "16 * unat len + 4 + 2 * j" 2] p that
    by (cases "j = length hs") (simp_all add: descs_placed_def nth_append peek_field_poke_same del: of_nat_add of_nat_mult)
  moreover have "peek_bytes ?f (start + of_nat i) n = peek_bytes f0 (start + of_nat i) n"
    if "16 * length ds \<le> i" "i + n \<le> 16 * unat len" for i n
    using o [of i n] p that by (simp add: descs_placed_def)
  ultimately show ?thesis by (simp add: descs_placed_def del: of_nat_add of_nat_mult)
qed

context guest_mem
begin

lemma add_desc_loop_ok:
  assumes "mock_placed mq start len" and "acc m start (19 * unat len + 16)" and "unat len \<le> 2 ^ 15"
    and "descs_placed f0 (peek m) start len ds hs" and "length hs \<le> length ds" and "length ds + length descs \<le> unat len"
  shows "\<exists>m'. add_desc_loop G m mq 0 0 (of_nat (length hs)) (if ds = [] then None else Some (last ds)) (length ds) descs =
      Some (m', Inr (of_nat (length hs + length (chain_heads (ds \<noteq> [] \<and> linked_on (last ds)) (length ds) descs)))) \<and>
    acc m' = acc m \<and> descs_placed f0 (peek m') start len (ds @ descs)
      (hs @ map of_nat (chain_heads (ds \<noteq> [] \<and> linked_on (last ds)) (length ds) descs))"
  using assms
proof (induction descs arbitrary: m ds hs)
  case (Cons d descs)
  let ?i = "of_nat (length ds) :: u16" and ?n = "of_nat (length hs) :: u16"
  have pl: "mk_desc_table mq = descriptor_table_new start len" "mk_avail_addr mq = start + of_nat (16 * unat len)"
    using Cons.prems(1) by (simp_all add: mock_placed_def)
  have u: "unat ?i = length ds" "unat ?n = length hs" using Cons.prems(3,5,6) by (intro unat_of_nat_less; simp)+
  have ca: "checked_add ?i 0 = Some ?i" "checked_add 0 ?n = Some ?n" "checked_add ?n 1 = Some (of_nat (Suc (length hs)))"
    using u Cons.prems(3,5,6) by (simp_all add: checked_add_def)
  have nw: "unat start + (19 * unat len + 16) < 2 ^ 64" by (rule acc_no_wrap [OF Cons.prems(2)])
  have l: "length ds < unat len" "length hs \<le> unat len" "length hs < unat len" using Cons.prems(5,6) by simp_all
  obtain m1 where m1: "table_store G m (descriptor_table_new start len) ?i d = Some (m1, Inr ())"
      "peek m1 = poke (peek m) (start + of_nat (16 * length ds)) (raw_desc_bytes d)" "acc m1 = acc m"
    using table_store_ok [OF Cons.prems(2), of ?i d] l(1) u(1) by auto
  have p1: "descs_placed f0 (peek m1) start len (ds @ [d]) hs"
    unfolding m1(2) by (rule descs_placed_desc [OF Cons.prems(4) nw l(1,2)])
  have a1: "acc m1 start (19 * unat len + 16)" using Cons.prems(2) m1(3) by simp
  show ?case
  proof (cases "ds \<noteq> [] \<and> linked_on (last ds)")
    case True
    then show ?thesis
      using Cons.IH [OF Cons.prems(1) a1 Cons.prems(3) p1] Cons.prems(5,6) m1(1,3) pl ca
      by (auto simp: linked_on_def)
  next
    case False
    obtain m2 where m2: "gm_write_slice G m1 (start + of_nat (16 * unat len) + (VIRTQ_AVAIL_RING_HEADER_SIZE +
          ucast ?n * VIRTQ_AVAIL_ELEMENT_SIZE)) (native_bytes (gm_endian G) 2 (to_le (gm_endian G) ?i)) = (m2, Inr ())"
        "peek m2 = poke (peek m1) (start + of_nat (16 * unat len + 4 + 2 * length hs)) (le_bytes 2 ?i)" "acc m2 = acc m1"
      using avail_write_ok [OF a1, of ?n ?i] u(2) l(3) by auto
    have p2: "descs_placed f0 (peek m2) start len (ds @ [d]) (hs @ [?i])"
      unfolding m2(2) by (rule descs_placed_head [OF p1 nw]) (use l in simp_all)
    have a2: "acc m2 start (19 * unat len + 16)" using a1 m2(3) by simp
    show ?thesis
      using False Cons.IH [OF Cons.prems(1) a2 Cons.prems(3) p2] Cons.prems(5,6) m1(1,3) m2(1,3) pl ca
      by (auto simp: linked_on_def)
  qed
qed simp

lemma add_desc_chains_ok:
  assumes mq: "mock_placed mq start len" and a: "acc m start (19 * unat len + 16)" and L: "unat len \<le> 2 ^ 15"
    and z: "peek_bytes (peek m) (start + of_nat (16 * unat len) + 2) 2 = [0, 0]"
    and d: "length descs \<le> unat len" and len: "0 < unat len"
  defines "hs \<equiv> chain_heads False 0 descs"
  shows "\<exists>m'. add_desc_chains G m mq descs 0 = Some (m', Inr ()) \<and> acc m' = acc m \<and>
    ring_published (peek m') (start + of_nat (16 * unat len)) (map of_nat hs) \<and>
    (\<forall>k < length descs. peek_bytes (peek m') (start + of_nat (16 * k)) 16 = raw_desc_bytes (descs ! k)) \<and>
    (\<forall>i n. 16 * length descs \<le> i \<longrightarrow> i + n \<le> 16 * unat len \<longrightarrow>
       peek_bytes (peek m') (start + of_nat i) n = peek_bytes (peek m) (start + of_nat i) n)"
proof -
  let ?av = "start + of_nat (16 * unat len)" and ?n = "of_nat (length hs) :: u16"
  obtain bs where bs: "gm_read_slice G m (mk_avail_addr mq + 2) 2 = Inr bs"
      "from_le (gm_endian G) (native_word (gm_endian G) bs) = (0 :: u16)"
    using avail_index_zero [OF mq a len z] by blast
  obtain m1 where m1: "add_desc_loop G m mq 0 0 0 None 0 descs = Some (m1, Inr ?n)" "acc m1 = acc m"
      "descs_placed (peek m) (peek m1) start len descs (map of_nat hs)"
    using add_desc_loop_ok [OF mq a L, of "peek m" "[]" "[]" descs] d by (auto simp: descs_placed_def hs_def)
  have a1: "acc m1 start (19 * unat len + 16)" using a m1(2) by simp
  have nw: "unat start + (19 * unat len + 16) < 2 ^ 64" by (rule acc_no_wrap [OF a])
  have le: "native_bytes (gm_endian G) 2 (to_le (gm_endian G) ?n) = le_bytes 2 ?n" by (rule native_bytes_to_le) simp
  obtain m2 where m2: "gm_write_slice G m1 (mk_avail_addr mq + 2) (le_bytes 2 ?n) = (m2, Inr ())"
      "peek m2 = poke (peek m1) (start + of_nat (16 * unat len + 2)) (le_bytes 2 ?n)" "acc m2 = acc m1"
    using write_at [OF a1, of "16 * unat len + 2" "le_bytes 2 ?n"] mq
    by (auto simp: mock_placed_def add.assoc add.commute [of 2])
  have "add_desc_chains G m mq descs 0 = Some (m2, Inr ())"
    using bs m1(1) m2(1) le by (simp add: add_desc_chains_def checked_add_def)
  moreover have o: "peek_bytes (peek m2) (start + of_nat i) n = peek_bytes (peek m1) (start + of_nat i) n"
    if "i + n \<le> 16 * unat len \<or> 16 * unat len + 4 \<le> i" "i + n \<le> 19 * unat len + 16" for i n
    unfolding m2(2) using that nw by (intro peek_field_poke_other) auto
  have hl: "length hs \<le> length descs" unfolding hs_def by (rule chain_heads_length)
  have "peek_bytes (peek m2) (?av + of_nat (4 + 2 * j)) 2 = le_bytes 2 (of_nat (hs ! j) :: u16)" if "j < length hs" for j
    using o [of "16 * unat len + 4 + 2 * j" 2] m1(3) that hl d by (simp add: descs_placed_def add.assoc)
  moreover have "peek_bytes (peek m2) (?av + of_nat 2) 2 = le_bytes 2 ?n"
    unfolding m2(2) using peek_field_poke_same [of "le_bytes 2 ?n" 2 "peek m1" "start + of_nat (16 * unat len + 2)"]
    by (simp add: ac_simps)
  moreover have "peek_bytes (peek m2) (start + of_nat (16 * k)) 16 = raw_desc_bytes (descs ! k)" if "k < length descs" for k
    using o [of "16 * k" 16] m1(3) that d by (simp add: descs_placed_def del: of_nat_mult)
  moreover have "peek_bytes (peek m2) (start + of_nat i) n = peek_bytes (peek m) (start + of_nat i) n"
    if "16 * length descs \<le> i" "i + n \<le> 16 * unat len" for i n
    using o [of i n] m1(3) that by (simp add: descs_placed_def)
  ultimately show ?thesis using m1(2) m2(3) by (simp add: ring_published_def del: of_nat_add of_nat_mult)
qed

end

section \<open>The chains of the device\<close>

text \<open>Consecutive linked entries are a chain.\<close>

definition linked_from :: "nat \<Rightarrow> split_desc list \<Rightarrow> bool" where
  "linked_from idx ds \<longleftrightarrow>
     (\<forall>k < length ds. \<not> refers_to_indirect_table (ds ! k) \<and> has_next (ds ! k) = (k \<noteq> length ds - 1) \<and>
        (k \<noteq> length ds - 1 \<longrightarrow> sd_next (ds ! k) = of_nat (idx + k + 1)))"

lemma linked_from_simps:
  "linked_from idx []"
  "linked_from idx [d] \<longleftrightarrow> \<not> refers_to_indirect_table d \<and> \<not> has_next d"
  "linked_from idx (d # d' # ds) \<longleftrightarrow> \<not> refers_to_indirect_table d \<and> has_next d \<and> sd_next d = of_nat (Suc idx) \<and>
     linked_from (Suc idx) (d' # ds)"
  by (auto simp: linked_from_def All_less_Suc2)

lemma linked_from_Cons:
  assumes "linked_from idx (d # d' # ds)"
  shows "\<not> refers_to_indirect_table d" and "has_next d" and "sd_next d = of_nat (Suc idx)"
    and "linked_from (Suc idx) (d' # ds)"
  using assms by (simp_all add: linked_from_simps)

context guest_mem
begin

lemma table_entry_peek:
  assumes a: "acc m tbl (16 * unat qs)" and i: "idx < unat qs"
    and d: "peek_bytes (peek m) (tbl + of_nat (16 * idx)) 16 = split_desc_bytes d"
  shows "table_entry G m tbl qs (of_nat idx) d"
proof -
  have u: "unat (of_nat idx :: u16) = idx" using less_trans [OF i unat_u16_bound] by (intro unat_of_nat_less) simp
  have "(ucast (of_nat idx :: u16) :: u64) = of_nat idx"
    using u less_trans [OF i unat_u16_bound] by (simp add: word_unat_eq_iff unat_of_nat_less)
  then have o: "tbl + ucast (of_nat idx :: u16) * 16 = tbl + of_nat (16 * idx)" by simp
  have "acc m (tbl + of_nat (16 * idx)) 16" using a by (rule acc_sub) (use i in simp)
  from read_law [OF this] show ?thesis
    using d o u i acc_no_wrap [OF a]
    by (simp add: table_entry_def read_split_desc_def word_less_nat_alt del: of_nat_mult)
qed

lemma laid_out_linked:
  assumes "acc m tbl (16 * unat qs)" and "idx + length ds \<le> unat qs" and "ds \<noteq> []" and "linked_from idx ds"
    and "\<forall>k < length ds. peek_bytes (peek m) (tbl + of_nat (16 * (idx + k))) 16 = split_desc_bytes (ds ! k)"
  shows "laid_out G m tbl qs (of_nat idx) ds"
  using assms
proof (induction ds arbitrary: idx)
  case (Cons d ds)
  have e: "table_entry G m tbl qs (of_nat idx) d"
    using Cons.prems(2,5) by (intro table_entry_peek [OF Cons.prems(1)]) auto
  show ?case
  proof (cases ds)
    case Nil
    with e Cons.prems(4) show ?thesis by (simp add: linked_from_def)
  next
    case more: (Cons d' ds')
    note l = linked_from_Cons [OF Cons.prems(4) [unfolded more]]
    have "peek_bytes (peek m) (tbl + of_nat (16 * (Suc idx + k))) 16 = split_desc_bytes (ds ! k)" if "k < length ds" for k
      using Cons.prems(5) [rule_format, of "Suc k"] that by simp
    then have "laid_out G m tbl qs (of_nat (Suc idx)) ds"
      using Cons.prems(1,2) l(4) more by (intro Cons.IH) simp_all
    with e l more show ?thesis by simp
  qed
qed simp

end

lemma those_map_Some: "those (map Some xs) = Some xs"
  by (induction xs) simp_all

text \<open>What \<open>build_desc_chain\<close> makes of its descriptors: the same buffers, linked one after the other.\<close>

lemma link_all:
  assumes "length descs \<le> 2 ^ 16" and "\<forall>d\<in>set descs. \<not> refers_to_indirect_table (split_of_raw d)"
  shows "\<exists>ds. those (map (\<lambda>(idx, d). link_desc (length descs) idx d) (enumerate 0 descs)) = Some (map raw_of_split ds) \<and>
    linked_from 0 ds \<and> length ds = length descs \<and>
    map (\<lambda>d. (sd_addr d, sd_len d, is_write_only d)) ds =
      map (\<lambda>d. (sd_addr d, sd_len d, is_write_only d)) (map split_of_raw descs)"
proof -
  let ?n = "length descs"
  have "\<forall>k. \<exists>d. k < ?n \<longrightarrow> link_desc ?n k (descs ! k) = Some (raw_of_split d) \<and> has_next d = (k \<noteq> ?n - 1) \<and>
      (k \<noteq> ?n - 1 \<longrightarrow> sd_next d = of_nat (k + 1)) \<and> sd_addr d = sd_addr (split_of_raw (descs ! k)) \<and>
      sd_len d = sd_len (split_of_raw (descs ! k)) \<and> is_write_only d = is_write_only (split_of_raw (descs ! k)) \<and>
      refers_to_indirect_table d = refers_to_indirect_table (split_of_raw (descs ! k))"
    using link_desc_Some [OF assms(1)] by blast
  then obtain D where D: "\<And>k. k < ?n \<Longrightarrow> link_desc ?n k (descs ! k) = Some (raw_of_split (D k)) \<and>
      has_next (D k) = (k \<noteq> ?n - 1) \<and> (k \<noteq> ?n - 1 \<longrightarrow> sd_next (D k) = of_nat (k + 1)) \<and>
      sd_addr (D k) = sd_addr (split_of_raw (descs ! k)) \<and> sd_len (D k) = sd_len (split_of_raw (descs ! k)) \<and>
      is_write_only (D k) = is_write_only (split_of_raw (descs ! k)) \<and>
      refers_to_indirect_table (D k) = refers_to_indirect_table (split_of_raw (descs ! k))"
    by metis
  let ?ds = "map D [0..<?n]"
  have "map (\<lambda>(idx, d). link_desc ?n idx d) (enumerate 0 descs) = map Some (map raw_of_split ?ds)"
    using D by (intro nth_equalityI) (simp_all add: nth_enumerate_eq)
  then have "those (map (\<lambda>(idx, d). link_desc ?n idx d) (enumerate 0 descs)) = Some (map raw_of_split ?ds)"
    by (simp only: those_map_Some)
  moreover have "linked_from 0 ?ds" using D assms(2) by (simp add: linked_from_def)
  moreover have "map (\<lambda>d. (sd_addr d, sd_len d, is_write_only d)) ?ds =
      map (\<lambda>d. (sd_addr d, sd_len d, is_write_only d)) (map split_of_raw descs)"
    using D by (intro nth_equalityI) simp_all
  ultimately show ?thesis by (intro exI [of _ ?ds]) simp
qed

text \<open>Chains stored one after the other from entry \<open>idx\<close> on, each linked in itself.\<close>

fun linked_chains :: "nat \<Rightarrow> split_desc list list \<Rightarrow> bool" where
  "linked_chains idx [] = True"
| "linked_chains idx (cs # css) \<longleftrightarrow> cs \<noteq> [] \<and> linked_from idx cs \<and> linked_chains (idx + length cs) css"

fun chain_starts :: "nat \<Rightarrow> split_desc list list \<Rightarrow> nat list" where
  "chain_starts idx [] = []"
| "chain_starts idx (cs # css) = idx # chain_starts (idx + length cs) css"

lemma length_chain_starts: "length (chain_starts idx css) = length css"
  by (induction idx css rule: chain_starts.induct) simp_all

lemma linked_on_next: "linked_on (raw_of_split d) \<longleftrightarrow> has_next d"
  by (simp add: linked_on_def desc_flags_bit vring_flag_defs and_one_eq odd_iff_mod_2_eq_one bit_0)

lemma chain_heads_linked:
  assumes "linked_from idx cs" and "cs \<noteq> []"
  shows "chain_heads linked idx (map raw_of_split cs @ ds) =
    (if linked then [] else [idx]) @ chain_heads False (idx + length cs) ds"
  using assms
proof (induction cs arbitrary: idx linked)
  case (Cons d cs)
  show ?case
  proof (cases cs)
    case Nil
    with Cons.prems(1) show ?thesis by (simp add: linked_from_def linked_on_next)
  next
    case more: (Cons d' cs')
    note l = linked_from_Cons [OF Cons.prems(1) [unfolded more]]
    have "chain_heads True (Suc idx) (map raw_of_split cs @ ds) = chain_heads False (Suc idx + length cs) ds"
      using Cons.IH [of "Suc idx" True] l(4) more by simp
    with l(2) show ?thesis by (simp add: linked_on_next)
  qed
qed simp

lemma chain_heads_chains:
  "linked_chains idx css \<Longrightarrow> chain_heads False idx (map raw_of_split (concat css)) = chain_starts idx css"
  by (induction idx css rule: chain_starts.induct) (simp_all add: chain_heads_linked)

context guest_mem
begin

lemma chains_laid_out:
  assumes "acc m tbl (16 * unat qs)" and "linked_chains idx css" and "idx + length (concat css) \<le> unat qs"
    and "\<forall>k < length (concat css). peek_bytes (peek m) (tbl + of_nat (16 * (idx + k))) 16 = split_desc_bytes (concat css ! k)"
    and "\<forall>cs\<in>set css. sum_list (map (\<lambda>d. unat (sd_len d)) cs) < 2 ^ 32"
  shows "map (\<lambda>i. chain_collect G m (chain_new tbl qs (of_nat i))) (chain_starts idx css) = css"
  using assms
proof (induction idx css rule: chain_starts.induct)
  case (2 idx cs css)
  have "peek_bytes (peek m) (tbl + of_nat (16 * (idx + k))) 16 = split_desc_bytes (cs ! k)" if "k < length cs" for k
    using "2.prems"(4) [rule_format, of k] that by (simp add: nth_append)
  then have "laid_out G m tbl qs (of_nat idx) cs"
    using "2.prems"(1,2,3) by (intro laid_out_linked) simp_all
  then have "chain_collect G m (chain_new tbl qs (of_nat idx)) = cs"
    using "2.prems"(3,5) by (intro chain_collect_laid_out) (simp_all add: chain_new_def chain_with_ttl_def)
  moreover have "peek_bytes (peek m) (tbl + of_nat (16 * (idx + length cs + k))) 16 = split_desc_bytes (concat css ! k)"
    if "k < length (concat css)" for k
    using "2.prems"(4) [rule_format, of "length cs + k"] that by (simp add: nth_append add.assoc)
  then have "map (\<lambda>i. chain_collect G m (chain_new tbl qs (of_nat i))) (chain_starts (idx + length cs) css) = css"
    using "2.prems" by (intro "2.IH") (simp_all add: add.assoc)
  ultimately show ?case by simp
qed simp

text \<open>Whatever chains a driver puts into a fresh queue with one call, the device finds these chains.\<close>

lemma add_chains_found:
  assumes mq: "mock_placed mq start len" and a: "acc m start (19 * unat len + 16)" and al: "start AND 15 = 0"
    and q: "queue_new len = Inr q0" and z: "peek_bytes (peek m) (start + of_nat (16 * unat len) + 2) 2 = [0, 0]"
    and c: "linked_chains 0 css" "length (concat css) \<le> unat len"
      "\<forall>cs\<in>set css. sum_list (map (\<lambda>d. unat (sd_len d)) cs) < 2 ^ 32"
  shows "\<exists>m' q it. add_desc_chains G m mq (map raw_of_split (concat css)) 0 = Some (m', Inr ()) \<and> acc m' = acc m \<and>
    ring_published (peek m') (start + of_nat (16 * unat len)) (map of_nat (chain_starts 0 css)) \<and>
    create_queue mq = Inr q \<and> queue_iter G q m' = Inr it \<and> map (chain_collect G m') (avail_iter_collect G m' it) = css \<and>
    (css \<noteq> [] \<longrightarrow> snd (avail_iter_next G m' it) = Some (chain_new start len 0) \<and>
       chain_collect G m' (chain_new start len 0) = hd css) \<and>
    (\<forall>i n. 16 * length (concat css) \<le> i \<longrightarrow> i + n \<le> 16 * unat len \<longrightarrow>
       peek_bytes (peek m') (start + of_nat i) n = peek_bytes (peek m) (start + of_nat i) n)"
proof -
  have L: "unat len \<le> 2 ^ 15" "0 < unat len"
    using q by (auto simp: queue_new_Inr MAX_QUEUE_SIZE_def word_le_nat_alt unat_gt_0)
  obtain m' where m': "add_desc_chains G m mq (map raw_of_split (concat css)) 0 = Some (m', Inr ())" "acc m' = acc m"
      "ring_published (peek m') (start + of_nat (16 * unat len)) (map of_nat (chain_starts 0 css))"
      "\<forall>k < length (concat css). peek_bytes (peek m') (start + of_nat (16 * k)) 16 = split_desc_bytes (concat css ! k)"
      "\<forall>i n. 16 * length (concat css) \<le> i \<longrightarrow> i + n \<le> 16 * unat len \<longrightarrow>
         peek_bytes (peek m') (start + of_nat i) n = peek_bytes (peek m) (start + of_nat i) n"
    using add_desc_chains_ok [OF mq a L(1) z _ L(2), of "map raw_of_split (concat css)"] c(1,2)
    by (auto simp: chain_heads_chains)
  have a': "acc m' start (19 * unat len + 16)" using a m'(2) by simp
  obtain cq where cq: "create_queue mq = Inr cq" "wf_queue cq" "avail_ring_acc acc cq m'" "q_ready cq" "q_avail_ring cq \<noteq> 0"
      "q_avail_ring cq = start + of_nat (16 * unat len)" "q_desc_table cq = start" "q_size cq = len" "q_next_avail cq = 0"
    using created_queue [OF mq a' al q] by blast
  have "length (chain_starts 0 css) \<le> unat len"
    using chain_heads_length [of False 0 "map raw_of_split (concat css)"] c(2) by (simp add: chain_heads_chains [OF c(1)])
  with m'(3) cq(6,8) obtain it where it: "queue_iter G cq m' = Inr it"
      "avail_iter_collect G m' it = map (chain_new start len) (map of_nat (chain_starts 0 css))"
      "css \<noteq> [] \<longrightarrow> snd (avail_iter_next G m' it) = Some (chain_new start len (hd (map of_nat (chain_starts 0 css))))"
    using published_iter [OF cq(2-5,9), of "map of_nat (chain_starts 0 css)"] cq(7) by (cases css) auto
  have f: "map (\<lambda>i. chain_collect G m' (chain_new start len (of_nat i))) (chain_starts 0 css) = css"
    using chains_laid_out [OF table_acc [OF a'], of 0 css] c m'(4) by simp
  then have "map (chain_collect G m') (avail_iter_collect G m' it) = css" unfolding it(2) by (simp add: comp_def)
  with f m' cq(1) it(1,3) show ?thesis by (cases css) auto
qed

lemma build_desc_chain_ok:
  assumes mq: "mock_placed mq start len" and a: "acc m start (19 * unat len + 16)" and al: "start AND 15 = 0"
    and q: "queue_new len = Inr q0" and z: "peek_bytes (peek m) (start + of_nat (16 * unat len) + 2) 2 = [0, 0]"
    and d: "descs \<noteq> []" "length descs \<le> unat len" "\<forall>d\<in>set descs. \<not> refers_to_indirect_table (split_of_raw d)"
    and b: "sum_list (map (\<lambda>d. unat (sd_len (split_of_raw d))) descs) < 2 ^ 32"
  shows "\<exists>m' c. build_desc_chain G m mq descs = Some (m', Inr c) \<and> acc m' = acc m \<and>
    map (\<lambda>d. (sd_addr d, sd_len d, is_write_only d)) (chain_collect G m' c) =
      map (\<lambda>d. (sd_addr d, sd_len d, is_write_only d)) (map split_of_raw descs)"
proof -
  have L: "unat len \<le> 2 ^ 15" using q by (auto simp: queue_new_Inr MAX_QUEUE_SIZE_def word_le_nat_alt)
  then have "length descs \<le> 2 ^ 16" using d(2) by simp
  from link_all [OF this d(3)] obtain ds where
      th: "those (map (\<lambda>(idx, d). link_desc (length descs) idx d) (enumerate 0 descs)) = Some (map raw_of_split ds)"
      and ds: "linked_from 0 ds" "length ds = length descs"
        "map (\<lambda>d. (sd_addr d, sd_len d, is_write_only d)) ds =
          map (\<lambda>d. (sd_addr d, sd_len d, is_write_only d)) (map split_of_raw descs)"
    by blast
  have "map (\<lambda>d. unat (sd_len d)) ds = map (\<lambda>d. unat (sd_len (split_of_raw d))) descs"
    using arg_cong [OF ds(3), of "map (\<lambda>(_, l, _). unat l)"] by (simp add: comp_def)
  moreover have "ds \<noteq> []" using d(1) ds(2) by auto
  ultimately obtain m' q' it where m': "add_desc_chains G m mq (map raw_of_split ds) 0 = Some (m', Inr ())" "acc m' = acc m"
      "create_queue mq = Inr q'" "queue_iter G q' m' = Inr it" "snd (avail_iter_next G m' it) = Some (chain_new start len 0)"
      "chain_collect G m' (chain_new start len 0) = ds"
    using add_chains_found [OF mq a al q z, of "[ds]"] d(2) ds(1,2) b by auto
  have "build_desc_chain G m mq descs = Some (m', Inr (chain_new start len 0))"
    using m'(1,3,4,5) th by (cases "avail_iter_next G m' it") (simp add: build_desc_chain_def build_multiple_desc_chains_def)
  with m'(2,6) ds(3) show ?thesis by auto
qed

end

end
