(* ===== verification/Fuzz_Targets.thy ===== *)
theory Fuzz_Targets
  imports Mock_Chains Queue_State Blk_Executor Vsock_Packet
begin

text \<open>
  The fuzz targets (\<open>fuzz/common/src\<close> and \<open>fuzz/fuzz_targets\<close>) from the decoded input on: every target
  places random descriptors in guest memory through the mock driver and calls operations of the queue,
  of a vsock packet or of a block backend on them. A target's value is \<open>None\<close> if it panics, which is
  what the fuzzer looks for. Guest memory and the memory file are the parameters of the operations; the
  input decoder (\<open>bincode\<close>) is not modelled, a target takes the decoded input.
\<close>

section \<open>Inputs\<close>

record fuzzing_descriptor =
  fd_addr :: u64
  fd_len :: u32
  fd_flags :: u16
  fd_next :: u16

definition raw_of_fuzzing :: "fuzzing_descriptor \<Rightarrow> raw_descriptor" where
  "raw_of_fuzzing d = raw_of_split (split_desc_new (fd_addr d) (fd_len d) (fd_flags d) (fd_next d))"

datatype load_ordering = LoRelaxed | LoAcquire | LoSeqCst

fun ordering_of_load :: "load_ordering \<Rightarrow> ordering" where
  "ordering_of_load LoRelaxed = Relaxed"
| "ordering_of_load LoAcquire = Acquire"
| "ordering_of_load LoSeqCst = SeqCst"

datatype virtio_queue_function =
    VqIsValid
  | VqReset
  | VqMaxSize
  | VqSize
  | VqSetSize u16
  | VqReady
  | VqSetReady bool
  | VqSetDescTableAddress "u32 option" "u32 option"
  | VqSetAvailRingAddress "u32 option" "u32 option"
  | VqSetUsedRingAddress "u32 option" "u32 option"
  | VqSetEventIdx bool
  | VqAvailIdx load_ordering
  | VqUsedIdx load_ordering
  | VqAddUsed u16 u32
  | VqEnableNotification
  | VqDisableNotification
  | VqNeedsNotification
  | VqNextAvail
  | VqSetNextAvail u16
  | VqDescTable
  | VqNextUsed
  | VqSetNextUsed u16
  | VqAvailRing
  | VqUsedRing
  | VqEventIdxEnabled
  | VqPopDescriptorChain
  | VqPopDescriptorChainLoop
  | VqIter

section \<open>Calls on a queue\<close>

text \<open>A pop that yields a chain brings \<open>next_avail\<close> one step closer to the driver's index, which the loop
  does not change.\<close>

definition avail_distance :: "'m guest_memory \<Rightarrow> queue \<Rightarrow> 'm \<Rightarrow> nat" where
  "avail_distance G q m =
     (case avail_idx G q m Acquire of Inl _ \<Rightarrow> 0 | Inr idx \<Rightarrow> unat (idx - q_next_avail q))"

lemma pop_distance:
  assumes "pop_descriptor_chain G q m = (q', Some c)"
  shows "avail_distance G q m = Suc (avail_distance G q' m)"
proof -
  obtain it it' where it: "queue_iter G q m = Inr it" "avail_iter_next G m it = (it', Some c)"
      and q': "q' = q\<lparr>q_next_avail := ai_next_avail it'\<rparr>"
    using assms by (auto simp: pop_descriptor_chain_def split: sum.splits prod.splits)
  obtain idx where idx: "avail_idx G q m Acquire = Inr idx" "avail_iter_new idx q = Inr it"
    using it(1) by (auto simp: queue_iter_def split: sum.splits if_splits)
  have "ai_last_index it = idx" "ai_next_avail it = q_next_avail q"
    using idx(2) by (auto simp: avail_iter_new_def split: if_splits)
  with avail_iter_next_Some [OF it(2)] have "q' = q\<lparr>q_next_avail := q_next_avail q + 1\<rparr>" "q_next_avail q \<noteq> idx"
    using q' by auto
  moreover from this idx(1) have "avail_idx G q' m Acquire = Inr idx" by (simp add: avail_idx_def)
  ultimately show ?thesis
    using idx(1) distance_step [of "q_next_avail q" idx] by (simp add: avail_distance_def)
qed

text \<open>\<open>while let Some(_) = q.pop_descriptor_chain(m)\<close>.\<close>

function pop_loop :: "'m guest_memory \<Rightarrow> queue \<Rightarrow> 'm \<Rightarrow> queue" where
  "pop_loop G q m =
     (case pop_descriptor_chain G q m of
        (q', None) \<Rightarrow> q'
      | (q', Some _) \<Rightarrow> pop_loop G q' m)"
  by pat_completeness auto
termination
  by (relation "measure (\<lambda>(G, q, m). avail_distance G q m)") (auto dest!: sym [of "(_, _)"] pop_distance)

declare pop_loop.simps [simp del]

text \<open>The results of the calls are dropped. \<open>Iter\<close> maps over the result of \<open>iter\<close>, not over the iterator:
  nothing is taken from it.\<close>

fun vq_call :: "'m guest_memory \<Rightarrow> virtio_queue_function \<Rightarrow> queue \<times> 'm \<Rightarrow> queue \<times> 'm" where
  "vq_call G VqIsValid (q, m) = (let _ = is_valid G q m in (q, m))"
| "vq_call G VqReset (q, m) = (queue_reset q, m)"
| "vq_call G VqMaxSize (q, m) = (q, m)"
| "vq_call G VqSize (q, m) = (q, m)"
| "vq_call G (VqSetSize n) (q, m) = (set_size q n, m)"
| "vq_call G VqReady (q, m) = (q, m)"
| "vq_call G (VqSetReady b) (q, m) = (set_ready q b, m)"
| "vq_call G (VqSetDescTableAddress low high) (q, m) = (set_desc_table_address q low high, m)"
| "vq_call G (VqSetAvailRingAddress low high) (q, m) = (set_avail_ring_address q low high, m)"
| "vq_call G (VqSetUsedRingAddress low high) (q, m) = (set_used_ring_address q low high, m)"
| "vq_call G (VqSetEventIdx b) (q, m) = (set_event_idx q b, m)"
| "vq_call G (VqAvailIdx ord) (q, m) = (let _ = avail_idx G q m (ordering_of_load ord) in (q, m))"
| "vq_call G (VqUsedIdx ord) (q, m) = (let _ = used_idx G q m (ordering_of_load ord) in (q, m))"
| "vq_call G (VqAddUsed head_index len) (q, m) = (case add_used G q m head_index len of (q', m', _) \<Rightarrow> (q', m'))"
| "vq_call G VqEnableNotification (q, m) = (q, fst (enable_notification G q m))"
| "vq_call G VqDisableNotification (q, m) = (q, fst (disable_notification G q m))"
| "vq_call G VqNeedsNotification (q, m) = (fst (needs_notification G q m), m)"
| "vq_call G VqNextAvail (q, m) = (q, m)"
| "vq_call G (VqSetNextAvail v) (q, m) = (set_next_avail q v, m)"
| "vq_call G VqDescTable (q, m) = (q, m)"
| "vq_call G VqNextUsed (q, m) = (q, m)"
| "vq_call G (VqSetNextUsed v) (q, m) = (set_next_used q v, m)"
| "vq_call G VqAvailRing (q, m) = (q, m)"
| "vq_call G VqUsedRing (q, m) = (q, m)"
| "vq_call G VqEventIdxEnabled (q, m) = (q, m)"
| "vq_call G VqPopDescriptorChain (q, m) = (fst (pop_descriptor_chain G q m), m)"
| "vq_call G VqPopDescriptorChainLoop (q, m) = (pop_loop G q m, m)"
| "vq_call G VqIter (q, m) = (let _ = queue_iter G q m in (q, m))"

text \<open>The filter closure with its flag \<open>has_desc_iter\<close>.\<close>

fun sanitize_loop :: "bool \<Rightarrow> virtio_queue_function list \<Rightarrow> virtio_queue_function list" where
  "sanitize_loop has_desc_iter [] = []"
| "sanitize_loop has_desc_iter (func # fs) =
     (if func = VqPopDescriptorChainLoop \<or> func = VqIter
      then if \<not> has_desc_iter then func # sanitize_loop True fs else sanitize_loop has_desc_iter fs
      else func # sanitize_loop has_desc_iter fs)"

definition sanitize_virtio_queue_functions :: "virtio_queue_function list \<Rightarrow> virtio_queue_function list" where
  "sanitize_virtio_queue_functions functions = sanitize_loop False functions"

section \<open>The queue targets\<close>

definition DEFAULT_QUEUE_SIZE :: u16 where "DEFAULT_QUEUE_SIZE = 256"

record virtio_queue_input =
  vqi_descriptors :: "fuzzing_descriptor list"
  vqi_functions :: "virtio_queue_function list"

text \<open>The queue and the memory at the end; no queue if the target returned early.\<close>

definition fuzz_virtio_queue ::
    "'m guest_memory \<Rightarrow> 'm \<Rightarrow> virtio_queue_input \<Rightarrow> (queue option \<times> 'm) option" where
  "fuzz_virtio_queue G m fuzz_input =
     (case mock_create G m 0x1000 DEFAULT_QUEUE_SIZE of
        None \<Rightarrow> None
      | Some (vq, m1) \<Rightarrow>
          (case build_multiple_desc_chains G m1 vq (map raw_of_fuzzing (vqi_descriptors fuzz_input)) of
             None \<Rightarrow> None
           | Some (m2, Inl _) \<Rightarrow> Some (None, m2)
           | Some (m2, Inr _) \<Rightarrow>
               (case create_queue vq of
                  Inl _ \<Rightarrow> Some (None, m2)
                | Inr q \<Rightarrow>
                    let fuzz_funcs = sanitize_virtio_queue_functions (vqi_functions fuzz_input);
                        (q', m3) = fold (vq_call G) fuzz_funcs (q, m2) in
                    Some (Some q', m3))))"

record fuzzing_queue_state =
  fqs_max_size :: u16
  fqs_next_avail :: u16
  fqs_next_used :: u16
  fqs_event_idx_enabled :: bool
  fqs_size :: u16
  fqs_ready :: bool
  fqs_desc_table :: u64
  fqs_avail_ring :: u64
  fqs_used_ring :: u64

record queue_state_input =
  qsi_descriptors :: "fuzzing_descriptor list"
  qsi_queue_state :: fuzzing_queue_state
  qsi_functions :: "virtio_queue_function list"

definition state_of_fuzzing :: "fuzzing_queue_state \<Rightarrow> queue_state" where
  "state_of_fuzzing s =
     \<lparr>st_max_size = fqs_max_size s, st_next_avail = fqs_next_avail s, st_next_used = fqs_next_used s,
      st_event_idx_enabled = fqs_event_idx_enabled s, st_size = fqs_size s, st_ready = fqs_ready s,
      st_desc_table = fqs_desc_table s, st_avail_ring = fqs_avail_ring s, st_used_ring = fqs_used_ring s\<rparr>"

definition fuzzing_of_state :: "queue_state \<Rightarrow> fuzzing_queue_state" where
  "fuzzing_of_state s =
     \<lparr>fqs_max_size = st_max_size s, fqs_next_avail = st_next_avail s, fqs_next_used = st_next_used s,
      fqs_event_idx_enabled = st_event_idx_enabled s, fqs_size = st_size s, fqs_ready = st_ready s,
      fqs_desc_table = st_desc_table s, fqs_avail_ring = st_avail_ring s, fqs_used_ring = st_used_ring s\<rparr>"

definition fuzz_virtio_queue_ser ::
    "'m guest_memory \<Rightarrow> 'm \<Rightarrow> queue_state_input \<Rightarrow> (queue option \<times> 'm) option" where
  "fuzz_virtio_queue_ser G m fuzz_input =
     (case mock_create G m 0x1000 DEFAULT_QUEUE_SIZE of
        None \<Rightarrow> None
      | Some (vq, m1) \<Rightarrow>
          (case build_multiple_desc_chains G m1 vq (map raw_of_fuzzing (qsi_descriptors fuzz_input)) of
             None \<Rightarrow> None
           | Some (m2, Inl _) \<Rightarrow> Some (None, m2)
           | Some (m2, Inr _) \<Rightarrow>
               let q_state = state_of_fuzzing (qsi_queue_state fuzz_input) in
               (case queue_try_from q_state of
                  Inl _ \<Rightarrow> Some (None, m2)
                | Inr q \<Rightarrow>
                    let fuzz_funcs = sanitize_virtio_queue_functions (qsi_functions fuzz_input);
                        (q', m3) = fold (vq_call G) fuzz_funcs (q, m2) in
                    Some (Some q', m3))))"

section \<open>The vsock target\<close>

datatype vsock_function =
    VfHeaderSlice
  | VfLen
  | VfDataSlice
  | VfSrcCid
  | VfSetSrcCid u64
  | VfDstCid
  | VfSetDstCid u64
  | VfSrcPort
  | VfSetSrcPort u32
  | VfDstPort
  | VfSetDstPort u32
  | VfIsEmpty
  | VfSetLen u32
  | VfType
  | VfSetType u16
  | VfOp
  | VfSetOp u16
  | VfFlags
  | VfSetFlags u32
  | VfSetFlag u32
  | VfBufAlloc
  | VfSetBufAlloc u32
  | VfFwdCnt
  | VfSetFwdCnt u32
  | VfSetHeaderFromRaw "byte list"
  | VfWriteToMem u64 "byte list"

fun vsock_call :: "'m guest_memory \<Rightarrow> vsock_function \<Rightarrow> vsock_packet \<times> 'm \<Rightarrow> (vsock_packet \<times> 'm) option" where
  "vsock_call G VfHeaderSlice (p, m) = Some (p, m)"
| "vsock_call G VfLen (p, m) = Some (p, m)"
| "vsock_call G VfDataSlice (p, m) = Some (p, m)"
| "vsock_call G VfSrcCid (p, m) = Some (p, m)"
| "vsock_call G (VfSetSrcCid cid) (p, m) = set_src_cid G m p cid"
| "vsock_call G VfDstCid (p, m) = Some (p, m)"
| "vsock_call G (VfSetDstCid cid) (p, m) = set_dst_cid G m p cid"
| "vsock_call G VfSrcPort (p, m) = Some (p, m)"
| "vsock_call G (VfSetSrcPort port) (p, m) = set_src_port G m p port"
| "vsock_call G VfDstPort (p, m) = Some (p, m)"
| "vsock_call G (VfSetDstPort port) (p, m) = set_dst_port G m p port"
| "vsock_call G VfIsEmpty (p, m) = Some (p, m)"
| "vsock_call G (VfSetLen len) (p, m) = set_len G m p len"
| "vsock_call G VfType (p, m) = Some (p, m)"
| "vsock_call G (VfSetType t) (p, m) = set_type G m p t"
| "vsock_call G VfOp (p, m) = Some (p, m)"
| "vsock_call G (VfSetOp op) (p, m) = set_op G m p op"
| "vsock_call G VfFlags (p, m) = Some (p, m)"
| "vsock_call G (VfSetFlags flags) (p, m) = set_flags G m p flags"
| "vsock_call G (VfSetFlag flag) (p, m) = set_flag G m p flag"
| "vsock_call G VfBufAlloc (p, m) = Some (p, m)"
| "vsock_call G (VfSetBufAlloc n) (p, m) = set_buf_alloc G m p n"
| "vsock_call G VfFwdCnt (p, m) = Some (p, m)"
| "vsock_call G (VfSetFwdCnt n) (p, m) = set_fwd_cnt G m p n"
| "vsock_call G (VfSetHeaderFromRaw bs) (p, m) = (case set_header_from_raw G m p bs of (p', m', _) \<Rightarrow> Some (p', m'))"
| "vsock_call G (VfWriteToMem addr bs) (p, m) = Some (p, fst (gm_write_slice G m addr bs))"

fun vsock_calls :: "'m guest_memory \<Rightarrow> vsock_function list \<Rightarrow> vsock_packet \<times> 'm \<Rightarrow> (vsock_packet \<times> 'm) option" where
  "vsock_calls G [] s = Some s"
| "vsock_calls G (f # fs) s = Option.bind (vsock_call G f s) (vsock_calls G fs)"

datatype init_function = FromRX | FromTX

record vsock_input =
  vsi_pkt_max_data :: u32
  vsi_init_function :: init_function
  vsi_descriptors :: "fuzzing_descriptor list"
  vsi_functions :: "vsock_function list"

definition fuzz_vsock ::
    "'m guest_memory \<Rightarrow> 'm \<Rightarrow> vsock_input \<Rightarrow> (vsock_packet option \<times> 'm) option" where
  "fuzz_vsock G m fuzz_input =
     (case mock_create G m 0x1000 DEFAULT_QUEUE_SIZE of
        None \<Rightarrow> None
      | Some (vq, m1) \<Rightarrow>
          (case build_desc_chain G m1 vq (map raw_of_fuzzing (vsi_descriptors fuzz_input)) of
             None \<Rightarrow> None
           | Some (m2, Inl _) \<Rightarrow> Some (None, m2)
           | Some (m2, Inr chain) \<Rightarrow>
               (case snd (case vsi_init_function fuzz_input of
                            FromRX \<Rightarrow> from_rx_virtq_chain G m2 chain (vsi_pkt_max_data fuzz_input)
                          | FromTX \<Rightarrow> from_tx_virtq_chain G m2 chain (vsi_pkt_max_data fuzz_input)) of
                  Inl _ \<Rightarrow> Some (None, m2)
                | Inr p \<Rightarrow>
                    map_option (\<lambda>(p', m3). (Some p', m3)) (vsock_calls G (vsi_functions fuzz_input) (p, m2)))))"

section \<open>The block target\<close>

record blk_input =
  bi_descriptors :: "fuzzing_descriptor list"
  bi_guestmem :: "(u64 \<times> byte list) list"
  bi_features :: u64
  bi_device_id :: "byte list option"

definition fuzz_blk ::
    "'m guest_memory \<Rightarrow> ('m, 'b) blk_io \<Rightarrow> 'b \<Rightarrow> 'm \<Rightarrow> blk_input \<Rightarrow> ('b stdio_backend \<times> 'm) option" where
  "fuzz_blk G V memfile m fuzz_input =
     (let m0 = fold (\<lambda>(addr, mem) m. fst (gm_write_slice G m addr mem)) (bi_guestmem fuzz_input) m in
      case mock_create G m0 0x1000 DEFAULT_QUEUE_SIZE of
        None \<Rightarrow> None
      | Some (vq, m1) \<Rightarrow>
          (case stdio_backend_new V memfile (bi_features fuzz_input) of
             Inl _ \<Rightarrow> None
           | Inr backend0 \<Rightarrow>
               let backend = (case bi_device_id fuzz_input of
                                None \<Rightarrow> backend0 | Some i \<Rightarrow> with_device_id backend0 i) in
               (case build_desc_chain G m1 vq (map raw_of_fuzzing (bi_descriptors fuzz_input)) of
                  None \<Rightarrow> None
                | Some (m2, Inl _) \<Rightarrow> Some (backend, m2)
                | Some (m2, Inr chain) \<Rightarrow>
                    (case snd (blk_parse G m2 chain) of
                       Inl _ \<Rightarrow> Some (backend, m2)
                     | Inr req \<Rightarrow>
                         map_option (\<lambda>(b, m3, _). (b, m3)) (process_request G V backend m2 req)))))"

section \<open>What the targets rely on\<close>

text \<open>The contract of \<open>GuestMemoryMmap\<close> beyond \<open>guest_mem\<close>: a slice has the length asked for, a write within a
  slice succeeds, and no write, successful or not, changes what is accessible.\<close>

locale guest_mmap = guest_mem G peek acc
  for G :: "'m guest_memory" and peek :: "'m \<Rightarrow> u64 \<Rightarrow> byte" and acc :: "'m \<Rightarrow> u64 \<Rightarrow> nat \<Rightarrow> bool" +
  assumes get_slice_len: "gm_get_slice G m a n = Inr vs \<Longrightarrow> vs_len vs = n"
    and slice_write_total: "off + length bs \<le> vs_len vs \<Longrightarrow>
        \<exists>m'. gm_slice_write_at G m vs bs off = (m', Inr (length bs))"
    and write_keeps_acc: "acc (fst (gm_write_slice G m a bs)) = acc m"
begin

lemma set_header_field_total:
  assumes "vs_len (vp_header_slice p) = PKT_HEADER_SIZE" and "off + length bs \<le> PKT_HEADER_SIZE"
  shows "set_header_field G m p upd off bs =
    Some (p\<lparr>vp_header := upd (vp_header p)\<rparr>, fst (gm_slice_write_at G m (vp_header_slice p) bs off))"
  using slice_write_total [of off bs "vp_header_slice p" m] assms by (auto simp: set_header_field_def)

lemmas header_setters = set_src_cid_def set_dst_cid_def set_src_port_def set_dst_port_def set_len_def set_type_def
  set_op_def set_flags_def set_flag_def set_buf_alloc_def set_fwd_cnt_def

lemma vsock_call_total:
  assumes "vs_len (vp_header_slice p) = PKT_HEADER_SIZE"
  shows "\<exists>p' m'. vsock_call G f (p, m) = Some (p', m') \<and> vp_header_slice p' = vp_header_slice p"
proof (cases f)
  case (VfSetHeaderFromRaw bs)
  then show ?thesis
    by (auto simp: set_header_from_raw_def split: prod.splits sum.splits)
qed (use assms in \<open>simp_all add: header_setters offset_defs set_header_field_total PKT_HEADER_SIZE_def\<close>)

lemma vsock_calls_total:
  assumes "vs_len (vp_header_slice p) = PKT_HEADER_SIZE"
  shows "\<exists>p' m'. vsock_calls G fs (p, m) = Some (p', m') \<and> vp_header_slice p' = vp_header_slice p"
  using assms
proof (induction fs arbitrary: p m)
  case (Cons f fs)
  obtain p1 m1 where "vsock_call G f (p, m) = Some (p1, m1)" "vp_header_slice p1 = vp_header_slice p"
    using vsock_call_total [OF Cons.prems] by blast
  with Cons.IH [of p1 m1] Cons.prems show ?case by auto
qed simp

lemma accepted_header_len:
  assumes "snd (from_tx_virtq_chain G m c n) = Inr p \<or> snd (from_rx_virtq_chain G m c n) = Inr p"
  shows "vs_len (vp_header_slice p) = PKT_HEADER_SIZE"
  using assms get_slice_len from_tx_sound [of G m c n _ p] from_rx_sound [of G m c n _ p]
  by (metis prod.collapse)

lemma fold_writes_acc: "acc (fold (\<lambda>(a, bs) m. fst (gm_write_slice G m a bs)) ws m) = acc m"
  by (induction ws arbitrary: m) (auto simp: write_keeps_acc)

end

interpretation srm: guest_mmap "single_region e" rg_data sr_acc for e
proof unfold_locales
  fix m :: region and a bs
  show "sr_acc (fst (gm_write_slice (single_region e) m a bs)) = sr_acc m"
    by (auto simp: sr_write_slice_def sr_try_access_def split: option.splits sum.splits)
qed (auto simp: sr_get_slice_def sr_region_get_slice_def sr_slice_write_at_def split: option.splits if_splits)

lemmas single_region_mmap = srm.guest_mmap_axioms

section \<open>Panics of the mock driver\<close>

lemma link_desc_None:
  "link_desc n idx raw = None \<longleftrightarrow> idx \<noteq> n - 1 \<and> (of_nat idx :: u16) = 0xFFFF"
proof -
  have "checked_add (of_nat idx) (1 :: u16) = None \<longleftrightarrow> (of_nat idx :: u16) = 0xFFFF"
    using unat_u16_bound [of "of_nat idx"]
    by (simp add: checked_add_eq_None word_unat_eq_iff del: unat_u16_bound) linarith
  then show ?thesis by (simp add: link_desc_def Let_def)
qed

lemma those_None: "those xs = None \<longleftrightarrow> None \<in> set xs"
  by (induction xs) (auto split: option.splits)

text \<open>\<open>build_desc_chain\<close> computes the index of the next descriptor in 16 bits: it panics exactly for more than
  65536 descriptors.\<close>

lemma link_all_None:
  "those (map (\<lambda>(idx, d). link_desc (length descs) idx d) (enumerate 0 descs)) = None \<longleftrightarrow> 2 ^ 16 < length descs"
proof
  assume "those (map (\<lambda>(idx, d). link_desc (length descs) idx d) (enumerate 0 descs)) = None"
  then obtain k where k: "k < length descs" "link_desc (length descs) k (descs ! k) = None"
    by (auto simp: those_None in_set_enumerate_eq)
  then have "k \<noteq> length descs - 1" "(of_nat k :: u16) = 0xFFFF" by (simp_all add: link_desc_None)
  moreover from this have "unat (of_nat k :: u16) = 0xFFFF" by simp
  then have "k mod 65536 = 65535" by (simp add: unat_of_nat)
  ultimately show "2 ^ 16 < length descs" using k(1) by (simp add: mod_if split: if_splits)
next
  assume l: "2 ^ 16 < length descs"
  then have "link_desc (length descs) 65535 (descs ! 65535) = None" by (simp add: link_desc_None)
  with l show "those (map (\<lambda>(idx, d). link_desc (length descs) idx d) (enumerate 0 descs)) = None"
    by (auto simp: those_None in_set_enumerate_eq image_iff intro!: bexI [of _ "(65535, descs ! 65535)"])
qed

context guest_mem
begin

lemma fuzz_mock_create:
  assumes "acc m 0x1000 0x10000"
  shows "\<exists>mq m'. mock_create G m 0x1000 DEFAULT_QUEUE_SIZE = Some (mq, m') \<and> mock_placed mq 0x1000 256 \<and>
    peek_bytes (peek m') (0x1000 + of_nat (16 * unat (256 :: u16)) + 2) 2 = [0, 0] \<and> acc m' = acc m \<and>
    acc m' 0x1000 (19 * unat (256 :: u16) + 16)"
proof -
  have "acc m 0x1000 (19 * unat (256 :: u16) + 16)" using acc_sub [OF assms, of 0 "19 * unat (256 :: u16) + 16"] by simp
  from this mock_create_ok [OF this] show ?thesis by (auto simp: DEFAULT_QUEUE_SIZE_def)
qed

lemma fuzz_build_total:
  assumes "mock_placed mq 0x1000 256" and "acc m 0x1000 (19 * unat (256 :: u16) + 16)"
    and "peek_bytes (peek m) (0x1000 + of_nat (16 * unat (256 :: u16)) + 2) 2 = [0, 0]"
  shows "\<exists>m' r. build_multiple_desc_chains G m mq descs = Some (m', r)"
    and "build_desc_chain G m mq descs = None \<longleftrightarrow> 2 ^ 16 < length descs"
proof -
  show b: "\<exists>m' r. build_multiple_desc_chains G m mq descs = Some (m', r)" for descs
    using build_multiple_desc_chains_total [OF assms(1,2) _ _ assms(3), of descs] by auto
  show "build_desc_chain G m mq descs = None \<longleftrightarrow> 2 ^ 16 < length descs"
    using b link_all_None [of descs]
    by (cases "those (map (\<lambda>(idx, d). link_desc (length descs) idx d) (enumerate 0 descs))")
      (auto simp: build_desc_chain_def)
qed

end

end
