(* ===== verification/Fuzz_Corpus.thy ===== *)
theory Fuzz_Corpus
  imports Fuzz_Targets
begin

text \<open>
  The fuzz targets as the fuzzer calls them, on the bytes of a file, and the corpus their tests write
  (\<open>fuzz/common/src\<close>): the seeds of the five targets, which the tests build by running the calls they record,
  with the assertions on the way, and the file each seed is written to and read back from. The codec
  (\<open>bincode\<close>) is a parameter. A failed assertion or \<open>unwrap\<close> is the value \<open>None\<close>.
\<close>

section \<open>Targets on bytes\<close>

text \<open>An input that does not decode is not run.\<close>

definition fuzz_target :: "(byte list \<Rightarrow> 'i option) \<Rightarrow> ('i \<Rightarrow> 'r option) \<Rightarrow> byte list \<Rightarrow> 'r option option" where
  "fuzz_target decode target bytes =
     (case decode bytes of
        None \<Rightarrow> Some None
      | Some fuzz_input \<Rightarrow> map_option Some (target fuzz_input))"

section \<open>Corpus files\<close>

text \<open>The directories and the files below the corpus, by path.\<close>

record corpus_fs =
  cf_dirs :: "string set"
  cf_files :: "string \<rightharpoonup> byte list"

definition path_join :: "string \<Rightarrow> string \<Rightarrow> string" where
  "path_join dir name =
     (if name \<noteq> [] \<and> hd name = CHR ''/'' then name
      else if dir = [] \<or> last dir = CHR ''/'' then dir @ name
      else dir @ ''/'' @ name)"

definition create_corpus_file :: "string \<Rightarrow> string \<Rightarrow> string \<Rightarrow> corpus_fs \<Rightarrow> corpus_fs \<times> string" where
  "create_corpus_file manifest_dir target_name filename fs =
     (let dest = manifest_dir @ ''/../corpus/'' @ target_name @ ''/'';
          path = path_join dest filename in
      (\<lparr>cf_dirs = insert dest (cf_dirs fs), cf_files = (cf_files fs)(path \<mapsto> [])\<rparr>, path))"

text \<open>Write a seed to its file, read the file back and compare.\<close>

definition write_seed ::
    "('i \<Rightarrow> byte list option) \<Rightarrow> (byte list \<Rightarrow> 'i option) \<Rightarrow> string \<Rightarrow> string \<Rightarrow> string \<Rightarrow> 'i \<Rightarrow> corpus_fs \<Rightarrow>
     corpus_fs option" where
  "write_seed serialize deserialize manifest_dir target_name filename fuzz_input fs =
     (case create_corpus_file manifest_dir target_name filename fs of
        (fs1, path) \<Rightarrow>
          (case serialize fuzz_input of
             None \<Rightarrow> None
           | Some bytes \<Rightarrow>
               let fs2 = fs1\<lparr>cf_files := (cf_files fs1)(path \<mapsto> bytes)\<rparr> in
               (case Option.bind (cf_files fs2 path) deserialize of
                  None \<Rightarrow> None
                | Some written_input \<Rightarrow> if written_input = fuzz_input then Some fs2 else None)))"

section \<open>The seed of the queue targets\<close>

definition basic_flags :: "nat \<Rightarrow> u16" where
  "basic_flags i =
     ucast (if i = 1 \<or> i = 6 then 0
            else if i = 2 \<or> i = 5 then VRING_DESC_F_NEXT OR VRING_DESC_F_WRITE
            else if i = 4 then VRING_DESC_F_WRITE
            else VRING_DESC_F_NEXT)"

definition basic_descriptors :: "fuzzing_descriptor list" where
  "basic_descriptors =
     map (\<lambda>i. \<lparr>fd_addr = ucast (0x1000 * (of_nat i + 1) :: u32), fd_len = 0x1000, fd_flags = basic_flags i,
               fd_next = of_nat i + 1\<rparr>) [0..<7]"

definition basic_functions :: "virtio_queue_function list" where
  "basic_functions =
     [VqSetReady True, VqDisableNotification, VqSetSize 15, VqSize, VqAddUsed 0 (0x1000 * 2),
      VqEnableNotification, VqAddUsed 2 (0x1000 * 3), VqPopDescriptorChain]"

definition create_basic_virtio_queue_ops :: "'m guest_memory \<Rightarrow> 'm \<Rightarrow> virtio_queue_input option" where
  "create_basic_virtio_queue_ops G mem =
     (case mock_new G mem DEFAULT_QUEUE_SIZE of
        None \<Rightarrow> None
      | Some (vq, m1) \<Rightarrow>
      (case build_multiple_desc_chains G m1 vq (map raw_of_fuzzing basic_descriptors) of
        None \<Rightarrow> None
      | Some (m2, Inl _) \<Rightarrow> None
      | Some (m2, Inr _) \<Rightarrow>
      (case create_queue vq of
        Inl _ \<Rightarrow> None
      | Inr q \<Rightarrow>
      let q1 = set_ready q True in
      (case disable_notification G q1 m2 of
        (_, Inl _) \<Rightarrow> None
      | (m3, Inr _) \<Rightarrow>
      let q2 = set_size q1 15 in
      if q_size q2 \<noteq> DEFAULT_QUEUE_SIZE then None else
      (case add_used G q2 m3 0 (0x1000 * 2) of
        (_, _, Inl _) \<Rightarrow> None
      | (q3, m4, Inr _) \<Rightarrow>
      (case enable_notification G q3 m4 of
        (_, Inl _) \<Rightarrow> None
      | (m5, Inr _) \<Rightarrow>
      (case add_used G q3 m5 2 (0x1000 * 3) of
        (_, _, Inl _) \<Rightarrow> None
      | (q4, m6, Inr _) \<Rightarrow>
      (case pop_descriptor_chain G q4 m6 of
        (_, None) \<Rightarrow> None
      | (_, Some _) \<Rightarrow>
          Some \<lparr>vqi_descriptors = basic_descriptors, vqi_functions = basic_functions\<rparr>))))))))"

text \<open>The seed of the state target: the same calls, on the state of a new queue.\<close>

definition basic_queue_state_ops :: "'m guest_memory \<Rightarrow> 'm \<Rightarrow> queue_state_input option" where
  "basic_queue_state_ops G mem =
     (case create_basic_virtio_queue_ops G mem of
        None \<Rightarrow> None
      | Some virtq_fuzz_input \<Rightarrow>
          (case queue_new DEFAULT_QUEUE_SIZE of
             Inl _ \<Rightarrow> None
           | Inr q \<Rightarrow>
               Some \<lparr>qsi_descriptors = vqi_descriptors virtq_fuzz_input,
                     qsi_queue_state = fuzzing_of_state (queue_state_of q),
                     qsi_functions = vqi_functions virtq_fuzz_input\<rparr>))"

section \<open>The seeds of the vsock target\<close>

definition SEED_MAX_PKT_BUF_SIZE :: u32 where "SEED_MAX_PKT_BUF_SIZE = 64 * 1024"
definition HEADER_WRITE_ADDR :: u64 where "HEADER_WRITE_ADDR = 0x100"
definition DATA_WRITE_ADDR :: u64 where "DATA_WRITE_ADDR = 0x1000"

text \<open>A call, the assertion after it, and the getter that is recorded with it.\<close>

definition basic_packet_steps :: "(vsock_function \<times> (vsock_packet \<Rightarrow> bool) \<times> vsock_function list) list" where
  "basic_packet_steps =
     [(VfSetSrcCid 1, \<lambda>p. src_cid p = 1, [VfSrcCid]),
      (VfSetDstCid 2, \<lambda>p. src_cid p = 1, [VfDstCid]),
      (VfSetSrcPort 3, \<lambda>p. src_port p = 3, [VfSrcPort]),
      (VfSetDstPort 4, \<lambda>p. dst_port p = 4, [VfDstPort]),
      (VfSetLen 16, \<lambda>p. pkt_len p = 16, [VfLen]),
      (VfSetType 5, \<lambda>p. pkt_type p = 5, [VfType]),
      (VfSetOp 6, \<lambda>p. pkt_op p = 6, [VfOp]),
      (VfSetFlags 7, \<lambda>p. pkt_flags p = 7, [VfFlags]),
      (VfSetFlag 8, \<lambda>p. True, []),
      (VfSetBufAlloc 256, \<lambda>p. buf_alloc p = 256, [VfBufAlloc]),
      (VfSetFwdCnt 9, \<lambda>p. fwd_cnt p = 9, [VfFwdCnt])]"

fun run_packet_steps ::
    "'m guest_memory \<Rightarrow> (vsock_function \<times> (vsock_packet \<Rightarrow> bool) \<times> vsock_function list) list \<Rightarrow>
     vsock_packet \<times> 'm \<Rightarrow> (vsock_packet \<times> 'm) option" where
  "run_packet_steps G [] s = Some s"
| "run_packet_steps G ((f, holds, _) # steps) s =
     (case vsock_call G f s of
        None \<Rightarrow> None
      | Some (p, m) \<Rightarrow> if holds p then run_packet_steps G steps (p, m) else None)"

text \<open>The slices are compared by the guest address they are taken at.\<close>

definition create_basic_vsock_packet_ops ::
    "'m guest_memory \<Rightarrow> vsock_packet \<Rightarrow> 'm \<Rightarrow> vsock_function list \<Rightarrow> vsock_function list option" where
  "create_basic_vsock_packet_ops G packet mem functions =
     (if vs_addr (vp_header_slice packet) \<noteq> HEADER_WRITE_ADDR then None
      else case vp_data_slice packet of
        None \<Rightarrow> None
      | Some data_slice \<Rightarrow>
          if vs_addr data_slice \<noteq> DATA_WRITE_ADDR then None
          else map_option (\<lambda>_. functions @ [VfHeaderSlice, VfDataSlice] @
                 concat (map (\<lambda>(f, _, getter). f # getter) basic_packet_steps))
               (run_packet_steps G basic_packet_steps (packet, mem)))"

definition packet_descriptors :: "u16 \<Rightarrow> fuzzing_descriptor list" where
  "packet_descriptors direction =
     [\<lparr>fd_addr = HEADER_WRITE_ADDR, fd_len = 0x100, fd_flags = ucast VRING_DESC_F_NEXT OR direction, fd_next = 1\<rparr>,
      \<lparr>fd_addr = DATA_WRITE_ADDR, fd_len = 0x100, fd_flags = direction, fd_next = 0\<rparr>]"

text \<open>The bytes of the \<open>FuzzingPacketHeader\<close> with these fields are a parameter: the structure has no \<open>repr\<close>, so
  the language does not fix its layout.\<close>

definition seed_packet_header :: packet_header where
  "seed_packet_header =
     \<lparr>ph_src_cid = 1, ph_dst_cid = 2, ph_src_port = 3, ph_dst_port = 4, ph_len = 16, ph_type = 5, ph_op = 6,
      ph_flags = 7, ph_buf_alloc = 256, ph_fwd_cnt = 9\<rparr>"

definition tx_vsock_packet_input ::
    "'m guest_memory \<Rightarrow> (packet_header \<Rightarrow> byte list) \<Rightarrow> 'm \<Rightarrow> vsock_input option" where
  "tx_vsock_packet_input G as_slice mem =
     (let descriptors = packet_descriptors 0; header_bytes = as_slice seed_packet_header in
      case mock_new G mem DEFAULT_QUEUE_SIZE of
        None \<Rightarrow> None
      | Some (vq, m1) \<Rightarrow>
      (case gm_write_slice G m1 HEADER_WRITE_ADDR header_bytes of
        (_, Inl _) \<Rightarrow> None
      | (m2, Inr _) \<Rightarrow>
      (case build_multiple_desc_chains G m2 vq (map raw_of_fuzzing descriptors) of
        None \<Rightarrow> None
      | Some (_, Inl _) \<Rightarrow> None
      | Some (m3, Inr chain) \<Rightarrow>
      (case from_tx_virtq_chain G m3 chain SEED_MAX_PKT_BUF_SIZE of
        (_, Inl _) \<Rightarrow> None
      | (_, Inr packet) \<Rightarrow>
          map_option (\<lambda>functions. \<lparr>vsi_pkt_max_data = SEED_MAX_PKT_BUF_SIZE, vsi_init_function = FromTX,
              vsi_descriptors = descriptors, vsi_functions = functions\<rparr>)
            (create_basic_vsock_packet_ops G packet m3 [VfWriteToMem HEADER_WRITE_ADDR header_bytes])))))"

definition rx_vsock_packet_input :: "'m guest_memory \<Rightarrow> 'm \<Rightarrow> vsock_input option" where
  "rx_vsock_packet_input G mem =
     (let descriptors = packet_descriptors (ucast VRING_DESC_F_WRITE) in
      case mock_new G mem DEFAULT_QUEUE_SIZE of
        None \<Rightarrow> None
      | Some (vq, m1) \<Rightarrow>
      (case build_multiple_desc_chains G m1 vq (map raw_of_fuzzing descriptors) of
        None \<Rightarrow> None
      | Some (_, Inl _) \<Rightarrow> None
      | Some (m2, Inr chain) \<Rightarrow>
      (case from_rx_virtq_chain G m2 chain SEED_MAX_PKT_BUF_SIZE of
        (_, Inl _) \<Rightarrow> None
      | (_, Inr packet) \<Rightarrow>
          map_option (\<lambda>functions. \<lparr>vsi_pkt_max_data = SEED_MAX_PKT_BUF_SIZE, vsi_init_function = FromRX,
              vsi_descriptors = descriptors, vsi_functions = functions\<rparr>)
            (create_basic_vsock_packet_ops G packet m2 []))))"

section \<open>The seed of the block target\<close>

definition HEADER_ADDR :: u64 where "HEADER_ADDR = 0x100"
definition REQ_DATA_ADDRS :: "u64 list" where "REQ_DATA_ADDRS = [0x3000, 0x4000]"
definition REQ_STATUS_ADDR :: u64 where "REQ_STATUS_ADDR = 0x5000"
definition SEED_DESC_LEN :: nat where "SEED_DESC_LEN = 0x1000"

lemmas seed_defs = SEED_MAX_PKT_BUF_SIZE_def HEADER_WRITE_ADDR_def DATA_WRITE_ADDR_def HEADER_ADDR_def
  REQ_DATA_ADDRS_def REQ_STATUS_ADDR_def SEED_DESC_LEN_def

text \<open>\<open>FuzzingBlkRequestHdr\<close>, in the byte order of the host.\<close>

definition blk_request_hdr_bytes :: "endian \<Rightarrow> u32 \<Rightarrow> u32 \<Rightarrow> u64 \<Rightarrow> byte list" where
  "blk_request_hdr_bytes e request_type reserved sector =
     native_bytes e 4 request_type @ native_bytes e 4 reserved @ native_bytes e 8 sector"

definition blk_descriptors :: "fuzzing_descriptor list" where
  "blk_descriptors =
     [\<lparr>fd_addr = HEADER_ADDR, fd_len = 16, fd_flags = ucast VRING_DESC_F_NEXT, fd_next = 1\<rparr>,
      \<lparr>fd_addr = REQ_DATA_ADDRS ! 0, fd_len = of_nat SEED_DESC_LEN,
       fd_flags = ucast (VRING_DESC_F_NEXT OR VRING_DESC_F_WRITE), fd_next = 2\<rparr>,
      \<lparr>fd_addr = REQ_DATA_ADDRS ! 1, fd_len = of_nat SEED_DESC_LEN,
       fd_flags = ucast (VRING_DESC_F_NEXT OR VRING_DESC_F_WRITE), fd_next = 3\<rparr>,
      \<lparr>fd_addr = REQ_STATUS_ADDR, fd_len = of_nat SEED_DESC_LEN, fd_flags = ucast VRING_DESC_F_WRITE,
       fd_next = 0\<rparr>]"

fun write_all_at :: "'m guest_memory \<Rightarrow> (u64 \<times> byte list) list \<Rightarrow> 'm \<Rightarrow> 'm option" where
  "write_all_at G [] m = Some m"
| "write_all_at G ((a, bs) # ws) m =
     (case gm_write_slice G m a bs of (_, Inl _) \<Rightarrow> None | (m', Inr _) \<Rightarrow> write_all_at G ws m')"

definition blk_descriptor_chain_input :: "'m guest_memory \<Rightarrow> 'm \<Rightarrow> blk_input option" where
  "blk_descriptor_chain_input G mem =
     (case mock_new G mem DEFAULT_QUEUE_SIZE of
        None \<Rightarrow> None
      | Some (vq, m1) \<Rightarrow>
      (case write_all_at G ((HEADER_ADDR, blk_request_hdr_bytes (gm_endian G) VIRTIO_BLK_T_IN 0 1) #
              map (\<lambda>a. (a, replicate SEED_DESC_LEN 0)) (REQ_DATA_ADDRS @ [REQ_STATUS_ADDR])) m1 of
        None \<Rightarrow> None
      | Some m2 \<Rightarrow>
      (case build_multiple_desc_chains G m2 vq (map raw_of_fuzzing blk_descriptors) of
        None \<Rightarrow> None
      | Some (_, Inl _) \<Rightarrow> None
      | Some (m3, Inr chain) \<Rightarrow>
      (case blk_parse G m3 chain of
        (_, Inl _) \<Rightarrow> None
      | (_, Inr req) \<Rightarrow>
          if rq_data req = map (\<lambda>a. (a, of_nat SEED_DESC_LEN)) REQ_DATA_ADDRS \<and> rq_sector req = 1 \<and>
             rq_status_addr req = REQ_STATUS_ADDR \<and>
             total_data_len req = of_nat (SEED_DESC_LEN * length REQ_DATA_ADDRS) \<and> rq_request_type req = RtIn
          then Some \<lparr>bi_descriptors = blk_descriptors, bi_guestmem = [], bi_features = 0,
                     bi_device_id = Some (replicate 20 1)\<rparr>
          else None))))"

section \<open>The tests that write the corpus\<close>

text \<open>Each test builds its seed and writes it to a file of the target it is for. The codecs are those of the
  three types of input.\<close>

definition write_basic_virtio_queue_ops where
  "write_basic_virtio_queue_ops serialize deserialize dir G mem fs =
     Option.bind (create_basic_virtio_queue_ops G mem) (\<lambda>fuzz_input.
       write_seed serialize deserialize dir ''virtio_queue'' ''basic_virtio_queue'' fuzz_input fs)"

definition write_basic_virtio_queue_ser_ops where
  "write_basic_virtio_queue_ser_ops serialize deserialize dir G mem fs =
     Option.bind (basic_queue_state_ops G mem) (\<lambda>fuzz_input.
       write_seed serialize deserialize dir ''virtio_queue_ser'' ''basic_virtio_queue_ser'' fuzz_input fs)"

definition write_tx_vsock_packet_ops where
  "write_tx_vsock_packet_ops serialize deserialize dir G as_slice mem fs =
     Option.bind (tx_vsock_packet_input G as_slice mem) (\<lambda>fuzz_input.
       write_seed serialize deserialize dir ''vsock'' ''tx_vsock_packet'' fuzz_input fs)"

definition write_rx_vsock_packet_ops where
  "write_rx_vsock_packet_ops serialize deserialize dir G mem fs =
     Option.bind (rx_vsock_packet_input G mem) (\<lambda>fuzz_input.
       write_seed serialize deserialize dir ''vsock'' ''rx_vsock_packet'' fuzz_input fs)"

definition test_blk_basic_descriptor_chain where
  "test_blk_basic_descriptor_chain serialize deserialize dir G mem fs =
     Option.bind (blk_descriptor_chain_input G mem) (\<lambda>fuzz_input.
       write_seed serialize deserialize dir ''blk'' ''descriptor_chain'' fuzz_input fs)"

end
