(* ===== verification/Fuzz_Seeds.thy ===== *)
theory Fuzz_Seeds
  imports Fuzz_Corpus
begin

text \<open>
  The seeds of \<^emph>\<open>Fuzz_Corpus\<close>, for every memory that has the first 32 KiB: each test reaches its end, so its
  assertions hold, and the seed it writes is the one given here. The mock driver places the used ring in
  the tail of the available ring, which the three chains of the queue seed do not reach. In the targets, whose memory starts at 0x1000, the
  headers of the vsock and block seeds are not mapped.
\<close>

section \<open>Chains of a seed\<close>

definition split_of_fuzzing :: "fuzzing_descriptor \<Rightarrow> split_desc" where
  "split_of_fuzzing d = split_desc_new (fd_addr d) (fd_len d) (fd_flags d) (fd_next d)"

context guest_mem
begin

lemma seed_mock:
  assumes "acc m 0 0x8000"
  shows "\<exists>mq m'. mock_new G m DEFAULT_QUEUE_SIZE = Some (mq, m') \<and> mock_placed mq 0 256 \<and>
    mk_used_addr mq = 4356 \<and> peek_bytes (peek m') 4098 2 = [0, 0] \<and> acc m' = acc m"
proof -
  have a: "acc m 0 (19 * unat (256 :: u16) + 16)" using acc_sub [OF assms, of 0 "19 * unat (256 :: u16) + 16"] by simp
  obtain mq m' where m': "mock_create G m 0 256 = Some (mq, m')" "mock_placed mq 0 256"
      "peek_bytes (peek m') 4098 2 = [0, 0]" "acc m' = acc m"
    using mock_create_ok [OF a] by auto
  have "mk_avail_addr mq = 4096" using m'(2) by (simp add: mock_placed_def)
  then have "align_up 4356 4 = Some (mk_used_addr mq)" using mock_used_addr(2) [OF m'(1)] by simp
  then have "mk_used_addr mq = 4356" by (simp add: align_up_def checked_add_def)
  with m' show ?thesis by (simp add: mock_new_def DEFAULT_QUEUE_SIZE_def)
qed

lemma seed_built:
  assumes mq: "mock_placed mq 0 256" and a: "acc m 0 0x8000" and z: "peek_bytes (peek m) 4098 2 = [0, 0]"
    and c: "linked_chains 0 css" "css \<noteq> []" "length (concat css) \<le> 256"
      "\<forall>cs\<in>set css. sum_list (map (\<lambda>d. unat (sd_len d)) cs) < 2 ^ 32"
    and ds: "map split_of_fuzzing ds = concat css"
  shows "\<exists>m' c. build_multiple_desc_chains G m mq (map raw_of_fuzzing ds) = Some (m', Inr c) \<and> acc m' = acc m \<and>
    chain_collect G m' c = hd css \<and> peek_bytes (peek m') 4098 2 = le_bytes 2 (of_nat (length css) :: u16) \<and>
    (\<forall>i n. 16 * length (concat css) \<le> i \<longrightarrow> i + n \<le> 4096 \<longrightarrow>
       peek_bytes (peek m') (of_nat i) n = peek_bytes (peek m) (of_nat i) n)"
proof -
  obtain q0 where q0: "queue_new (256 :: u16) = Inr q0" using that by (simp add: queue_new_Inr MAX_QUEUE_SIZE_def pow2_check_def)
  have a': "acc m 0 (19 * unat (256 :: u16) + 16)" using acc_sub [OF a, of 0 "19 * unat (256 :: u16) + 16"] by simp
  have raw: "map raw_of_fuzzing ds = map raw_of_split (concat css)"
    unfolding ds [symmetric] by (simp add: raw_of_fuzzing_def split_of_fuzzing_def)
  have "peek_bytes (peek m) (0 + of_nat (16 * unat (256 :: u16)) + 2) 2 = [0, 0]" "length (concat css) \<le> unat (256 :: u16)"
    using z c(3) by simp_all
  from add_chains_found [OF mq a' _ q0 this(1) c(1) this(2) c(4)] c(2)
  obtain m' q' it where m': "add_desc_chains G m mq (map raw_of_fuzzing ds) 0 = Some (m', Inr ())" "acc m' = acc m"
      "ring_published (peek m') 4096 (map of_nat (chain_starts 0 css))"
      "create_queue mq = Inr q'" "queue_iter G q' m' = Inr it" "snd (avail_iter_next G m' it) = Some (chain_new 0 256 0)"
      "chain_collect G m' (chain_new 0 256 0) = hd css"
      "\<forall>i n. 16 * length (concat css) \<le> i \<longrightarrow> i + n \<le> 4096 \<longrightarrow>
         peek_bytes (peek m') (of_nat i) n = peek_bytes (peek m) (of_nat i) n"
    by (simp add: raw) blast
  have "length (chain_starts 0 css) = length css" by (rule length_chain_starts)
  then have "peek_bytes (peek m') 4098 2 = le_bytes 2 (of_nat (length css) :: u16)"
    using m'(3) by (simp add: ring_published_def)
  moreover have "build_multiple_desc_chains G m mq (map raw_of_fuzzing ds) = Some (m', Inr (chain_new 0 256 0))"
    using m'(1,4,5,6) by (cases "avail_iter_next G m' it") (simp add: build_multiple_desc_chains_def)
  ultimately show ?thesis using m'(2,7,8) by auto
qed
end

section \<open>The queue seed\<close>

definition basic_chains :: "split_desc list list" where
  "basic_chains =
     (let ds = map split_of_fuzzing basic_descriptors in [take 2 ds, take 3 (drop 2 ds), drop 5 ds])"

lemma basic_chains_linked:
  "linked_chains 0 basic_chains" "basic_chains \<noteq> []" "length basic_chains = 3" "length (concat basic_chains) = 7"
  "map split_of_fuzzing basic_descriptors = concat basic_chains"
  "\<forall>cs\<in>set basic_chains. sum_list (map (\<lambda>d. unat (sd_len d)) cs) < 2 ^ 32"
proof -
  have ds: "basic_descriptors = map (\<lambda>i. \<lparr>fd_addr = ucast (0x1000 * (of_nat i + 1) :: u32), fd_len = 0x1000,
      fd_flags = basic_flags i, fd_next = of_nat i + 1\<rparr>) [0, 1, 2, 3, 4, 5, 6]"
    unfolding basic_descriptors_def by (rule arg_cong [of "[0..<7]"]) code_simp
  show "linked_chains 0 basic_chains"
    by (simp add: basic_chains_def ds linked_from_simps split_of_fuzzing_def basic_flags_def
        flag_simps vring_flag_defs)
  show "basic_chains \<noteq> []" "length basic_chains = 3" "length (concat basic_chains) = 7"
    "map split_of_fuzzing basic_descriptors = concat basic_chains"
    by (simp_all add: basic_chains_def ds)
  show "\<forall>cs\<in>set basic_chains. sum_list (map (\<lambda>d. unat (sd_len d)) cs) < 2 ^ 32"
    by (simp add: basic_chains_def ds split_of_fuzzing_def)
qed

context guest_mem
begin

text \<open>Without event indexes, switching notifications writes the flags of the used ring, nothing below it.\<close>

lemma set_notification_flags:
  assumes wf: "wf_queue q" and used: "used_ring_acc acc q m" and e: "\<not> q_event_idx_enabled q"
  shows "\<exists>m'. set_notification G q m en = (m', Inr ()) \<and> acc m' = acc m \<and>
    (\<forall>b k. unat b + k \<le> unat (q_used_ring q) \<longrightarrow> peek_bytes (peek m') b k = peek_bytes (peek m) b k)"
proof -
  let ?v = "if en then 0 else ucast VRING_USED_F_NO_NOTIFY :: u16"
  note f = used_field_acc [OF wf used, of 0 2]
  obtain m' where m': "store_u16 G m (q_used_ring q) (to_le (gm_endian G) ?v) Relaxed = (m', Inr ())"
      "peek m' = poke (peek m) (q_used_ring q) (le_bytes 2 ?v)" "acc m' = acc m"
    using store_u16_le [of m "q_used_ring q" Relaxed ?v] f by (auto simp: store_order_def)
  have "peek_bytes (peek m') b k = peek_bytes (peek m) b k" if "unat b + k \<le> unat (q_used_ring q)" for b k
    unfolding m'(2) using that acc_no_wrap [OF f(1)]
    by (intro peek_bytes_poke_disjoint) (simp_all add: disjoint_ranges_def)
  moreover have "set_notification G q m en = (m', Inr ())"
    using m'(1) e by (cases en) (simp_all add: set_notification_def set_used_flags_def)
  ultimately show ?thesis using m'(3) by auto
qed

lemma add_used_below:
  assumes "wf_queue q" and "used_ring_acc acc q m" and "h < q_size q"
  shows "\<exists>m'. add_used G q m h len = (q\<lparr>q_next_used := q_next_used q + 1, q_num_added := q_num_added q + 1\<rparr>, m', Inr ()) \<and>
    acc m' = acc m \<and>
    (\<forall>b k. unat b + k \<le> unat (q_used_ring q) \<longrightarrow> peek_bytes (peek m') b k = peek_bytes (peek m) b k)"
proof -
  obtain q' m' r where eq: "add_used G q m h len = (q', m', r)" by (cases "add_used G q m h len")
  note u = add_used_readback [OF assms eq]
  have "peek_bytes (peek m') b k = peek_bytes (peek m) b k" if "unat b + k \<le> unat (q_used_ring q)" for b k
    using that le_trans [OF that less_imp_le [OF unat_u64_bound]] by (intro u(7)) (simp_all add: disjoint_ranges_def)
  with eq u(1-3) show ?thesis by auto
qed

text \<open>The environment of the queue seed: a ready queue with three chains, its rings in memory.\<close>

lemma queue_seed_setup:
  assumes a: "acc m 0 0x8000"
  shows "\<exists>mq m1 m2 c q. mock_new G m DEFAULT_QUEUE_SIZE = Some (mq, m1) \<and>
    build_multiple_desc_chains G m1 mq (map raw_of_fuzzing basic_descriptors) = Some (m2, Inr c) \<and>
    create_queue mq = Inr q \<and> acc m2 = acc m \<and> peek_bytes (peek m2) 4098 2 = le_bytes 2 (3 :: u16) \<and>
    wf_queue q \<and> avail_ring_acc acc q m2 \<and> q_ready q \<and> q_avail_ring q = 4096 \<and> q_size q = 256 \<and> q_next_avail q = 0 \<and>
    q_used_ring q = 4356 \<and> \<not> q_event_idx_enabled q"
proof -
  obtain mq m1 where m1: "mock_new G m DEFAULT_QUEUE_SIZE = Some (mq, m1)" "mock_placed mq 0 256" "mk_used_addr mq = 4356"
      "peek_bytes (peek m1) 4098 2 = [0, 0]" "acc m1 = acc m"
    using seed_mock [OF a] by blast
  have "acc m1 0 0x8000" using a m1(5) by simp
  from seed_built [OF m1(2) this m1(4), of basic_chains basic_descriptors] basic_chains_linked
  obtain m2 c where m2: "build_multiple_desc_chains G m1 mq (map raw_of_fuzzing basic_descriptors) = Some (m2, Inr c)"
      "acc m2 = acc m" "peek_bytes (peek m2) 4098 2 = le_bytes 2 (3 :: u16)"
    using m1(5) by auto
  obtain q0 where q0: "queue_new (256 :: u16) = Inr q0" using that by (simp add: queue_new_Inr MAX_QUEUE_SIZE_def pow2_check_def)
  have "acc m2 0 (19 * unat (256 :: u16) + 16)" using acc_sub [OF a, of 0 "19 * unat (256 :: u16) + 16"] m2(2) by simp
  from created_queue [OF m1(2) this _ q0] m1(1,3) m2 show ?thesis by auto
qed

lemma queue_seed:
  assumes a: "acc m 0 0x8000"
  shows "create_basic_virtio_queue_ops G m =
    Some \<lparr>vqi_descriptors = basic_descriptors, vqi_functions = basic_functions\<rparr>"
proof -
  obtain mq m1 m2 c q where m1: "mock_new G m DEFAULT_QUEUE_SIZE = Some (mq, m1)"
      and m2: "build_multiple_desc_chains G m1 mq (map raw_of_fuzzing basic_descriptors) = Some (m2, Inr c)"
        "acc m2 = acc m" "peek_bytes (peek m2) 4098 2 = le_bytes 2 (3 :: u16)"
      and q: "create_queue mq = Inr q" "wf_queue q" "avail_ring_acc acc q m2" "q_ready q" "q_avail_ring q = 4096"
        "q_size q = 256" "q_next_avail q = 0" "q_used_ring q = 4356" "\<not> q_event_idx_enabled q"
    using queue_seed_setup [OF a] by blast
  have u: "used_ring_acc acc q' m'" if "q_used_ring q' = 4356" "q_size q' = 256" "acc m' = acc m" for q' m'
    using acc_sub [OF a, of 4356 "6 + 8 * 256"] that by (simp add: used_ring_acc_def)
  have qs: "set_ready q True = q" "set_size q 15 = q" using q(4) by (simp_all add: set_ready_def set_size_def try_set_size_def pow2_check_def)
  obtain m3 where m3: "disable_notification G q m2 = (m3, Inr ())" "acc m3 = acc m"
      "peek_bytes (peek m3) 4098 2 = le_bytes 2 (3 :: u16)"
    using set_notification_flags [OF q(2) u q(9), of m2 False] q(6,8) m2(2,3) by (auto simp: disable_notification_def)
  let ?q3 = "q\<lparr>q_next_used := q_next_used q + 1, q_num_added := q_num_added q + 1\<rparr>"
  obtain m4 where m4: "add_used G q m3 0 (0x1000 * 2) = (?q3, m4, Inr ())" "acc m4 = acc m"
      "peek_bytes (peek m4) 4098 2 = le_bytes 2 (3 :: u16)"
    using add_used_below [OF q(2) u, of m3 0 "0x1000 * 2"] q(6,8) m3(2,3) by auto
  have q3: "wf_queue ?q3" using q(2) by (simp add: wf_queue_def)
  obtain m5 where m5: "set_notification G ?q3 m4 True = (m5, Inr ())" "acc m5 = acc m"
      "peek_bytes (peek m5) 4098 2 = le_bytes 2 (3 :: u16)"
    using set_notification_flags [OF q3 u, of m4 True] q(6,8,9) m4(2,3) by auto
  have av: "avail_ring_acc acc q' m'" if "q_avail_ring q' = 4096" "q_size q' = 256" "acc m' = acc m" for q' m'
    using q(3,5,6) that m2(2) by (simp add: avail_ring_acc_def)
  have en: "\<exists>b. enable_notification G ?q3 m4 = (m5, Inr b)"
    using m5 avail_idx_value [OF q3 av, of m5 Relaxed] q(5,6) by (simp add: enable_notification_def load_order_def)
  let ?q4 = "?q3\<lparr>q_next_used := q_next_used ?q3 + 1, q_num_added := q_num_added ?q3 + 1\<rparr>"
  obtain m6 where m6: "add_used G ?q3 m5 2 (0x1000 * 3) = (?q4, m6, Inr ())" "acc m6 = acc m"
      "peek_bytes (peek m6) 4098 2 = le_bytes 2 (3 :: u16)"
    using add_used_below [OF q3 u, of m5 2 "0x1000 * 3"] q(6,8) m5(2,3) by auto
  have "wf_queue ?q4" using q(2) by (simp add: wf_queue_def)
  from pop_descriptor_chain_ok [OF this av, of m6] have "\<exists>q5 c. pop_descriptor_chain G ?q4 m6 = (q5, Some c)"
    using q(4-7) m6(2,3) by (simp add: avail_idx_at_def)
  then show ?thesis
    using m1 m2(1) q(1,6) qs m3(1) m4(1) en m6(1)
    by (auto simp: create_basic_virtio_queue_ops_def DEFAULT_QUEUE_SIZE_def)
qed
lemma queue_state_seed:
  assumes "acc m 0 0x8000"
  shows "basic_queue_state_ops G m =
    Some \<lparr>qsi_descriptors = basic_descriptors,
          qsi_queue_state = \<lparr>fqs_max_size = 256, fqs_next_avail = 0, fqs_next_used = 0, fqs_event_idx_enabled = False,
            fqs_size = 256, fqs_ready = False, fqs_desc_table = 0, fqs_avail_ring = 0, fqs_used_ring = 0\<rparr>,
          qsi_functions = basic_functions\<rparr>"
  using queue_seed [OF assms]
  by (simp add: basic_queue_state_ops_def queue_new_def DEFAULT_QUEUE_SIZE_def MAX_QUEUE_SIZE_def queue_state_of_def
      fuzzing_of_state_def queue_const_defs)

end

section \<open>The vsock seeds\<close>

definition basic_packet_functions :: "vsock_function list" where
  "basic_packet_functions = [VfHeaderSlice, VfDataSlice] @ concat (map (\<lambda>(f, _, getter). f # getter) basic_packet_steps)"

lemma packet_chain_linked:
  assumes "direction = 0 \<or> direction = 2"
  shows "linked_from 0 (map split_of_fuzzing (packet_descriptors direction))"
  using assms by (auto simp: packet_descriptors_def linked_from_simps split_of_fuzzing_def flag_simps vring_flag_defs)

context guest_mmap
begin

lemma create_packet_ops:
  assumes "vp_header_slice p = \<lparr>vs_addr = HEADER_WRITE_ADDR, vs_len = PKT_HEADER_SIZE\<rparr>"
    and "vp_data_slice p = Some ds" and "vs_addr ds = DATA_WRITE_ADDR"
  shows "create_basic_vsock_packet_ops G p m fs = Some (fs @ basic_packet_functions)"
proof -
  have "\<exists>s. run_packet_steps G basic_packet_steps (p, m) = Some s"
    using assms(1)
    by (simp add: basic_packet_steps_def header_setters offset_defs set_header_field_total PKT_HEADER_SIZE_def
        src_cid_def src_port_def dst_port_def pkt_len_def pkt_type_def pkt_op_def pkt_flags_def buf_alloc_def fwd_cnt_def)
  with assms show ?thesis by (auto simp: create_basic_vsock_packet_ops_def basic_packet_functions_def)
qed

lemma packet_chain_built:
  assumes "mock_placed mq 0 256" and "acc m 0 0x8000" and "peek_bytes (peek m) 4098 2 = [0, 0]"
    and "direction = 0 \<or> direction = 2"
  shows "\<exists>m' c. build_multiple_desc_chains G m mq (map raw_of_fuzzing (packet_descriptors direction)) = Some (m', Inr c) \<and>
    acc m' = acc m \<and> chain_collect G m' c = map split_of_fuzzing (packet_descriptors direction) \<and>
    peek_bytes (peek m') 0x100 44 = peek_bytes (peek m) 0x100 44 \<and>
    (\<forall>d\<in>set (chain_collect G m' c). acc m' (sd_addr d) (unat (sd_len d)))"
proof -
  let ?ds = "map split_of_fuzzing (packet_descriptors direction)"
  have l: "length ?ds = 2" "?ds \<noteq> []" "sum_list (map (\<lambda>d. unat (sd_len d)) ?ds) < 2 ^ 32"
    by (simp_all add: packet_descriptors_def split_of_fuzzing_def)
  from seed_built [OF assms(1-3), of "[?ds]" "packet_descriptors direction"] packet_chain_linked [OF assms(4)] l
  obtain m' c where m': "build_multiple_desc_chains G m mq (map raw_of_fuzzing (packet_descriptors direction)) = Some (m', Inr c)"
      "acc m' = acc m" "chain_collect G m' c = ?ds"
      "\<forall>i n. 32 \<le> i \<longrightarrow> i + n \<le> 4096 \<longrightarrow> peek_bytes (peek m') (of_nat i) n = peek_bytes (peek m) (of_nat i) n"
    by auto
  have "acc m' (sd_addr d) (unat (sd_len d))" if "d \<in> set ?ds" for d
    using that acc_sub [OF assms(2), of "0x100" "0x100"] acc_sub [OF assms(2), of "0x1000" "0x100"] m'(2)
    by (auto simp: packet_descriptors_def split_of_fuzzing_def seed_defs)
  with m' m'(4) [rule_format, of "0x100" 44] show ?thesis by auto
qed

lemma rx_seed:
  assumes a: "acc m 0 0x8000"
  shows "rx_vsock_packet_input G m =
    Some \<lparr>vsi_pkt_max_data = SEED_MAX_PKT_BUF_SIZE, vsi_init_function = FromRX,
          vsi_descriptors = packet_descriptors (ucast VRING_DESC_F_WRITE), vsi_functions = basic_packet_functions\<rparr>"
proof -
  obtain mq m1 where m1: "mock_new G m DEFAULT_QUEUE_SIZE = Some (mq, m1)" "mock_placed mq 0 256"
      "peek_bytes (peek m1) 4098 2 = [0, 0]" "acc m1 = acc m"
    using seed_mock [OF a] by blast
  have w: "(ucast VRING_DESC_F_WRITE :: u16) = 2" by (simp add: vring_flag_defs)
  have "acc m1 0 0x8000" using a m1(4) by simp
  from packet_chain_built [OF m1(2) this m1(3), of 2]
  obtain m2 c where m2: "build_multiple_desc_chains G m1 mq (map raw_of_fuzzing (packet_descriptors 2)) = Some (m2, Inr c)"
      "chain_collect G m2 c = map split_of_fuzzing (packet_descriptors 2)"
      "\<forall>d\<in>set (chain_collect G m2 c). acc m2 (sd_addr d) (unat (sd_len d))"
    by auto
  have "snd (from_rx_virtq_chain G m2 c SEED_MAX_PKT_BUF_SIZE) =
      Inr \<lparr>vp_header_slice = \<lparr>vs_addr = HEADER_WRITE_ADDR, vs_len = 44\<rparr>, vp_header = packet_header_default,
           vp_data_slice = Some \<lparr>vs_addr = DATA_WRITE_ADDR, vs_len = 0x100\<rparr>\<rparr>"
    using from_rx_reference [OF m2(3), of SEED_MAX_PKT_BUF_SIZE] m2(2)
    by (simp add: rx_packet_def packet_descriptors_def split_of_fuzzing_def flag_simps seed_defs vring_flag_defs)
  then show ?thesis
    using m1(1) m2(1) w create_packet_ops
    by (auto simp: rx_vsock_packet_input_def PKT_HEADER_SIZE_def split: prod.splits)
qed

lemma tx_seed:
  assumes a: "acc m 0 0x8000" and hb: "44 \<le> length hb" "length hb \<le> 0x100" "ph_len (header_of_bytes hb) = 16"
    and eq: "as_slice seed_packet_header = hb"
  shows "tx_vsock_packet_input G as_slice m =
    Some \<lparr>vsi_pkt_max_data = SEED_MAX_PKT_BUF_SIZE, vsi_init_function = FromTX, vsi_descriptors = packet_descriptors 0,
          vsi_functions = VfWriteToMem HEADER_WRITE_ADDR hb # basic_packet_functions\<rparr>"
proof -
  obtain mq m1 where m1: "mock_new G m DEFAULT_QUEUE_SIZE = Some (mq, m1)" "mock_placed mq 0 256"
      "peek_bytes (peek m1) 4098 2 = [0, 0]" "acc m1 = acc m"
    using seed_mock [OF a] by blast
  have "acc m1 0 0x8000" using a m1(4) by simp
  from write_at [OF this, of "0x100" hb] hb obtain m2 where m2: "gm_write_slice G m1 0x100 hb = (m2, Inr ())"
      "peek m2 = poke (peek m1) 0x100 hb" "acc m2 = acc m1"
    by auto
  have z: "peek_bytes (peek m2) 4098 2 = [0, 0]"
    unfolding m2(2) m1(3) [symmetric] using hb(2) by (intro peek_bytes_poke_disjoint) (simp_all add: disjoint_ranges_def)
  have h: "peek_bytes (peek m2) 0x100 44 = take 44 hb"
  proof -
    have "peek_bytes (peek m2) 0x100 44 = take 44 (peek_bytes (peek m2) 0x100 (length hb))"
      using hb(1) by (simp add: peek_bytes_def take_map)
    then show ?thesis unfolding m2(2) using hb(2) by (simp add: peek_bytes_poke_same)
  qed
  have "ph_len (header_of_bytes (take 44 hb)) = 16"
    using hb by (simp add: header_of_bytes_def field_def offset_defs min_def drop_take)
  moreover have "acc m2 0 0x8000" using a m1(4) m2(3) by simp
  from packet_chain_built [OF m1(2) this z, of 0] h
  obtain m3 c where m3: "build_multiple_desc_chains G m2 mq (map raw_of_fuzzing (packet_descriptors 0)) = Some (m3, Inr c)"
      "chain_collect G m3 c = map split_of_fuzzing (packet_descriptors 0)" "peek_bytes (peek m3) 0x100 44 = take 44 hb"
      "\<forall>d\<in>set (chain_collect G m3 c). acc m3 (sd_addr d) (unat (sd_len d))"
    by auto
  ultimately have "snd (from_tx_virtq_chain G m3 c SEED_MAX_PKT_BUF_SIZE) =
      Inr \<lparr>vp_header_slice = \<lparr>vs_addr = HEADER_WRITE_ADDR, vs_len = 44\<rparr>, vp_header = header_of_bytes (take 44 hb),
           vp_data_slice = Some \<lparr>vs_addr = DATA_WRITE_ADDR, vs_len = 16\<rparr>\<rparr>"
    using from_tx_reference [OF m3(4), of SEED_MAX_PKT_BUF_SIZE]
    by (simp add: tx_packet_def packet_descriptors_def split_of_fuzzing_def flag_simps seed_defs vring_flag_defs)
  then show ?thesis
    using m1(1) m2(1) m3(1) eq create_packet_ops
    by (auto simp: tx_vsock_packet_input_def PKT_HEADER_SIZE_def HEADER_WRITE_ADDR_def split: prod.splits)
qed

end

section \<open>The block seed\<close>

lemma request_header_bytes:
  "request_header_of_bytes e (blk_request_hdr_bytes e t r s) = \<lparr>rh_request_type = t, rh_reserved = r, rh_sector = s\<rparr>"
  by (cases e) (simp_all add: request_header_of_bytes_def blk_request_hdr_bytes_def native_bytes_def native_word_def)

lemma blk_chain_linked: "linked_from 0 (map split_of_fuzzing blk_descriptors)"
  by (simp add: blk_descriptors_def linked_from_simps split_of_fuzzing_def flag_simps vring_flag_defs)

context guest_mem
begin

lemma write_all_at_ok:
  assumes "\<forall>(a, bs)\<in>set ws. acc m a (length bs)"
  shows "\<exists>m'. write_all_at G ws m = Some m' \<and> acc m' = acc m \<and>
    (\<forall>b k. unat b + k \<le> 2 ^ 64 \<longrightarrow> (\<forall>(a, bs)\<in>set ws. disjoint_ranges b k a (length bs)) \<longrightarrow>
       peek_bytes (peek m') b k = peek_bytes (peek m) b k)"
  using assms
proof (induction ws arbitrary: m)
  case (Cons w ws)
  obtain a bs where w: "w = (a, bs)" by fastforce
  have acc: "acc m a (length bs)" using Cons.prems w by simp
  obtain m1 where m1: "gm_write_slice G m a bs = (m1, Inr ())" "peek m1 = poke (peek m) a bs" "acc m1 = acc m"
    using write_law [OF acc] by blast
  obtain m' where m': "write_all_at G ws m1 = Some m'" "acc m' = acc m1"
      "\<And>b k. unat b + k \<le> 2 ^ 64 \<Longrightarrow> \<forall>(a, bs)\<in>set ws. disjoint_ranges b k a (length bs) \<Longrightarrow>
         peek_bytes (peek m') b k = peek_bytes (peek m1) b k"
    using Cons.IH [of m1] Cons.prems m1(3) by auto
  have "peek_bytes (peek m1) b k = peek_bytes (peek m) b k"
    if "unat b + k \<le> 2 ^ 64" "disjoint_ranges b k a (length bs)" for b k
    unfolding m1(2) using that acc_no_wrap [OF acc] by (intro peek_bytes_poke_disjoint) simp_all
  with m1(1,3) m' w show ?case by (intro exI [of _ m']) simp
qed simp

lemma blk_seed_memory:
  fixes hb :: "byte list"
  assumes a: "acc m 0 0x8000" and z: "peek_bytes (peek m) 4098 2 = [0, 0]" and hb: "length hb = 16"
  shows "\<exists>m'. write_all_at G ((HEADER_ADDR, hb) # map (\<lambda>a. (a, replicate SEED_DESC_LEN 0)) (REQ_DATA_ADDRS @ [REQ_STATUS_ADDR])) m =
      Some m' \<and> acc m' = acc m \<and> peek_bytes (peek m') 0x100 16 = hb \<and> peek_bytes (peek m') 4098 2 = [0, 0]"
proof -
  obtain m2 where m2: "gm_write_slice G m 0x100 hb = (m2, Inr ())" "peek m2 = poke (peek m) 0x100 hb" "acc m2 = acc m"
    using write_at [OF a, of "0x100" hb] hb by auto
  have h2: "peek_bytes (peek m2) 0x100 16 = hb" unfolding m2(2) using peek_bytes_poke_same [of hb "peek m" "0x100"] hb by simp
  have z2: "peek_bytes (peek m2) 4098 2 = [0, 0]"
    unfolding m2(2) z [symmetric] by (intro peek_bytes_poke_disjoint) (simp_all add: disjoint_ranges_def hb)
  let ?ws = "map (\<lambda>a. (a, replicate SEED_DESC_LEN (0 :: byte))) (REQ_DATA_ADDRS @ [REQ_STATUS_ADDR])"
  have "\<forall>(a, bs)\<in>set ?ws. acc m2 a (length bs)"
    using acc_sub [OF a, of "0x3000" "0x1000"] acc_sub [OF a, of "0x4000" "0x1000"] acc_sub [OF a, of "0x5000" "0x1000"] m2(3)
    by (simp add: seed_defs)
  from write_all_at_ok [OF this] obtain m3 where m3: "write_all_at G ?ws m2 = Some m3" "acc m3 = acc m2"
      "\<And>b k. unat b + k \<le> 2 ^ 64 \<Longrightarrow> \<forall>(a, bs)\<in>set ?ws. disjoint_ranges b k a (length bs) \<Longrightarrow>
         peek_bytes (peek m3) b k = peek_bytes (peek m2) b k"
    by auto
  have "peek_bytes (peek m3) 0x100 16 = hb" "peek_bytes (peek m3) 4098 2 = [0, 0]"
    using m3(3) [of "0x100" 16] m3(3) [of 4098 2] h2 z2 by (simp_all add: seed_defs disjoint_ranges_def)
  with m2(1,3) m3(1,2) show ?thesis by (simp add: HEADER_ADDR_def)
qed

lemma blk_seed:
  assumes a: "acc m 0 0x8000" and chk: "\<And>m a n. acc m a n \<Longrightarrow> 0 < n \<Longrightarrow> gm_check_address G m a \<noteq> None"
  shows "blk_descriptor_chain_input G m =
    Some \<lparr>bi_descriptors = blk_descriptors, bi_guestmem = [], bi_features = 0, bi_device_id = Some (replicate 20 1)\<rparr>"
proof -
  let ?hb = "blk_request_hdr_bytes (gm_endian G) VIRTIO_BLK_T_IN 0 1"
  let ?ws = "map (\<lambda>a. (a, replicate SEED_DESC_LEN (0 :: byte))) (REQ_DATA_ADDRS @ [REQ_STATUS_ADDR])"
  obtain mq m1 where m1: "mock_new G m DEFAULT_QUEUE_SIZE = Some (mq, m1)" "mock_placed mq 0 256"
      "peek_bytes (peek m1) 4098 2 = [0, 0]" "acc m1 = acc m"
    using seed_mock [OF a] by blast
  have hb: "length ?hb = 16" by (simp add: blk_request_hdr_bytes_def)
  have a1: "acc m1 0 0x8000" using a m1(4) by simp
  obtain m3 where m3: "write_all_at G ((HEADER_ADDR, ?hb) # ?ws) m1 = Some m3" "acc m3 = acc m1"
      "peek_bytes (peek m3) 0x100 16 = ?hb" "peek_bytes (peek m3) 4098 2 = [0, 0]"
    using blk_seed_memory [OF a1 m1(3) hb] by blast
  have a3: "acc m3 0 0x8000" using a1 m3(2) by simp
  let ?ds = "map split_of_fuzzing blk_descriptors"
  have l: "length ?ds = 4" "?ds \<noteq> []" "sum_list (map (\<lambda>d. unat (sd_len d)) ?ds) < 2 ^ 32"
    by (simp_all add: blk_descriptors_def split_of_fuzzing_def seed_defs)
  from seed_built [OF m1(2) a3 m3(4), of "[?ds]" blk_descriptors] blk_chain_linked l
  obtain m4 c where m4: "build_multiple_desc_chains G m3 mq (map raw_of_fuzzing blk_descriptors) = Some (m4, Inr c)"
      "acc m4 = acc m3" "chain_collect G m4 c = ?ds"
      "\<forall>i n. 64 \<le> i \<longrightarrow> i + n \<le> 4096 \<longrightarrow> peek_bytes (peek m4) (of_nat i) n = peek_bytes (peek m3) (of_nat i) n"
    by auto
  have "acc m4 0x100 16" using acc_sub [OF a3, of "0x100" 16] m4(2) by simp
  from read_law [OF this] have r: "gm_read_slice G m4 0x100 16 = Inr ?hb"
    using m3(3) m4(4) [rule_format, of "0x100" 16] by simp
  have "acc m4 0x5000 1" using acc_sub [OF a3, of "0x5000" 1] m4(2) by simp
  then have "gm_check_address G m4 0x5000 \<noteq> None" by (rule chk) simp
  then have "snd (blk_parse G m4 c) = Inr \<lparr>rq_request_type = RtIn, rq_data = map (\<lambda>a. (a, 0x1000)) REQ_DATA_ADDRS,
      rq_sector = 1, rq_status_addr = REQ_STATUS_ADDR\<rparr>"
    unfolding blk_parse_descs m4(3) using r
    by (simp add: parse_descs_def blk_descriptors_def split_of_fuzzing_def flag_simps seed_defs vring_flag_defs
        request_header_bytes request_type_from_def blk_type_defs)
  then show ?thesis
    using m1(1) m3(1) m4(1)
    by (cases "blk_parse G m4 c") (auto simp: blk_descriptor_chain_input_def total_data_len_def REQ_DATA_ADDRS_def SEED_DESC_LEN_def)
qed

end

section \<open>The seeds in the targets\<close>

text \<open>A seed that is written to its file is what the target decodes from the file.\<close>

lemma seed_reaches_target:
  assumes "serialize inp = Some bytes" and "deserialize bytes = Some inp"
  shows "\<exists>fs'. write_seed serialize deserialize dir target name inp fs = Some fs' \<and>
    cf_files fs' (snd (create_corpus_file dir target name fs)) = Some bytes \<and>
    fuzz_target deserialize run bytes = map_option Some (run inp)"
  using assms by (simp add: write_seed_def fuzz_target_def create_corpus_file_def Let_def)

context guest_mem
begin

lemma fuzz_chain_head:
  assumes p: "mock_placed mq 0x1000 256" "acc m 0x1000 (19 * unat (256 :: u16) + 16)"
      "peek_bytes (peek m) (0x1000 + of_nat (16 * unat (256 :: u16)) + 2) 2 = [0, 0]"
    and d: "ds = d # ds'" "length ds \<le> 256" "\<forall>d\<in>set ds. \<not> refers_to_indirect_table (split_of_fuzzing d)"
      "sum_list (map (\<lambda>d. unat (fd_len d)) ds) < 2 ^ 32"
  shows "\<exists>m' c sd rest. build_desc_chain G m mq (map raw_of_fuzzing ds) = Some (m', Inr c) \<and> acc m' = acc m \<and>
    chain_collect G m' c = sd # rest \<and> sd_addr sd = fd_addr d"
proof -
  obtain q0 where q0: "queue_new (256 :: u16) = Inr q0" using that by (simp add: queue_new_Inr MAX_QUEUE_SIZE_def pow2_check_def)
  have "split_of_raw (raw_of_fuzzing x) = split_of_fuzzing x" "sd_len (split_of_fuzzing x) = fd_len x"
    "sd_addr (split_of_fuzzing x) = fd_addr x" for x
    by (simp_all add: raw_of_fuzzing_def split_of_fuzzing_def split_desc_new_def)
  note this [simp]
  obtain m' c where "build_desc_chain G m mq (map raw_of_fuzzing ds) = Some (m', Inr c)" "acc m' = acc m"
      "map (\<lambda>d. (sd_addr d, sd_len d, is_write_only d)) (chain_collect G m' c) =
        map (\<lambda>d. (sd_addr d, sd_len d, is_write_only d)) (map split_of_fuzzing ds)"
    using build_desc_chain_ok [OF p(1,2) _ q0 p(3), of "map raw_of_fuzzing ds"] d by (auto simp: comp_def)
  with d(1) show ?thesis by (cases "chain_collect G m' c") auto
qed

lemma vsock_seed_unmapped:
  assumes a: "acc m 0x1000 0x10000" and un: "\<And>m'. acc m' = acc m \<Longrightarrow> \<exists>e. gm_get_slice G m' HEADER_WRITE_ADDR PKT_HEADER_SIZE = Inl e"
    and ds: "vsi_descriptors inp = packet_descriptors direction" "direction = 0 \<or> direction = 2"
  shows "\<exists>m'. fuzz_vsock G m inp = Some (None, m')"
proof -
  obtain mq m1 where c: "mock_create G m 0x1000 DEFAULT_QUEUE_SIZE = Some (mq, m1)" "acc m1 = acc m" and p: "mock_placed mq 0x1000 256"
      "acc m1 0x1000 (19 * unat (256 :: u16) + 16)"
      "peek_bytes (peek m1) (0x1000 + of_nat (16 * unat (256 :: u16)) + 2) 2 = [0, 0]"
    using fuzz_mock_create [OF a] by blast
  obtain m2 ch sd rest where b: "build_desc_chain G m1 mq (map raw_of_fuzzing (vsi_descriptors inp)) = Some (m2, Inr ch)"
      "acc m2 = acc m1" "chain_collect G m2 ch = sd # rest" "sd_addr sd = HEADER_WRITE_ADDR"
    using fuzz_chain_head [OF p, of "packet_descriptors direction"] ds
    by (auto simp: packet_descriptors_def split_of_fuzzing_def flag_simps vring_flag_defs)
  obtain e where e: "gm_get_slice G m2 HEADER_WRITE_ADDR PKT_HEADER_SIZE = Inl e" using un [of m2] b(2) c(2) by auto
  have "snd (from_tx_virtq_chain G m2 ch n) \<noteq> Inr pkt" "snd (from_rx_virtq_chain G m2 ch n) \<noteq> Inr pkt" for n pkt
    using from_tx_sound [of G m2 ch n _ pkt] from_rx_sound [of G m2 ch n _ pkt] b(3,4) e
    by (metis Inl_Inr_False list.inject prod.collapse)+
  then show ?thesis
    using c(1) b(1) by (auto simp: fuzz_vsock_def split: init_function.splits sum.splits)
qed

lemma blk_seed_unmapped:
  assumes a: "acc m 0x1000 0x10000" and un: "\<And>m'. acc m' = acc m \<Longrightarrow> \<exists>e. gm_read_slice G m' HEADER_ADDR 16 = Inl e"
    and ds: "bi_descriptors inp = blk_descriptors" "bi_guestmem inp = []" "bi_device_id inp = Some dev"
    and sb: "stdio_backend_new V memfile (bi_features inp) = Inr sb"
  shows "\<exists>m'. fuzz_blk G V memfile m inp = Some (with_device_id sb dev, m')"
proof -
  obtain mq m1 where c: "mock_create G m 0x1000 DEFAULT_QUEUE_SIZE = Some (mq, m1)" "acc m1 = acc m" and p: "mock_placed mq 0x1000 256"
      "acc m1 0x1000 (19 * unat (256 :: u16) + 16)"
      "peek_bytes (peek m1) (0x1000 + of_nat (16 * unat (256 :: u16)) + 2) 2 = [0, 0]"
    using fuzz_mock_create [OF a] by blast
  obtain m2 ch sd rest where b: "build_desc_chain G m1 mq (map raw_of_fuzzing (bi_descriptors inp)) = Some (m2, Inr ch)"
      "acc m2 = acc m1" "chain_collect G m2 ch = sd # rest" "sd_addr sd = HEADER_ADDR"
    using fuzz_chain_head [OF p, of blk_descriptors] ds(1)
    by (auto simp: blk_descriptors_def split_of_fuzzing_def flag_simps vring_flag_defs seed_defs)
  obtain e where "gm_read_slice G m2 HEADER_ADDR 16 = Inl e" using un [of m2] b(2) c(2) by auto
  then have "\<exists>e. snd (blk_parse G m2 ch) = Inl e" unfolding blk_parse_descs b(3) by (simp add: parse_descs_def b(4))
  then show ?thesis using c(1) b(1) ds(2,3) sb by (auto simp: fuzz_blk_def)
qed

end

end
