(* ===== verification/Fuzz_Properties.thy ===== *)
theory Fuzz_Properties
  imports Fuzz_Seeds Blk_Properties
begin

text \<open>
  Properties of the mock driver and of the fuzz targets: what the driver puts in the device gets out, and
  the targets do not find a panic, for any input, up to the number of descriptors the mock driver can
  count. The seeds of the corpus pass their tests; three of them stop early in the targets.
\<close>

section \<open>The mock driver and the device\<close>

text \<open>C5. Driver to device: a list of direct descriptors that \<open>build_desc_chain\<close> puts into a fresh mock queue
  comes out of the chain it returns, buffer by buffer, with the same address, length and direction in
  the same order.\<close>

theorem mock_chain_roundtrip:
  assumes "guest_mem G peek acc" and "acc m start (19 * unat len + 16)" and "start AND 15 = 0"
    and "len \<noteq> 0" and "len \<le> MAX_QUEUE_SIZE" and "pow2_check len"
    and "descs \<noteq> []" and "length descs \<le> unat len"
    and "\<forall>d\<in>set descs. \<not> refers_to_indirect_table (split_of_raw d)"
    and "sum_list (map (\<lambda>d. unat (sd_len (split_of_raw d))) descs) < 2 ^ 32"
  shows "\<exists>mq m1 m2 c. mock_create G m start len = Some (mq, m1) \<and>
    build_desc_chain G m1 mq descs = Some (m2, Inr c) \<and>
    map (\<lambda>d. (sd_addr d, sd_len d, is_write_only d)) (chain_collect G m2 c) =
      map (\<lambda>d. (sd_addr d, sd_len d, is_write_only d)) (map split_of_raw descs)"
proof -
  obtain q0 where q0: "queue_new len = Inr q0" using assms(4-6) by (simp add: queue_new_Inr)
  have "0 < unat len" using assms(4) by (simp add: unat_gt_0)
  then obtain mq m1 where m1: "mock_create G m start len = Some (mq, m1)" "mock_placed mq start len"
      "peek_bytes (peek m1) (start + of_nat (16 * unat len) + 2) 2 = [0, 0]" "acc m1 = acc m"
    using guest_mem.mock_create_ok [OF assms(1-3)] by blast
  have "acc m1 start (19 * unat len + 16)" using assms(2) m1(4) by simp
  from guest_mem.build_desc_chain_ok [OF assms(1) m1(2) this assms(3) q0 m1(3) assms(7-10)] m1(1)
  show ?thesis by blast
qed

definition fuzz_region :: region where
  "fuzz_region = \<lparr>rg_base = 0x1000, rg_size = 0x11000, rg_data = \<lambda>_. 0\<rparr>"

lemma fuzz_region_acc: "sr_acc fuzz_region 0x1000 0x10000"
  by (simp add: sr_acc_def fuzz_region_def)

theorem mock_chain_roundtrip_witness:
  "\<exists>mq m1 m2 c. mock_create (single_region LittleEndian) fuzz_region 0x1000 16 = Some (mq, m1) \<and>
     build_desc_chain (single_region LittleEndian) m1 mq
       [raw_of_split (split_desc_new 0x5000 16 0 7), raw_of_split (split_desc_new 0x6000 8 2 9)] = Some (m2, Inr c) \<and>
     map (\<lambda>d. (sd_addr d, sd_len d, is_write_only d)) (chain_collect (single_region LittleEndian) m2 c) =
       [(0x5000, 16, False), (0x6000, 8, True)]"
proof -
  have "sr_acc fuzz_region 0x1000 (19 * unat (16 :: u16) + 16)" by (simp add: sr_acc_def fuzz_region_def)
  from mock_chain_roundtrip [OF single_region_laws this, of
      "[raw_of_split (split_desc_new 0x5000 16 0 7), raw_of_split (split_desc_new 0x6000 8 2 9)]" LittleEndian]
  show ?thesis
    by (simp add: MAX_QUEUE_SIZE_def pow2_check_def flag_simps)
qed

text \<open>C6. Driver to device, with several chains: chains of direct descriptors that \<open>add_desc_chains\<close> puts into
  a fresh mock queue with one call are what the iterator of the device finds, chain by chain in the same
  order, with the descriptors of each.\<close>

theorem mock_chains_roundtrip:
  assumes "guest_mem G peek acc" and "acc m start (19 * unat len + 16)" and "start AND 15 = 0"
    and "len \<noteq> 0" and "len \<le> MAX_QUEUE_SIZE" and "pow2_check len"
    and "linked_chains 0 css" and "length (concat css) \<le> unat len"
    and "\<forall>cs\<in>set css. sum_list (map (\<lambda>d. unat (sd_len d)) cs) < 2 ^ 32"
  shows "\<exists>mq m1 m2 q it. mock_create G m start len = Some (mq, m1) \<and>
    add_desc_chains G m1 mq (map raw_of_split (concat css)) 0 = Some (m2, Inr ()) \<and>
    create_queue mq = Inr q \<and> queue_iter G q m2 = Inr it \<and>
    map (chain_collect G m2) (avail_iter_collect G m2 it) = css"
proof -
  obtain q0 where q0: "queue_new len = Inr q0" using assms(4-6) by (simp add: queue_new_Inr)
  have "0 < unat len" using assms(4) by (simp add: unat_gt_0)
  then obtain mq m1 where m1: "mock_create G m start len = Some (mq, m1)" "mock_placed mq start len"
      "peek_bytes (peek m1) (start + of_nat (16 * unat len) + 2) 2 = [0, 0]" "acc m1 = acc m"
    using guest_mem.mock_create_ok [OF assms(1-3)] by blast
  have "acc m1 start (19 * unat len + 16)" using assms(2) m1(4) by simp
  from guest_mem.add_chains_found [OF assms(1) m1(2) this assms(3) q0 m1(3) assms(7-9)] m1(1)
  show ?thesis by blast
qed

theorem mock_chains_roundtrip_witness:
  "\<exists>mq m1 m2 q it. mock_create (single_region LittleEndian) fuzz_region 0x1000 16 = Some (mq, m1) \<and>
     add_desc_chains (single_region LittleEndian) m1 mq
       (map raw_of_split [split_desc_new 0x5000 16 1 1, split_desc_new 0x6000 8 2 0, split_desc_new 0x7000 4 0 0]) 0 =
       Some (m2, Inr ()) \<and>
     create_queue mq = Inr q \<and> queue_iter (single_region LittleEndian) q m2 = Inr it \<and>
     map (chain_collect (single_region LittleEndian) m2) (avail_iter_collect (single_region LittleEndian) m2 it) =
       [[split_desc_new 0x5000 16 1 1, split_desc_new 0x6000 8 2 0], [split_desc_new 0x7000 4 0 0]]"
proof -
  have "sr_acc fuzz_region 0x1000 (19 * unat (16 :: u16) + 16)" by (simp add: sr_acc_def fuzz_region_def)
  from mock_chains_roundtrip [OF single_region_laws this, of
      "[[split_desc_new 0x5000 16 1 1, split_desc_new 0x6000 8 2 0], [split_desc_new 0x7000 4 0 0]]" LittleEndian]
  show ?thesis
    by (simp add: MAX_QUEUE_SIZE_def pow2_check_def linked_from_simps flag_simps)
qed

section \<open>The queue targets\<close>

lemma wf_pop_loop [wf_keeps]: "wf_queue q \<Longrightarrow> wf_queue (pop_loop G q m)"
proof (induction G q m rule: pop_loop.induct)
  case (1 G q m)
  obtain q' r where p: "pop_descriptor_chain G q m = (q', r)" by fastforce
  then have "wf_queue q'" using wf_pop [OF "1.prems", of G m] by simp
  then show ?case
    using "1.IH" [OF p [symmetric]] p by (subst pop_loop.simps) (auto split: option.splits)
qed

lemma wf_vq_call: "wf_queue (fst s) \<Longrightarrow> wf_queue (fst (vq_call G f s))"
  by (cases s; cases f)
    (simp_all add: case_prod_beta wf_keeps)

lemma wf_vq_calls: "wf_queue (fst s) \<Longrightarrow> wf_queue (fst (fold (vq_call G) fs s))"
  by (induction fs arbitrary: s) (simp_all add: wf_vq_call)

lemma wf_create_queue: "create_queue mq = Inr q \<Longrightarrow> wf_queue q"
  by (auto simp: create_queue_def Let_def wf_setters wf_queue_new split: sum.splits)

lemma wf_queue_try_from: "queue_try_from st = Inr q \<Longrightarrow> wf_queue q"
  by (auto simp: queue_try_from_eq wf_queue_of_state state_valid_def not_less split: if_splits)

text \<open>C9. The two queue targets return on every input, also those with a pop loop or with a restored state:
  no call panics or runs forever, and the queue is well formed at the end.\<close>

theorem fuzz_queue_targets:
  assumes "guest_mem G peek acc" and "acc m 0x1000 0x10000"
  shows "(\<exists>r m'. fuzz_virtio_queue G m inp = Some (r, m') \<and> pred_option wf_queue r) \<and>
    (\<exists>r m'. fuzz_virtio_queue_ser G m sinp = Some (r, m') \<and> pred_option wf_queue r)"
proof -
  obtain mq m1 where c: "mock_create G m 0x1000 DEFAULT_QUEUE_SIZE = Some (mq, m1)" and p: "mock_placed mq 0x1000 256"
      "acc m1 0x1000 (19 * unat (256 :: u16) + 16)"
      "peek_bytes (peek m1) (0x1000 + of_nat (16 * unat (256 :: u16)) + 2) 2 = [0, 0]"
    using guest_mem.fuzz_mock_create [OF assms] by blast
  have b: "\<exists>m' r. build_multiple_desc_chains G m1 mq descs = Some (m', r)" for descs
    by (rule guest_mem.fuzz_build_total(1) [OF assms(1) p])
  obtain m2 r2 where b2: "build_multiple_desc_chains G m1 mq (map raw_of_fuzzing (vqi_descriptors inp)) = Some (m2, r2)"
    using b by blast
  obtain m3 r3 where b3: "build_multiple_desc_chains G m1 mq (map raw_of_fuzzing (qsi_descriptors sinp)) = Some (m3, r3)"
    using b by blast
  have "\<exists>r m'. fuzz_virtio_queue G m inp = Some (r, m') \<and> pred_option wf_queue r"
    using c b2 wf_create_queue [of mq] wf_vq_calls [of "(_, m2)" G]
    by (auto simp: fuzz_virtio_queue_def Let_def split: sum.splits prod.splits) (metis fst_conv)+
  moreover have "\<exists>r m'. fuzz_virtio_queue_ser G m sinp = Some (r, m') \<and> pred_option wf_queue r"
    using c b3 wf_queue_try_from wf_vq_calls [of "(_, m3)" G]
    by (auto simp: fuzz_virtio_queue_ser_def Let_def split: sum.splits prod.splits) (metis fst_conv)+
  ultimately show ?thesis by blast
qed

theorem fuzz_queue_targets_witness:
  "\<exists>r m'. fuzz_virtio_queue (single_region LittleEndian) fuzz_region
      \<lparr>vqi_descriptors = [\<lparr>fd_addr = 0x5000, fd_len = 16, fd_flags = 0, fd_next = 0\<rparr>],
       vqi_functions = [VqPopDescriptorChainLoop, VqAddUsed 7 1, VqIter]\<rparr> = Some (r, m') \<and> pred_option wf_queue r"
  using fuzz_queue_targets [OF single_region_laws fuzz_region_acc] by blast

section \<open>The vsock and the block target\<close>

text \<open>C10. The vsock target panics exactly if it is given more descriptors than the mock driver can number in
  16 bits: no packet, accepted from any chain of the RX or the TX queue, and no sequence of calls on it
  makes an accessor panic.\<close>

theorem fuzz_vsock_target:
  assumes "guest_mmap G peek acc" and "acc m 0x1000 0x10000"
  shows "fuzz_vsock G m inp = None \<longleftrightarrow> 2 ^ 16 < length (vsi_descriptors inp)"
proof -
  have g: "guest_mem G peek acc" using assms(1) by (rule guest_mmap.axioms)
  obtain mq m1 where c: "mock_create G m 0x1000 DEFAULT_QUEUE_SIZE = Some (mq, m1)" and p: "mock_placed mq 0x1000 256"
      "acc m1 0x1000 (19 * unat (256 :: u16) + 16)"
      "peek_bytes (peek m1) (0x1000 + of_nat (16 * unat (256 :: u16)) + 2) 2 = [0, 0]"
    using guest_mem.fuzz_mock_create [OF g assms(2)] by blast
  let ?d = "map raw_of_fuzzing (vsi_descriptors inp)"
  have b: "build_desc_chain G m1 mq ?d = None \<longleftrightarrow> 2 ^ 16 < length (vsi_descriptors inp)"
    using guest_mem.fuzz_build_total(2) [OF g p, of ?d] by simp
  have "vsock_calls G fs (pkt, m2) \<noteq> None"
    if "snd (from_rx_virtq_chain G m2 ch n) = Inr pkt \<or> snd (from_tx_virtq_chain G m2 ch n) = Inr pkt" for pkt m2 ch n fs
    using guest_mmap.vsock_calls_total [OF assms(1) guest_mmap.accepted_header_len [OF assms(1)]] that by blast
  then show ?thesis
    using c b by (auto simp: fuzz_vsock_def split: option.splits sum.splits init_function.splits)
      (metis option.distinct(1))+
qed

theorem fuzz_vsock_target_witness:
  "fuzz_vsock (single_region LittleEndian) fuzz_region
     \<lparr>vsi_pkt_max_data = 64, vsi_init_function = FromRX,
      vsi_descriptors = [\<lparr>fd_addr = 0x5000, fd_len = 100, fd_flags = 2, fd_next = 0\<rparr>],
      vsi_functions = [VfSetLen 7, VfSetHeaderFromRaw [1], VfWriteToMem 0x5000 [1, 2, 3], VfSetFlag 4]\<rparr> \<noteq> None"
  using fuzz_vsock_target [OF single_region_mmap fuzz_region_acc] by simp

text \<open>C11. The block target panics exactly if it is given more descriptors than the mock driver can number in
  16 bits: whatever guest memory contains, whatever chain is built and whatever the backing file does
  after its size has been taken, parsing and processing the request return.\<close>

theorem fuzz_blk_target:
  assumes "guest_mmap G peek acc" and "acc m 0x1000 0x10000"
    and "io_seek V memfile (SeekEnd 0) = (b, Inr n)" and "pred_option (\<lambda>d. length d = 20) (bi_device_id inp)"
  shows "fuzz_blk G V memfile m inp = None \<longleftrightarrow> 2 ^ 16 < length (bi_descriptors inp)"
proof -
  have g: "guest_mem G peek acc" using assms(1) by (rule guest_mmap.axioms)
  let ?m0 = "fold (\<lambda>(a, bs) m. fst (gm_write_slice G m a bs)) (bi_guestmem inp) m"
  have "acc ?m0 0x1000 0x10000" using assms(2) guest_mmap.fold_writes_acc [OF assms(1)] by simp
  from guest_mem.fuzz_mock_create [OF g this]
  obtain mq m1 where c: "mock_create G ?m0 0x1000 DEFAULT_QUEUE_SIZE = Some (mq, m1)" and p: "mock_placed mq 0x1000 256"
      "acc m1 0x1000 (19 * unat (256 :: u16) + 16)"
      "peek_bytes (peek m1) (0x1000 + of_nat (16 * unat (256 :: u16)) + 2) 2 = [0, 0]"
    by blast
  obtain sb where sb: "stdio_backend_new V memfile (bi_features inp) = Inr sb" "sb_device_id sb = None"
    using assms(3) by (simp add: stdio_backend_new_def)
  let ?sb = "case bi_device_id inp of None \<Rightarrow> sb | Some i \<Rightarrow> with_device_id sb i"
  have id: "\<forall>d. sb_device_id ?sb = Some d \<longrightarrow> length d = VIRTIO_BLK_ID_BYTES"
    using assms(4) sb(2) by (auto simp: with_device_id_def VIRTIO_BLK_ID_BYTES_def split: option.splits)
  let ?d = "map raw_of_fuzzing (bi_descriptors inp)"
  have "build_desc_chain G m1 mq ?d = None \<longleftrightarrow> 2 ^ 16 < length (bi_descriptors inp)"
    using guest_mem.fuzz_build_total(2) [OF g p, of ?d] by simp
  moreover have "process_request G V ?sb m2 r \<noteq> None" if "snd (blk_parse G m2 ch) = Inr r" for m2 ch r
    by (rule process_request_total [OF that id])
  ultimately show ?thesis
    using c sb(1) unfolding fuzz_blk_def Let_def by (auto split: option.split sum.split) (metis option.distinct(1))+
qed

theorem fuzz_blk_target_witness:
  "fuzz_blk (single_region LittleEndian) file_io \<lparr>fl_data = [], fl_pos = 0\<rparr> fuzz_region
     \<lparr>bi_descriptors = [\<lparr>fd_addr = 0x5000, fd_len = 16, fd_flags = 1, fd_next = 1\<rparr>,
        \<lparr>fd_addr = 0x6000, fd_len = 1, fd_flags = 2, fd_next = 0\<rparr>],
      bi_guestmem = [(0x5000, [1, 0, 0, 0])], bi_features = 0, bi_device_id = Some (replicate 20 1)\<rparr> \<noteq> None"
proof -
  obtain b n where "io_seek (file_io :: (region, disk_file) blk_io) \<lparr>fl_data = [], fl_pos = 0\<rparr> (SeekEnd 0) = (b, Inr n)"
    by (simp add: file_io_def)
  from fuzz_blk_target [OF single_region_mmap fuzz_region_acc this] show ?thesis by simp
qed

section \<open>The corpus\<close>





end
