(* ===== verification/Bench_Queue.thy ===== *)
theory Bench_Queue
  imports Mock_Chains
begin

text \<open>
  The queue benchmarks of \<open>virtio-queue/benches/queue/mod.rs\<close>: a mock driver fills a queue with direct or
  indirect chains, the device walks over all of them and counts, or completes descriptors one after the
  other. What is measured is the time; the routines assert what they count, and a failed assertion or
  \<open>unwrap\<close> is the value \<open>None\<close>. The lemmas follow the chains from the mock driver's tables into the
  device's iterators.
\<close>

section \<open>The routines\<close>

text \<open>The loop over \<open>0..num_chains\<close>.\<close>

fun add_chains ::
    "'m guest_memory \<Rightarrow> 'm \<Rightarrow> mock_split_queue \<Rightarrow> nat \<Rightarrow> u16 \<Rightarrow> bool \<Rightarrow> (mock_split_queue \<times> 'm) option" where
  "add_chains G m mq 0 len indirect = Some (mq, m)"
| "add_chains G m mq (Suc n) len indirect =
     (if indirect
      then (case add_indirect_chain G m mq len of
              Some (mq', m', Inr _) \<Rightarrow> add_chains G m' mq' n len indirect
            | _ \<Rightarrow> None)
      else (case add_chain G m mq len of
              Some (m', Inr _) \<Rightarrow> add_chains G m' mq n len indirect
            | _ \<Rightarrow> None))"

definition queue_with_chains ::
    "'m guest_memory \<Rightarrow> 'm \<Rightarrow> nat \<Rightarrow> u16 \<Rightarrow> bool \<Rightarrow> (queue \<times> 'm) option" where
  "queue_with_chains G m num_chains len indirect =
     (case mock_new G m 256 of
        None \<Rightarrow> None
      | Some (mq, m1) \<Rightarrow>
          (case add_chains G m1 mq num_chains len indirect of
             None \<Rightarrow> None
           | Some (mq', m2) \<Rightarrow> (case create_queue mq' of Inl _ \<Rightarrow> None | Inr q \<Rightarrow> Some (q, m2))))"

definition empty_queue :: "'m guest_memory \<Rightarrow> 'm \<Rightarrow> (queue \<times> 'm) option" where
  "empty_queue G m =
     (case mock_new G m 256 of
        None \<Rightarrow> None
      | Some (mq, m1) \<Rightarrow> (case create_queue mq of Inl _ \<Rightarrow> None | Inr q \<Rightarrow> Some (q, m1)))"

definition walk_queue :: "'m guest_memory \<Rightarrow> queue \<Rightarrow> 'm \<Rightarrow> (nat \<times> nat) option" where
  "walk_queue G q m =
     (case queue_iter G q m of
        Inl _ \<Rightarrow> None
      | Inr it \<Rightarrow>
          Some (foldl (\<lambda>(num_chains, num_descriptors) chain.
                  (num_chains + 1, foldl (\<lambda>k _. k + 1) num_descriptors (chain_collect G m chain)))
                (0, 0) (avail_iter_collect G m it)))"

definition bench_chains :: "'m guest_memory \<Rightarrow> 'm \<Rightarrow> nat \<Rightarrow> u16 \<Rightarrow> bool \<Rightarrow> nat \<Rightarrow> nat \<Rightarrow> 'm option" where
  "bench_chains G m num_chains len indirect expected_chains expected_descs =
     (case queue_with_chains G m num_chains len indirect of
        None \<Rightarrow> None
      | Some (q, m') \<Rightarrow>
          (case walk_queue G q m' of
             None \<Rightarrow> None
           | Some (c, d) \<Rightarrow> if c = expected_chains \<and> d = expected_descs then Some m' else None))"

fun add_used_loop :: "'m guest_memory \<Rightarrow> queue \<Rightarrow> 'm \<Rightarrow> nat \<Rightarrow> (queue \<times> 'm) option" where
  "add_used_loop G q m 0 = Some (q, m)"
| "add_used_loop G q m (Suc n) =
     (case add_used G q m 123 0x1000 of
        (q', m', Inr _) \<Rightarrow> add_used_loop G q' m' n
      | _ \<Rightarrow> None)"

definition bench_add_used :: "'m guest_memory \<Rightarrow> 'm \<Rightarrow> (queue \<times> 'm) option" where
  "bench_add_used G m =
     (case empty_queue G m of None \<Rightarrow> None | Some (q, m') \<Rightarrow> add_used_loop G q m' 128)"

text \<open>One iteration of each benchmark, one after the other: the memory keeps what earlier iterations wrote.\<close>

definition benchmark_queue :: "'m guest_memory \<Rightarrow> 'm \<Rightarrow> 'm option" where
  "benchmark_queue G m0 =
     Option.bind (bench_chains G m0 1 128 False 1 128) (\<lambda>m1.
     Option.bind (bench_chains G m1 128 1 False 128 128) (\<lambda>m2.
     Option.bind (bench_chains G m2 1 128 True 1 128) (\<lambda>m3.
     Option.bind (bench_chains G m3 128 1 True 128 128) (\<lambda>m4.
     map_option snd (bench_add_used G m4)))))"

section \<open>The chains the mock driver builds\<close>

text \<open>The descriptors of a chain of \<open>n\<close> entries from entry 0 on.\<close>

definition mock_chain :: "nat \<Rightarrow> split_desc list" where
  "mock_chain n = map (chain_desc (map of_nat [0..<n])) [0..<n]"

lemma length_mock_chain [simp]: "length (mock_chain n) = n"
  by (simp add: mock_chain_def)

lemma linked_mock_chain: "n \<le> 2 ^ 16 \<Longrightarrow> linked_from 0 (mock_chain n)"
  by (auto simp: linked_from_def mock_chain_def chain_desc_def split_desc_new_def split_set_flags_def
      split_set_next_def Let_def desc_flags_bit vring_flag_defs bit_simps)

lemma mock_chain_bytes: "map (\<lambda>d. unat (sd_len d)) (mock_chain n) = replicate n 0x1000"
  by (rule nth_equalityI) (simp_all add: mock_chain_def chain_desc_def split_desc_new_def split_set_flags_def
      split_set_next_def Let_def)

context guest_mem
begin

lemma build_chain_loop_ok:
  assumes "acc m tbl (16 * unat ts)" and "j \<le> n" and "n \<le> unat ts"
  shows "\<exists>m'. build_chain_loop G m (descriptor_table_new tbl ts) (map of_nat [0..<n]) [j..<n] = Some (m', Inr ()) \<and>
    peek m' = poke_table (peek m) tbl j (map split_desc_bytes (drop j (mock_chain n))) \<and> acc m' = acc m"
  using assms
proof (induction "n - j" arbitrary: j m)
  case (Suc k)
  then have j: "j < n" by simp
  then have "j < unat ts" using Suc.prems(3) by simp
  then have u: "unat (of_nat j :: u16) = j" using less_trans [OF _ unat_u16_bound] by (intro unat_of_nat_less) simp
  let ?d = "mock_chain n ! j"
  have d: "chain_desc (map of_nat [0..<n]) j = ?d" using j by (simp add: mock_chain_def)
  obtain m1 where m1: "table_store G m (descriptor_table_new tbl ts) (of_nat j) (raw_of_split ?d) = Some (m1, Inr ())"
      "peek m1 = poke (peek m) (tbl + of_nat (16 * j)) (split_desc_bytes ?d)" "acc m1 = acc m"
    using table_store_at [OF Suc.prems(1), of "of_nat j" "raw_of_split ?d"] j u Suc.prems(3)
    by (auto simp: raw_of_split_def split_desc_bytes_def)
  have "k = n - Suc j" using Suc.hyps(2) by simp
  from Suc.hyps(1) [OF this, of m1] Suc.prems m1(3) j
  obtain m' where "build_chain_loop G m1 (descriptor_table_new tbl ts) (map of_nat [0..<n]) [Suc j..<n] = Some (m', Inr ())"
      "peek m' = poke_table (peek m1) tbl (Suc j) (map split_desc_bytes (drop (Suc j) (mock_chain n)))" "acc m' = acc m1"
    by auto
  moreover have "[j..<n] = j # [Suc j..<n]" "drop j (mock_chain n) = ?d # drop (Suc j) (mock_chain n)"
    using j by (simp_all add: upt_conv_Cons Cons_nth_drop_Suc)
  ultimately show ?case using m1 d j by simp
qed simp

text \<open>\<open>build_chain\<close> writes a linked chain to the start of the table, and nothing else.\<close>

lemma build_chain_ok:
  assumes a: "acc m tbl (16 * unat ts)" and n: "0 < unat len" "unat len \<le> unat ts"
  shows "\<exists>m'. build_chain G m (descriptor_table_new tbl ts) len = Some (m', Inr 0) \<and> acc m' = acc m \<and>
    (\<forall>k < unat len. peek_bytes (peek m') (tbl + of_nat (16 * k)) 16 = split_desc_bytes (mock_chain (unat len) ! k)) \<and>
    (\<forall>b k. disjoint_ranges b k tbl (16 * unat len) \<longrightarrow> unat b + k \<le> 2 ^ 64 \<longrightarrow>
       peek_bytes (peek m') b k = peek_bytes (peek m) b k)"
proof -
  let ?n = "unat len"
  have i: "take ?n (rev (dt_free_descriptors (descriptor_table_new tbl ts))) = map of_nat [0..<?n]"
    using n(2) by (simp add: descriptor_table_new_def take_map)
  obtain m' where m': "build_chain_loop G m (descriptor_table_new tbl ts) (map of_nat [0..<?n]) [0..<?n] = Some (m', Inr ())"
      "peek m' = poke_table (peek m) tbl 0 (map split_desc_bytes (mock_chain ?n))" "acc m' = acc m"
    using build_chain_loop_ok [OF a _ n(2), of 0] by auto
  have "build_chain G m (descriptor_table_new tbl ts) len = Some (m', Inr 0)"
    using n(1) m'(1) by (simp add: build_chain_def Let_def i upt_conv_Cons)
  moreover have nw: "\<forall>b\<in>set (map split_desc_bytes (mock_chain ?n)). length b = 16"
      "unat tbl + 16 * (0 + length (map split_desc_bytes (mock_chain ?n))) < 2 ^ 64"
    using acc_no_wrap [OF a] n(2) by auto
  ultimately show ?thesis
    using m'(2,3) poke_table_entry [OF nw, where f = "peek m"] poke_table_frame [OF nw, where f = "peek m"]
    by (simp del: of_nat_add of_nat_mult)
qed

end

text \<open>The table at \<open>tbl\<close> starts with the descriptors \<open>ds\<close>.\<close>

definition table_holds :: "(u64 \<Rightarrow> byte) \<Rightarrow> u64 \<Rightarrow> split_desc list \<Rightarrow> bool" where
  "table_holds f tbl ds \<longleftrightarrow>
     (\<forall>k < length ds. peek_bytes f (tbl + of_nat (16 * k)) 16 = split_desc_bytes (ds ! k))"

lemma table_holds_frame:
  assumes "table_holds f tbl ds" and "unat tbl + 16 * length ds \<le> 2 ^ 64"
    and "\<And>b n. unat tbl \<le> unat b \<Longrightarrow> unat b + n \<le> unat tbl + 16 * length ds \<Longrightarrow> peek_bytes g b n = peek_bytes f b n"
  shows "table_holds g tbl ds"
  unfolding table_holds_def
proof (intro allI impI)
  fix k assume k: "k < length ds"
  then have "unat (tbl + of_nat (16 * k)) = unat tbl + 16 * k" using assms(2) by (intro unat_add_of_nat) simp
  with k assms(3) [of "tbl + of_nat (16 * k)" 16] assms(1)
  show "peek_bytes g (tbl + of_nat (16 * k)) 16 = split_desc_bytes (ds ! k)"
    by (simp add: table_holds_def del: of_nat_mult)
qed

text \<open>The available ring after \<open>k\<close> chains with head 0 were published.\<close>

abbreviation heads_published :: "(u64 \<Rightarrow> byte) \<Rightarrow> u64 \<Rightarrow> nat \<Rightarrow> bool" where
  "heads_published f av k \<equiv> ring_published f av (replicate k 0)"

lemma heads_published_iff:
  "heads_published f av k \<longleftrightarrow> peek_bytes f (av + of_nat 2) 2 = le_bytes 2 (of_nat k :: u16) \<and>
     (\<forall>j < k. peek_bytes f (av + of_nat (4 + 2 * j)) 2 = [0, 0])"
proof -
  have "le_bytes 2 (0 :: u16) = [0, 0]" by (simp add: le_bytes_def upt_rec)
  then show ?thesis by (simp add: ring_published_def del: of_nat_add of_nat_mult)
qed

lemma heads_published_poke:
  assumes h: "heads_published f av k" and nw: "unat av + (6 + 2 * k) < 2 ^ 64"
  shows "heads_published (poke (poke f (av + of_nat (4 + 2 * k)) [0, 0]) (av + of_nat 2) (le_bytes 2 (of_nat (Suc k) :: u16)))
    av (Suc k)" (is "heads_published ?f _ _")
proof -
  have "peek_bytes ?f (av + of_nat (4 + 2 * j)) 2 = [0, 0]" if "j < Suc k" for j
  proof -
    have "peek_bytes ?f (av + of_nat (4 + 2 * j)) 2 =
        peek_bytes (poke f (av + of_nat (4 + 2 * k)) [0, 0]) (av + of_nat (4 + 2 * j)) 2"
      using nw that by (intro peek_field_poke_other) simp_all
    also have "\<dots> = [0, 0]"
    proof (cases "j = k")
      case False
      then have "peek_bytes (poke f (av + of_nat (4 + 2 * k)) [0, 0]) (av + of_nat (4 + 2 * j)) 2 =
          peek_bytes f (av + of_nat (4 + 2 * j)) 2"
        using nw that by (intro peek_field_poke_other) simp_all
      with False that h show ?thesis by (simp add: heads_published_iff del: of_nat_add of_nat_mult)
    qed (simp add: peek_field_poke_same del: of_nat_add of_nat_mult)
    finally show ?thesis .
  qed
  then show ?thesis
    unfolding heads_published_iff by (simp add: peek_field_poke_same del: of_nat_add of_nat_mult of_nat_Suc)
qed

lemma heads_published_frame:
  assumes "heads_published f av k" and "peek_bytes g av (4 + 2 * k) = peek_bytes f av (4 + 2 * k)"
  shows "heads_published g av k"
proof -
  have "peek_bytes g (av + of_nat i) 2 = peek_bytes f (av + of_nat i) 2" if "i + 2 \<le> 4 + 2 * k" for i
  proof (rule nth_equalityI)
    fix j assume "j < length (peek_bytes g (av + of_nat i) 2)"
    then show "peek_bytes g (av + of_nat i) 2 ! j = peek_bytes f (av + of_nat i) 2 ! j"
      using arg_cong [OF assms(2), of "\<lambda>xs. xs ! (i + j)"] that by (simp add: add.assoc)
  qed simp
  from this [of 2] this [of "4 + 2 * _"] assms(1) show ?thesis
    by (simp add: heads_published_iff del: of_nat_add of_nat_mult)
qed

context guest_mem
begin

lemma update_avail_idx_ok:
  assumes mq: "mock_placed mq start len" and a: "acc m start (19 * unat len + 16)" and k: "k < unat len"
    and h: "heads_published (peek m) (start + of_nat (16 * unat len)) k" and e: "gm_endian G = LittleEndian"
  shows "\<exists>m'. update_avail_idx G m mq 0 = Some (m', Inr ()) \<and> acc m' = acc m \<and>
    heads_published (peek m') (start + of_nat (16 * unat len)) (Suc k) \<and>
    (\<forall>b n. disjoint_ranges b n (start + of_nat (16 * unat len)) (6 + 2 * unat len) \<longrightarrow> unat b + n \<le> 2 ^ 64 \<longrightarrow>
       peek_bytes (peek m') b n = peek_bytes (peek m) b n)"
proof -
  let ?av = "start + of_nat (16 * unat len)"
  let ?n = "6 + 2 * unat len"
  have aa: "acc m ?av ?n" using a by (rule acc_sub) (use k in simp)
  have kb: "unat (of_nat k :: u16) = k" using less_trans [OF k unat_u16_bound] by (intro unat_of_nat_less) simp
  have pl: "sqr_idx (mk_avail mq) = ?av + of_nat 2"
      "sqr_ring (mk_avail mq) = \<lparr>ar_addr = ?av + 4, ar_len = unat len\<rparr>"
    using mq by (simp_all add: mock_placed_def)
  have "gm_read_slice G m (?av + of_nat 2) 2 = Inr (le_bytes 2 (of_nat k :: u16))"
    using read_law [OF acc_sub [OF aa, of 2 2]] h by (simp add: heads_published_iff del: of_nat_add of_nat_mult of_nat_numeral)
  then have idx: "ref_load_u16 G m (?av + of_nat 2) = Some (of_nat k)"
    by (simp add: ref_load_u16_def ref_load_def e native_word_def)
  have "unat (?av + 4) = unat ?av + 4" using acc_no_wrap [OF aa] unat_add_of_nat [of ?av 4] by simp
  then have at: "ref_at (sqr_ring (mk_avail mq)) 2 k = Some (Inr (?av + of_nat (4 + 2 * k)))"
    using k acc_no_wrap [OF aa] checked_add_of_nat [of "?av + 4" "k * 2"]
    by (simp add: ref_at_def pl(2) add.assoc mult.commute)
  have z: "native_bytes (gm_endian G) 2 (0 :: u16) = [0, 0]" by simp
  obtain m1 where m1: "ref_store G m (?av + of_nat (4 + 2 * k)) [0, 0] = Some m1"
      "peek m1 = poke (peek m) (?av + of_nat (4 + 2 * k)) [0, 0]" "acc m1 = acc m"
    using ref_store_ok [OF aa, of "4 + 2 * k" "[0, 0]"] k by auto
  have a1: "acc m1 ?av ?n" using aa m1(3) by simp
  let ?b = "le_bytes 2 (of_nat (Suc k) :: u16)"
  obtain m2 where m2: "ref_store G m1 (?av + of_nat 2) ?b = Some m2"
      "peek m2 = poke (peek m1) (?av + of_nat 2) ?b" "acc m2 = acc m1"
    using ref_store_ok [OF a1, of 2 ?b] by auto
  have "update_avail_idx G m mq 0 = Some (m2, Inr ())"
    using idx at kb m1(1) m2(1) z
    by (simp add: update_avail_idx_def pl(1) ref_store_u16_def e native_bytes_def add.commute [of 1] del: of_nat_add of_nat_mult)
  moreover have "heads_published (peek m2) ?av (Suc k)"
    unfolding m2(2) m1(2) using k acc_no_wrap [OF aa] by (intro heads_published_poke [OF h]) simp
  moreover have "peek_bytes (peek m2) b n = peek_bytes (peek m) b n"
    if "disjoint_ranges b n ?av ?n" and "unat b + n \<le> 2 ^ 64" for b n
    unfolding m2(2) m1(2) using that k acc_no_wrap [OF aa]
    by (simp add: peek_outside_poke_field [where n = ?n] del: of_nat_add of_nat_mult of_nat_numeral)
  ultimately show ?thesis using m1(3) m2(3) by simp
qed

lemma mock_avail_unat:
  assumes "acc m start (19 * unat len + 16)"
  shows "unat (start + of_nat (16 * unat len)) = unat start + 16 * unat len"
  using acc_no_wrap [OF assms] by (intro unat_add_of_nat) simp

text \<open>A chain added directly: it starts the table and its head is published.\<close>

lemma add_chain_ok:
  assumes mq: "mock_placed mq start len" and a: "acc m start (19 * unat len + 16)" and k: "k < unat len"
    and h: "heads_published (peek m) (start + of_nat (16 * unat len)) k" and e: "gm_endian G = LittleEndian"
    and l: "0 < unat l" "unat l \<le> unat len"
  shows "\<exists>m'. add_chain G m mq l = Some (m', Inr ()) \<and> acc m' = acc m \<and>
    heads_published (peek m') (start + of_nat (16 * unat len)) (Suc k) \<and> table_holds (peek m') start (mock_chain (unat l))"
proof -
  let ?av = "start + of_nat (16 * unat len)"
  note u = mock_avail_unat [OF a] and nw = acc_no_wrap [OF a]
  obtain m1 where m1: "build_chain G m (descriptor_table_new start len) l = Some (m1, Inr 0)" "acc m1 = acc m"
      "table_holds (peek m1) start (mock_chain (unat l))"
      "\<And>b n. disjoint_ranges b n start (16 * unat l) \<Longrightarrow> unat b + n \<le> 2 ^ 64 \<Longrightarrow> peek_bytes (peek m1) b n = peek_bytes (peek m) b n"
    using build_chain_ok [OF table_acc [OF a] l] by (auto simp: table_holds_def)
  have "heads_published (peek m1) ?av k"
    using h by (rule heads_published_frame) (use u nw k l(2) in \<open>auto intro!: m1(4) simp: disjoint_ranges_def\<close>)
  from update_avail_idx_ok [OF mq _ k this e] a m1(2)
  obtain m2 where m2: "update_avail_idx G m1 mq 0 = Some (m2, Inr ())" "acc m2 = acc m" "heads_published (peek m2) ?av (Suc k)"
      "\<And>b n. disjoint_ranges b n ?av (6 + 2 * unat len) \<Longrightarrow> unat b + n \<le> 2 ^ 64 \<Longrightarrow> peek_bytes (peek m2) b n = peek_bytes (peek m1) b n"
    by auto
  have "table_holds (peek m2) start (mock_chain (unat l))"
    using m1(3) by (rule table_holds_frame) (use u nw l(2) in \<open>auto intro!: m2(4) simp: disjoint_ranges_def\<close>)
  moreover have "mk_desc_table mq = descriptor_table_new start len" using mq by (simp add: mock_placed_def)
  ultimately show ?thesis using m1(1) m2 by (auto simp: add_chain_def)
qed

lemma add_chains_direct:
  assumes "mock_placed mq start len" and "acc m start (19 * unat len + 16)" and "k + n \<le> unat len"
    and "heads_published (peek m) (start + of_nat (16 * unat len)) k" and "gm_endian G = LittleEndian"
    and "0 < unat l" and "unat l \<le> unat len"
  shows "\<exists>m'. add_chains G m mq n l False = Some (mq, m') \<and> acc m' = acc m \<and>
    heads_published (peek m') (start + of_nat (16 * unat len)) (k + n) \<and>
    (0 < n \<or> table_holds (peek m) start (mock_chain (unat l)) \<longrightarrow> table_holds (peek m') start (mock_chain (unat l)))"
  using assms
proof (induction n arbitrary: m k)
  case (Suc n)
  from add_chain_ok [OF Suc.prems(1,2) _ Suc.prems(4-7)] Suc.prems(3) obtain m1 where
    m1: "add_chain G m mq l = Some (m1, Inr ())" "acc m1 = acc m"
      "heads_published (peek m1) (start + of_nat (16 * unat len)) (Suc k)" "table_holds (peek m1) start (mock_chain (unat l))"
    by auto
  with Suc.IH [of m1 "Suc k"] Suc.prems show ?case by simp
qed simp

text \<open>A chain added through an indirect table: entry 0 refers to the table at the current indirect address,
  which starts with the chain.\<close>

lemma round_up_16:
  assumes "unat (l :: u16) \<le> 256"
  shows "unat l \<le> unat (if l mod 16 = 0 then l else 16 * (l div 16 + 1))"
    and "unat (if l mod 16 = 0 then l else 16 * (l div 16 + 1)) \<le> 256"
    and "\<not> (l mod 16 \<noteq> 0 \<and> 16 * (unat l div 16 + 1) \<ge> 2 ^ 16)"
proof -
  have m: "unat (l mod 16) = unat l mod 16" "unat (l div 16) = unat l div 16" by (simp_all add: unat_mod unat_div)
  have z: "l mod 16 = 0 \<longleftrightarrow> unat l mod 16 = 0" by (metis m(1) unat_eq_zero)
  have r: "unat (16 * (l div 16 + 1)) = 16 * (unat l div 16 + 1)"
    using assms by (simp add: unat_word_ariths m)
  have "unat l = 256 \<or> unat l div 16 < 16" using assms by linarith
  then show "unat l \<le> unat (if l mod 16 = 0 then l else 16 * (l div 16 + 1))"
      "unat (if l mod 16 = 0 then l else 16 * (l div 16 + 1)) \<le> 256"
      "\<not> (l mod 16 \<noteq> 0 \<and> 16 * (unat l div 16 + 1) \<ge> 2 ^ 16)"
    using z r assms by (auto simp: not_le)
qed

lemma alloc_indirect_chain_ok:
  assumes l: "0 < unat l" "unat l \<le> 256" and a: "acc m (mk_indirect_addr mq) 4096"
  shows "\<exists>m' o'. alloc_indirect_chain G m mq l =
      Some (mq\<lparr>mk_indirect_addr := mk_indirect_addr mq + of_nat o'\<rparr>, m', Inr (mk_indirect_addr mq)) \<and>
    o' \<le> 4096 \<and> acc m' = acc m \<and> table_holds (peek m') (mk_indirect_addr mq) (mock_chain (unat l)) \<and>
    (\<forall>b k. disjoint_ranges b k (mk_indirect_addr mq) 4096 \<longrightarrow> unat b + k \<le> 2 ^ 64 \<longrightarrow>
       peek_bytes (peek m') b k = peek_bytes (peek m) b k)"
proof -
  let ?ia = "mk_indirect_addr mq"
  let ?ts = "if l mod 16 = 0 then l else 16 * (l div 16 + 1) :: u16"
  note ts = round_up_16 [OF l(2)]
  have at: "acc m ?ia (16 * unat ?ts)" using acc_sub [OF a, of 0 "16 * unat ?ts"] ts(2) by simp
  obtain m' where m': "build_chain G m (descriptor_table_new ?ia ?ts) l = Some (m', Inr 0)" "acc m' = acc m"
      "table_holds (peek m') ?ia (mock_chain (unat l))"
      "\<And>b k. disjoint_ranges b k ?ia (16 * unat l) \<Longrightarrow> unat b + k \<le> 2 ^ 64 \<Longrightarrow> peek_bytes (peek m') b k = peek_bytes (peek m) b k"
    using build_chain_ok [OF at l(1) ts(1)] by (auto simp: table_holds_def)
  have "checked_add ?ia (table_total_size (descriptor_table_new ?ia ?ts)) = Some (?ia + of_nat (unat ?ts * 16))"
    using checked_add_acc [OF at, of "16 * unat ?ts"]
    by (simp add: table_total_size_def descriptor_table_new_def mult.commute)
  then have "alloc_indirect_chain G m mq l =
      Some (mq\<lparr>mk_indirect_addr := ?ia + of_nat (unat ?ts * 16)\<rparr>, m', Inr ?ia)"
    using m'(1) ts(3) unfolding alloc_indirect_chain_def Let_def by (simp only: if_False option.case prod.case sum.case) simp
  moreover have "disjoint_ranges b k ?ia 4096 \<Longrightarrow> disjoint_ranges b k ?ia (16 * unat l)" for b k
    using l(2) by (auto simp: disjoint_ranges_def)
  ultimately show ?thesis using m' ts(2) by (intro exI [of _ m'] exI [of _ "unat ?ts * 16"]) auto
qed

lemma table_load_ok:
  assumes a: "acc m tbl (16 * unat ts)" and t: "0 < unat ts" and d: "table_holds (peek m) tbl (d # ds)"
  shows "table_load G m (descriptor_table_new tbl ts) 0 = Some (Inr (raw_of_split d))"
proof -
  have "acc m tbl 16" using acc_sub [OF a, of 0 16] t by simp
  moreover have "peek_bytes (peek m) tbl 16 = split_desc_bytes d" using d by (auto simp: table_holds_def)
  moreover have "raw_desc_of_bytes (split_desc_bytes d) = raw_of_split d"
    by (simp add: raw_desc_of_bytes_def split_desc_bytes_def raw_of_split_def)
  moreover have "checked_add tbl 0 = Some tbl" by (simp add: checked_add_def)
  ultimately show ?thesis
    using t read_law [of m tbl 16] by (simp add: table_load_def ref_at_def descriptor_table_new_def ref_load_def)
qed

lemma mock_chain_1: "mock_chain 1 = [\<lparr>sd_addr = 0x1000, sd_len = 0x1000, sd_flags = 0, sd_next = 0\<rparr>]"
  by (simp add: mock_chain_def chain_desc_def split_desc_new_def split_set_flags_def)

definition indirect_head :: "u64 \<Rightarrow> u16 \<Rightarrow> split_desc" where
  "indirect_head ia l = \<lparr>sd_addr = ia, sd_len = ucast l * 16, sd_flags = 4, sd_next = 0\<rparr>"

text \<open>Up to the available ring: the chain is in an indirect table, and entry 0 refers to it.\<close>

lemma indirect_entry_ok:
  assumes a: "acc m start (19 * unat len + 16)" and L: "0 < unat len" and l: "0 < unat l" "unat l \<le> 256"
    and i: "acc m (mk_indirect_addr mq) 4096" "unat start + 19 * unat len + 16 \<le> unat (mk_indirect_addr mq)"
  shows "\<exists>m1 m2 m3 o'. build_chain G m (descriptor_table_new start len) 1 = Some (m1, Inr 0) \<and>
    alloc_indirect_chain G m1 mq l =
      Some (mq\<lparr>mk_indirect_addr := mk_indirect_addr mq + of_nat o'\<rparr>, m2, Inr (mk_indirect_addr mq)) \<and> o' \<le> 4096 \<and>
    table_load G m2 (descriptor_table_new start len) 0 = Some (Inr (raw_of_split (hd (mock_chain 1)))) \<and>
    table_store G m2 (descriptor_table_new start len) 0 (raw_of_split (indirect_head (mk_indirect_addr mq) l)) =
      Some (m3, Inr ()) \<and> acc m3 = acc m \<and>
    table_holds (peek m3) start [indirect_head (mk_indirect_addr mq) l] \<and>
    table_holds (peek m3) (mk_indirect_addr mq) (mock_chain (unat l)) \<and>
    (\<forall>b n. disjoint_ranges b n start 16 \<longrightarrow> disjoint_ranges b n (mk_indirect_addr mq) 4096 \<longrightarrow> unat b + n \<le> 2 ^ 64 \<longrightarrow>
       peek_bytes (peek m3) b n = peek_bytes (peek m) b n)"
proof -
  let ?ia = "mk_indirect_addr mq" and ?dt = "descriptor_table_new start len"
  note nw = acc_no_wrap [OF a] acc_no_wrap [OF i(1)]
  obtain m1 where m1: "build_chain G m ?dt 1 = Some (m1, Inr 0)" "acc m1 = acc m" "table_holds (peek m1) start (mock_chain 1)"
      "\<And>b n. disjoint_ranges b n start 16 \<Longrightarrow> unat b + n \<le> 2 ^ 64 \<Longrightarrow> peek_bytes (peek m1) b n = peek_bytes (peek m) b n"
    using build_chain_ok [OF table_acc [OF a], of 1] L by (auto simp: table_holds_def)
  obtain m2 o' where m2: "alloc_indirect_chain G m1 mq l = Some (mq\<lparr>mk_indirect_addr := ?ia + of_nat o'\<rparr>, m2, Inr ?ia)"
      "o' \<le> 4096" "acc m2 = acc m" "table_holds (peek m2) ?ia (mock_chain (unat l))"
      "\<And>b k. disjoint_ranges b k ?ia 4096 \<Longrightarrow> unat b + k \<le> 2 ^ 64 \<Longrightarrow> peek_bytes (peek m2) b k = peek_bytes (peek m1) b k"
    using alloc_indirect_chain_ok [OF l, of m1 mq] i(1) m1(2) by auto
  have a2: "acc m2 start (19 * unat len + 16)" using a m2(3) by simp
  have "table_holds (peek m2) start (mock_chain 1)"
    using m1(3) by (rule table_holds_frame) (use nw i(2) in \<open>auto intro!: m2(5) simp: disjoint_ranges_def\<close>)
  then have ld: "table_load G m2 ?dt 0 = Some (Inr (raw_of_split (hd (mock_chain 1))))"
    using table_load_ok [OF table_acc [OF a2] L] by (simp add: mock_chain_1 [unfolded One_nat_def])
  obtain m3 where m3: "table_store G m2 ?dt 0 (raw_of_split (indirect_head ?ia l)) = Some (m3, Inr ())"
      "peek m3 = poke (peek m2) start (split_desc_bytes (indirect_head ?ia l))" "acc m3 = acc m2"
    using table_store_ok [OF a2, of 0 "raw_of_split (indirect_head ?ia l)"] L
    by (auto simp: raw_of_split_def split_desc_bytes_def)
  have f3: "peek_bytes (peek m3) b n = peek_bytes (peek m2) b n" if "disjoint_ranges b n start 16" "unat b + n \<le> 2 ^ 64" for b n
    unfolding m3(2) using that nw L by (intro peek_bytes_poke_disjoint) simp_all
  have "table_holds (peek m3) ?ia (mock_chain (unat l))"
    using m2(4) by (rule table_holds_frame) (use nw i(2) L l(2) in \<open>auto intro!: f3 simp: disjoint_ranges_def\<close>)
  moreover have "table_holds (peek m3) start [indirect_head ?ia l]"
    by (simp add: table_holds_def m3(2) peek_field_poke_same)
  ultimately show ?thesis
    using m1(1,4) m2(1,2,3,5) ld m3(1,3) f3 by (intro exI [of _ m1] exI [of _ m2] exI [of _ m3] exI [of _ o']) simp
qed

lemma add_indirect_chain_ok:
  assumes mq: "mock_placed mq start len" and a: "acc m start (19 * unat len + 16)" and k: "k < unat len"
    and h: "heads_published (peek m) (start + of_nat (16 * unat len)) k" and e: "gm_endian G = LittleEndian"
    and l: "0 < unat l" "unat l \<le> 256"
    and i: "acc m (mk_indirect_addr mq) 4096" "unat start + 19 * unat len + 16 \<le> unat (mk_indirect_addr mq)"
  shows "\<exists>m' o'. add_indirect_chain G m mq l = Some (mq\<lparr>mk_indirect_addr := mk_indirect_addr mq + of_nat o'\<rparr>, m', Inr ()) \<and>
    o' \<le> 4096 \<and> acc m' = acc m \<and> heads_published (peek m') (start + of_nat (16 * unat len)) (Suc k) \<and>
    table_holds (peek m') start [indirect_head (mk_indirect_addr mq) l] \<and>
    table_holds (peek m') (mk_indirect_addr mq) (mock_chain (unat l))"
proof -
  let ?av = "start + of_nat (16 * unat len)" and ?ia = "mk_indirect_addr mq"
  note u = mock_avail_unat [OF a] and nw = acc_no_wrap [OF a] acc_no_wrap [OF i(1)]
  have L: "0 < unat len" using k by simp
  from indirect_entry_ok [OF a L l i] obtain m1 m2 m3 o' where
      m: "build_chain G m (descriptor_table_new start len) 1 = Some (m1, Inr 0)"
        "alloc_indirect_chain G m1 mq l = Some (mq\<lparr>mk_indirect_addr := ?ia + of_nat o'\<rparr>, m2, Inr ?ia)" "o' \<le> 4096"
        "table_load G m2 (descriptor_table_new start len) 0 = Some (Inr (raw_of_split (hd (mock_chain 1))))"
        "table_store G m2 (descriptor_table_new start len) 0 (raw_of_split (indirect_head ?ia l)) = Some (m3, Inr ())"
      and m3: "acc m3 = acc m" "table_holds (peek m3) start [indirect_head ?ia l]" "table_holds (peek m3) ?ia (mock_chain (unat l))"
        "\<And>b n. disjoint_ranges b n start 16 \<Longrightarrow> disjoint_ranges b n ?ia 4096 \<Longrightarrow> unat b + n \<le> 2 ^ 64 \<Longrightarrow>
           peek_bytes (peek m3) b n = peek_bytes (peek m) b n"
    by blast
  have "heads_published (peek m3) ?av k"
    using h by (rule heads_published_frame) (use u nw k i(2) L in \<open>auto intro!: m3(4) simp: disjoint_ranges_def\<close>)
  from update_avail_idx_ok [OF mq _ k this e] a m3(1)
  obtain m4 where m4: "update_avail_idx G m3 mq 0 = Some (m4, Inr ())" "acc m4 = acc m" "heads_published (peek m4) ?av (Suc k)"
      "\<And>b n. disjoint_ranges b n ?av (6 + 2 * unat len) \<Longrightarrow> unat b + n \<le> 2 ^ 64 \<Longrightarrow> peek_bytes (peek m4) b n = peek_bytes (peek m3) b n"
    by auto
  have "table_holds (peek m4) start [indirect_head ?ia l]"
    using m3(2) by (rule table_holds_frame) (use u nw L in \<open>auto intro!: m4(4) simp: disjoint_ranges_def\<close>)
  moreover have "table_holds (peek m4) ?ia (mock_chain (unat l))"
    using m3(3) by (rule table_holds_frame) (use u nw i(2) L l(2) in \<open>auto intro!: m4(4) simp: disjoint_ranges_def\<close>)
  moreover have "update_avail_idx G m3 (mq\<lparr>mk_indirect_addr := ?ia + of_nat o'\<rparr>) 0 = Some (m4, Inr ())"
    using m4(1) by (simp add: update_avail_idx_def cong: option.case_cong sum.case_cong)
  ultimately show ?thesis
    using m m4(2,3) mq
    by (intro exI [of _ m4] exI [of _ o'])
      (simp add: add_indirect_chain_def mock_placed_def mock_chain_1 [unfolded One_nat_def] Let_def indirect_head_def
        split_set_flags_def split_set_addr_def split_set_len_def vring_flag_defs raw_of_split_def split_desc_new_def)
qed

lemma mock_placed_indirect: "mock_placed (mq\<lparr>mk_indirect_addr := x\<rparr>) start len = mock_placed mq start len"
  by (simp add: mock_placed_def)

lemma add_chains_indirect:
  assumes "mock_placed mq start len" and "acc m start (19 * unat len + 16)" and "k + n \<le> unat len"
    and "heads_published (peek m) (start + of_nat (16 * unat len)) k" and "gm_endian G = LittleEndian"
    and "0 < unat l" and "unat l \<le> 256" and "acc m (mk_indirect_addr mq) (n * 4096)"
    and "unat start + 19 * unat len + 16 \<le> unat (mk_indirect_addr mq)" and "0 < n"
  shows "\<exists>m' mq' ia. add_chains G m mq n l True = Some (mq', m') \<and> acc m' = acc m \<and>
    mq\<lparr>mk_indirect_addr := 0\<rparr> = mq'\<lparr>mk_indirect_addr := 0\<rparr> \<and>
    heads_published (peek m') (start + of_nat (16 * unat len)) (k + n) \<and> acc m' ia 4096 \<and>
    table_holds (peek m') start [indirect_head ia l] \<and> table_holds (peek m') ia (mock_chain (unat l))"
  using assms
proof (induction n arbitrary: m mq k)
  case (Suc n)
  have i: "acc m (mk_indirect_addr mq) 4096" using acc_sub [OF Suc.prems(8), of 0 4096] by simp
  from add_indirect_chain_ok [OF Suc.prems(1,2) _ Suc.prems(4-7) i Suc.prems(9)] Suc.prems(3) obtain m1 o' where
    m1: "add_indirect_chain G m mq l = Some (mq\<lparr>mk_indirect_addr := mk_indirect_addr mq + of_nat o'\<rparr>, m1, Inr ())"
      "o' \<le> 4096" "acc m1 = acc m" "heads_published (peek m1) (start + of_nat (16 * unat len)) (Suc k)"
      "table_holds (peek m1) start [indirect_head (mk_indirect_addr mq) l]"
      "table_holds (peek m1) (mk_indirect_addr mq) (mock_chain (unat l))"
    by auto
  show ?case
  proof (cases n)
    case 0
    with m1 i show ?thesis by (auto intro!: exI [of _ "mk_indirect_addr mq"])
  next
    case pos: (Suc n')
    let ?mq = "mq\<lparr>mk_indirect_addr := mk_indirect_addr mq + of_nat o'\<rparr>"
    have a: "acc m1 (mk_indirect_addr ?mq) (n * 4096)"
      using acc_sub [OF Suc.prems(8), of o' "n * 4096"] m1(2,3) by simp
    have "unat (mk_indirect_addr mq + of_nat o') = unat (mk_indirect_addr mq) + o'"
      using acc_no_wrap [OF i] m1(2) by (intro unat_add_of_nat) simp
    then have "\<exists>m' mq' ia. add_chains G m1 ?mq n l True = Some (mq', m') \<and> acc m' = acc m1 \<and>
        ?mq\<lparr>mk_indirect_addr := 0\<rparr> = mq'\<lparr>mk_indirect_addr := 0\<rparr> \<and>
        heads_published (peek m') (start + of_nat (16 * unat len)) (Suc k + n) \<and> acc m' ia 4096 \<and>
        table_holds (peek m') start [indirect_head ia l] \<and> table_holds (peek m') ia (mock_chain (unat l))"
      using Suc.prems a m1(3,4) pos by (intro Suc.IH) (simp_all add: mock_placed_indirect del: of_nat_mult)
    with m1(1,3) show ?thesis by simp
  qed
qed simp

section \<open>Walking over the queue\<close>

lemma foldl_count: "foldl (\<lambda>k _. Suc k) n xs = n + length xs"
  by (induction xs arbitrary: n) simp_all

lemma foldl_counts:
  assumes "\<forall>c\<in>set cs. length (f c) = L"
  shows "foldl (\<lambda>(a, b) c. (a + 1, foldl (\<lambda>k _. k + 1) b (f c))) (x, y) cs = (x + length cs, y + length cs * L)"
  using assms by (induction cs arbitrary: x y) (simp_all add: foldl_count)

text \<open>The queue over the mock driver's rings yields one chain per published head.\<close>

lemma walk_published:
  assumes mq: "mock_placed mq start len" and a: "acc m start (19 * unat len + 16)" and al: "start AND 15 = 0"
    and q: "queue_new len = Inr q0" and h: "heads_published (peek m) (start + of_nat (16 * unat len)) n"
    and n: "n \<le> unat len" and L: "length (chain_collect G m (chain_new start len 0)) = L"
  shows "\<exists>q. create_queue mq = Inr q \<and> walk_queue G q m = Some (n, n * L)"
proof -
  obtain cq where cq: "create_queue mq = Inr cq" "wf_queue cq" "avail_ring_acc acc cq m" "q_ready cq" "q_avail_ring cq \<noteq> 0"
      "q_avail_ring cq = start + of_nat (16 * unat len)" "q_desc_table cq = start" "q_size cq = len" "q_next_avail cq = 0"
    using created_queue [OF mq a al q] by blast
  obtain it where it: "queue_iter G cq m = Inr it" "avail_iter_collect G m it = map (chain_new start len) (replicate n 0)"
    using published_iter [OF cq(2-5,9), of "replicate n 0"] cq(6-8) h n by auto
  have "foldl (\<lambda>(a, b) c. (a + 1, foldl (\<lambda>k _. k + 1) b (chain_collect G m c))) (0, 0)
      (map (chain_new start len) (replicate n 0)) = (n, n * L)"
    using L by (subst foldl_counts [where L = L]) simp_all
  with cq(1) it show ?thesis by (simp add: walk_queue_def)
qed

lemma direct_walk_length:
  assumes "acc m start (19 * unat len + 16)" and "table_holds (peek m) start (mock_chain (unat l))"
    and "0 < unat l" and "unat l \<le> unat len" and "unat l \<le> 256"
  shows "length (chain_collect G m (chain_new start len 0)) = unat l"
proof -
  have "laid_out G m start len (of_nat 0) (mock_chain (unat l))"
    using assms linked_mock_chain [of "unat l"] table_acc
    by (intro laid_out_linked) (auto simp: table_holds_def simp flip: length_greater_0_conv)
  then have "chain_collect G m (chain_new start len 0) = mock_chain (unat l)"
    using assms(4,5)
    by (intro chain_collect_laid_out) (simp_all add: chain_new_def chain_with_ttl_def mock_chain_bytes sum_list_replicate)
  then show ?thesis by simp
qed

lemma indirect_walk_length:
  assumes "acc m start (19 * unat len + 16)" and "acc m ia 4096" and "0 < unat len"
    and "table_holds (peek m) start [indirect_head ia l]" and "table_holds (peek m) ia (mock_chain (unat l))"
    and "0 < unat l" and "unat l \<le> 256"
  shows "length (chain_collect G m (chain_new start len 0)) = unat l"
proof -
  have e: "table_entry G m start len (of_nat 0) (indirect_head ia l)"
    using assms(1,3,4) table_acc by (intro table_entry_peek) (auto simp: table_holds_def)
  have "acc m ia (16 * unat l)" using acc_sub [OF assms(2), of 0 "16 * unat l"] assms(7) by simp
  then have "laid_out G m ia l (of_nat 0) (mock_chain (unat l))"
    using assms(5-7) linked_mock_chain [of "unat l"]
    by (intro laid_out_linked) (auto simp: table_holds_def simp flip: length_greater_0_conv)
  moreover have "unat (ucast l * 16 :: u32) = 16 * unat l"
    using unat_u16_bound [of l] by (simp add: unat_word_ariths del: unat_u16_bound)
  moreover have "refers_to_indirect_table (indirect_head ia l)"
    by (simp add: indirect_head_def refers_to_indirect_table_def VRING_DESC_F_INDIRECT_def)
  ultimately have "chain_collect G m (chain_new start len 0) = mock_chain (unat l)"
    using e assms(3,7)
    by (intro chain_collect_indirect [where n = "unat l" and d = "indirect_head ia l"])
      (simp_all add: chain_new_def chain_with_ttl_def mock_chain_bytes sum_list_replicate indirect_head_def unat_gt_0)
  then show ?thesis by simp
qed

section \<open>The benchmarks\<close>

text \<open>The memory the benchmarks use: the mock queue starts at address 0 and 256 indirect tables of at most 4096
  bytes end at \<open>0x30100000\<close>, within the four gigabytes that are mapped.\<close>

lemma bench_new:
  assumes "acc m 0 0x30100000"
  shows "\<exists>mq m'. mock_new G m 256 = Some (mq, m') \<and> mock_placed mq 0 256 \<and> acc m' = acc m \<and>
    heads_published (peek m') (0 + of_nat (16 * unat (256 :: u16))) 0 \<and>
    mk_indirect_addr mq = 0x30000000 \<and> mk_used_addr mq = 4356"
proof -
  have "acc m 0 (19 * unat (256 :: u16) + 16)" using acc_sub [OF assms, of 0 "19 * 256 + 16"] by simp
  from mock_create_ok [OF this] obtain mq m' where mq: "mock_create G m 0 256 = Some (mq, m')" "mock_placed mq 0 256"
      "peek_bytes (peek m') (0 + of_nat (16 * unat (256 :: u16)) + 2) 2 = [0, 0]" "acc m' = acc m"
    by auto
  have "mk_avail_addr mq = 4096" using mq(2) by (simp add: mock_placed_def)
  then have "mk_used_addr mq = 4356"
    using mock_used_addr(2) [OF mq(1)] by (simp add: align_up_def checked_add_def)
  moreover have "mk_indirect_addr mq = 0x30000000"
    using mq(1) by (auto simp: mock_create_def split: option.splits)
  moreover have "le_bytes 2 (0 :: u16) = [0, 0]" by (simp add: le_bytes_def upt_rec)
  ultimately show ?thesis using mq by (auto simp: mock_new_def ring_published_def)
qed

lemma queue_new_256: "\<exists>q0. queue_new 256 = Inr q0"
  by (simp add: queue_new_def MAX_QUEUE_SIZE_def)

lemma queue_with_chains_walk:
  assumes a: "acc m 0 0x30100000" and e: "gm_endian G = LittleEndian" and n: "0 < n" "n \<le> 256"
    and l: "0 < unat l" "unat l \<le> 256"
  shows "\<exists>q m'. queue_with_chains G m n l indirect = Some (q, m') \<and> walk_queue G q m' = Some (n, n * unat l) \<and>
    acc m' = acc m"
proof -
  obtain mq m1 where m1: "mock_new G m 256 = Some (mq, m1)" "mock_placed mq 0 256" "acc m1 = acc m"
      "heads_published (peek m1) (0 + of_nat (16 * unat (256 :: u16))) 0" "mk_indirect_addr mq = 0x30000000"
    using bench_new [OF a] by auto
  obtain q0 where q0: "queue_new 256 = Inr q0" using queue_new_256 by auto
  have a1: "acc m1 0 (19 * unat (256 :: u16) + 16)" using acc_sub [OF a, of 0 "19 * 256 + 16"] m1(3) by simp
  have ai: "acc m1 (mk_indirect_addr mq) (n * 4096)"
    using acc_sub [OF a, of "0x30000000" "n * 4096"] n(2) m1(3,5) by simp
  have "\<exists>mq' m2. add_chains G m1 mq n l indirect = Some (mq', m2) \<and> acc m2 = acc m \<and> mock_placed mq' 0 256 \<and>
      heads_published (peek m2) (0 + of_nat (16 * unat (256 :: u16))) n \<and>
      length (chain_collect G m2 (chain_new 0 256 0)) = unat l"
  proof (cases indirect)
    case False
    then show ?thesis
      using add_chains_direct [OF m1(2) a1 _ m1(4) e l(1), of n] direct_walk_length [of _ 0 256 l] a1 m1(2,3) n l
      by fastforce
  next
    case True
    obtain m2 mq' ia where m2: "add_chains G m1 mq n l True = Some (mq', m2)" "acc m2 = acc m1"
        "mq\<lparr>mk_indirect_addr := 0\<rparr> = mq'\<lparr>mk_indirect_addr := 0\<rparr>"
        "heads_published (peek m2) (0 + of_nat (16 * unat (256 :: u16))) n" "acc m2 ia 4096"
        "table_holds (peek m2) 0 [indirect_head ia l]" "table_holds (peek m2) ia (mock_chain (unat l))"
      using add_chains_indirect [OF m1(2) a1 _ m1(4) e l ai] n m1(5) by auto
    have "mock_placed mq' 0 256" using m1(2) m2(3) by (metis mock_placed_indirect)
    moreover have "length (chain_collect G m2 (chain_new 0 256 0)) = unat l"
      using a1 m2(2) by (intro indirect_walk_length [OF _ m2(5) _ m2(6,7) l]) simp_all
    ultimately show ?thesis using True m2(1,2,4) m1(3) by auto
  qed
  then obtain mq' m2 where m2: "add_chains G m1 mq n l indirect = Some (mq', m2)" "acc m2 = acc m" "mock_placed mq' 0 256"
      "heads_published (peek m2) (0 + of_nat (16 * unat (256 :: u16))) n"
      "length (chain_collect G m2 (chain_new 0 256 0)) = unat l"
    by blast
  obtain q where "create_queue mq' = Inr q" "walk_queue G q m2 = Some (n, n * unat l)"
    using walk_published [OF m2(3) _ _ q0 m2(4) _ m2(5)] a1 m1(3) m2(2) n(2) by auto
  with m1(1) m2(1,2) show ?thesis by (simp add: queue_with_chains_def)
qed

text \<open>Completing descriptor 123 over and over.\<close>

lemma add_used_loop_ok:
  assumes "wf_queue q" and "used_ring_acc acc q m" and "123 < q_size q"
  shows "\<exists>q' m'. add_used_loop G q m n = Some (q', m') \<and> acc m' = acc m \<and> q_next_used q' = q_next_used q + of_nat n"
  using assms
proof (induction n arbitrary: q m)
  case (Suc n)
  let ?q = "q\<lparr>q_next_used := q_next_used q + 1, q_num_added := q_num_added q + 1\<rparr>"
  obtain m1 where m1: "add_used G q m 123 0x1000 = (?q, m1, Inr ())" "acc m1 = acc m"
    using add_used_effect [OF Suc.prems, of "0x1000"] by auto
  have "wf_queue ?q" "used_ring_acc acc ?q m1" "123 < q_size ?q"
    using Suc.prems m1(2) by (simp_all add: wf_queue_def used_ring_acc_def)
  from Suc.IH [OF this] m1 show ?case by (auto simp: add.assoc)
qed simp

lemma bench_add_used_ok:
  assumes a: "acc m 0 0x30100000"
  shows "\<exists>q m'. bench_add_used G m = Some (q, m') \<and> acc m' = acc m \<and> q_next_used q = 128"
proof -
  obtain mq m1 where m1: "mock_new G m 256 = Some (mq, m1)" "mock_placed mq 0 256" "acc m1 = acc m" "mk_used_addr mq = 4356"
    using bench_new [OF a] by auto
  obtain q0 where q0: "queue_new 256 = Inr q0" using queue_new_256 by auto
  let ?q = "q0\<lparr>q_ready := True, q_desc_table := 0, q_avail_ring := 4096, q_used_ring := 4356\<rparr>"
  have cq: "create_queue mq = Inr ?q"
    using create_queue_ok [of mq q0] q0 m1(2,4) by (simp add: mock_placed_def)
  have s: "q_size q0 = 256" "q_next_used q0 = 0" using q0 by (auto simp: queue_new_Inr)
  have "wf_queue ?q" using wf_queue_new [OF q0] by (simp add: wf_queue_def)
  moreover have "used_ring_acc acc ?q m1" using acc_sub [OF a, of 4356 "6 + 8 * 256"] m1(3) s by (simp add: used_ring_acc_def)
  ultimately show ?thesis
    using add_used_loop_ok [of ?q m1 128] s m1(1,3) cq by (auto simp: bench_add_used_def empty_queue_def)
qed

end

end
