(* ===== verification/Bench_Properties.thy ===== *)
theory Bench_Properties
  imports Bench_Queue
begin

text \<open>
  The property of the queue benchmarks: on a little-endian host they run without a panic and count what
  they assert, whatever an earlier iteration left in memory.
\<close>

text \<open>C8. On a little-endian host whose memory covers the rings and the indirect tables no benchmark panics. A queue
  the mock driver filled with \<open>n\<close> chains of \<open>len\<close> descriptors, direct or indirect, is walked over as \<open>n\<close> chains with
  \<open>n * len\<close> descriptors in total, and after the last benchmark 128 descriptors are completed.\<close>

theorem benchmarks_count:
  assumes G: "guest_mem G peek acc" and e: "gm_endian G = LittleEndian" and a: "acc m 0 0x30100000"
  shows "(\<exists>m'. benchmark_queue G m = Some m' \<and> acc m' = acc m) \<and>
    (\<exists>q m'. bench_add_used G m = Some (q, m') \<and> q_next_used q = 128) \<and>
    (\<forall>n len indirect. n \<in> {1..256} \<and> len \<in> {1..256} \<longrightarrow>
       (\<exists>q m'. queue_with_chains G m n len indirect = Some (q, m') \<and>
          walk_queue G q m' = Some (n, n * unat len)))"
proof (intro conjI allI impI)
  note walk = guest_mem.queue_with_chains_walk [OF G _ e]
  have c: "\<exists>m'. bench_chains G m0 n l indirect n (n * unat l) = Some m' \<and> acc m' = acc m0"
    if "acc m0 0 0x30100000" "0 < n" "n \<le> 256" "0 < unat l" "unat l \<le> 256" for m0 n l indirect
    using walk [OF that, of indirect] by (auto simp: bench_chains_def)
  obtain m1 where m1: "bench_chains G m 1 128 False 1 128 = Some m1" "acc m1 = acc m" using c [OF a, of 1 128] by auto
  obtain m2 where m2: "bench_chains G m1 128 1 False 128 128 = Some m2" "acc m2 = acc m" using c [of m1 128 1] a m1 by auto
  obtain m3 where m3: "bench_chains G m2 1 128 True 1 128 = Some m3" "acc m3 = acc m" using c [of m2 1 128] a m2 by auto
  obtain m4 where m4: "bench_chains G m3 128 1 True 128 128 = Some m4" "acc m4 = acc m" using c [of m3 128 1] a m3 by auto
  show "\<exists>m'. benchmark_queue G m = Some m' \<and> acc m' = acc m"
    using m1 m2 m3 m4 guest_mem.bench_add_used_ok [OF G, of m4] a by (auto simp: benchmark_queue_def)
  show "\<exists>q m'. bench_add_used G m = Some (q, m') \<and> q_next_used q = 128"
    using guest_mem.bench_add_used_ok [OF G a] by auto
next
  fix n :: nat and len :: u16 and indirect
  assume r: "n \<in> {1..256} \<and> len \<in> {1..256}"
  then have "unat len \<le> 256" "0 < unat len" by (auto simp: word_le_nat_alt)
  with r show "\<exists>q m'. queue_with_chains G m n len indirect = Some (q, m') \<and> walk_queue G q m' = Some (n, n * unat len)"
    using guest_mem.queue_with_chains_walk [OF G a e, of n len indirect] by auto
qed

text \<open>The four gigabytes the benchmarks map, as a single region.\<close>

definition bench_memory :: region where
  "bench_memory = \<lparr>rg_base = 0, rg_size = 0x100000000, rg_data = (\<lambda>_. 0)\<rparr>"

theorem benchmarks_count_witness:
  "gm_endian (single_region LittleEndian) = LittleEndian \<and> sr_acc bench_memory 0 0x30100000 \<and>
   (\<exists>q m'. queue_with_chains (single_region LittleEndian) bench_memory 128 1 True = Some (q, m') \<and>
      walk_queue (single_region LittleEndian) q m' = Some (128, 128))"
proof -
  have e: "gm_endian (single_region LittleEndian) = LittleEndian" by (simp add: single_region_def)
  have a: "sr_acc bench_memory 0 0x30100000" by (simp add: sr_acc_def bench_memory_def)
  have "(128 :: nat) \<in> {1..256}" "(1 :: u16) \<in> {1..256}" by simp_all
  with benchmarks_count [OF single_region_laws e a] e a show ?thesis by fastforce
qed

end
