(* ===== verification/C_Layout.thy ===== *)
theory C_Layout
  imports Virtio_Prelude
begin

text \<open>
  The memory layout of the structures bindgen generates under \<open>virtio-bindings/src/bindings\<close>: the types
  that occur in the generated files, size, alignment and field offsets under \<open>repr(C)\<close> and
  \<open>repr(C, packed)\<close> as the language defines them, the incomplete array field at the end of a structure,
  and the compile-time checks a generated file makes of its own layouts. The general lemmas show that
  every layout is well formed: fields are aligned, in order, without overlap and inside the structure, and
  reading a field yields as many bytes as its type has.
\<close>

section \<open>Types and targets\<close>

datatype c_repr = Repr_C | Repr_C_packed

datatype c_type =
    C_uchar
  | C_char
  | C_ushort
  | C_uint
  | C_ulonglong
  | C_ptr c_type
  | C_array c_type nat
  | IncompleteArrayField c_type
  | C_struct c_repr "(string \<times> c_type) list"
  | C_union "(string \<times> c_type) list"

text \<open>What the layout depends on in the target: pointers and the alignment of the 64-bit integers. The
  smaller integers have their size as alignment on all targets considered.\<close>

record target =
  tg_ptr_size :: nat
  tg_ptr_align :: nat
  tg_u64_align :: nat

definition lp64 :: target where
  "lp64 = \<lparr>tg_ptr_size = 8, tg_ptr_align = 8, tg_u64_align = 8\<rparr>"

definition ilp32 :: target where
  "ilp32 = \<lparr>tg_ptr_size = 4, tg_ptr_align = 4, tg_u64_align = 8\<rparr>"

definition i686 :: target where
  "i686 = \<lparr>tg_ptr_size = 4, tg_ptr_align = 4, tg_u64_align = 4\<rparr>"

definition target_ok :: "target \<Rightarrow> bool" where
  "target_ok t \<longleftrightarrow> tg_ptr_align t \<in> set [1, 2, 4, 8] \<and> tg_u64_align t \<in> set [1, 2, 4, 8] \<and>
     tg_ptr_align t dvd tg_ptr_size t"

section \<open>Size, alignment and offsets\<close>

definition round_up :: "nat \<Rightarrow> nat \<Rightarrow> nat" where
  "round_up n a = (n + (a - 1)) div a * a"

definition field_align :: "c_repr \<Rightarrow> nat \<Rightarrow> nat" where
  "field_align r a = (case r of Repr_C \<Rightarrow> a | Repr_C_packed \<Rightarrow> 1)"

text \<open>Fields with their size and alignment are placed one after the other from the current offset on.\<close>

fun place_fields :: "c_repr \<Rightarrow> nat \<Rightarrow> (string \<times> nat \<times> nat) list \<Rightarrow> (string \<times> nat) list" where
  "place_fields r off [] = []"
| "place_fields r off ((f, sz, a) # fs) =
     (let o' = round_up off (field_align r a) in (f, o') # place_fields r (o' + sz) fs)"

fun fields_end :: "c_repr \<Rightarrow> nat \<Rightarrow> (string \<times> nat \<times> nat) list \<Rightarrow> nat" where
  "fields_end r off [] = off"
| "fields_end r off ((f, sz, a) # fs) = fields_end r (round_up off (field_align r a) + sz) fs"

definition struct_align :: "c_repr \<Rightarrow> (string \<times> nat \<times> nat) list \<Rightarrow> nat" where
  "struct_align r fs = fold (\<lambda>(f, sz, a). max (field_align r a)) fs 1"

definition struct_layout :: "c_repr \<Rightarrow> (string \<times> nat \<times> nat) list \<Rightarrow> nat \<times> nat" where
  "struct_layout r fs = (let a = struct_align r fs in (round_up (fields_end r 0 fs) a, a))"

definition union_layout :: "(string \<times> nat \<times> nat) list \<Rightarrow> nat \<times> nat" where
  "union_layout fs =
     (let a = struct_align Repr_C fs in (round_up (fold (\<lambda>(f, sz, a). max sz) fs 0) a, a))"

primrec layout_of :: "target \<Rightarrow> c_type \<Rightarrow> nat \<times> nat" where
  "layout_of t C_uchar = (1, 1)"
| "layout_of t C_char = (1, 1)"
| "layout_of t C_ushort = (2, 2)"
| "layout_of t C_uint = (4, 4)"
| "layout_of t C_ulonglong = (8, tg_u64_align t)"
| "layout_of t (C_ptr ty) = (tg_ptr_size t, tg_ptr_align t)"
| "layout_of t (C_array ty n) = (n * fst (layout_of t ty), snd (layout_of t ty))"
| "layout_of t (IncompleteArrayField ty) = (0, snd (layout_of t ty))"
| "layout_of t (C_struct r fs) = struct_layout r (map (map_prod id (layout_of t)) fs)"
| "layout_of t (C_union fs) = union_layout (map (map_prod id (layout_of t)) fs)"

definition size_of :: "target \<Rightarrow> c_type \<Rightarrow> nat" where
  "size_of t ty = fst (layout_of t ty)"

definition align_of :: "target \<Rightarrow> c_type \<Rightarrow> nat" where
  "align_of t ty = snd (layout_of t ty)"

fun offset_of :: "target \<Rightarrow> c_type \<Rightarrow> string \<Rightarrow> nat option" where
  "offset_of t (C_struct r fs) f = map_of (place_fields r 0 (map (map_prod id (layout_of t)) fs)) f"
| "offset_of t (C_union fs) f = (if f \<in> fst ` set fs then Some 0 else None)"
| "offset_of t _ f = None"

text \<open>The bytes of a field within the bytes of the structure or union.\<close>

fun field_type :: "c_type \<Rightarrow> string \<Rightarrow> c_type option" where
  "field_type (C_struct r fs) f = map_of fs f"
| "field_type (C_union fs) f = map_of fs f"
| "field_type _ f = None"

definition field_bytes :: "target \<Rightarrow> c_type \<Rightarrow> string \<Rightarrow> byte list \<Rightarrow> byte list option" where
  "field_bytes t ty f bs =
     (case (offset_of t ty f, field_type ty f) of
        (Some o', Some fty) \<Rightarrow> Some (take (size_of t fty) (drop o' bs))
      | _ \<Rightarrow> None)"

text \<open>\<open>__IncompleteArrayField\<close> has no size of its own: \<open>as_slice\<close> views the memory from the field's own
  address on, element \<open>i\<close> lying \<open>i\<close> element sizes further.\<close>

definition as_slice_elem :: "target \<Rightarrow> c_type \<Rightarrow> nat \<Rightarrow> nat \<Rightarrow> nat" where
  "as_slice_elem t ty self i = self + i * size_of t ty"

text \<open>\<open>Default\<close> of the types with unions, arrays or pointers: \<open>write_bytes\<close> of one zeroed value.\<close>

definition zeroed :: "target \<Rightarrow> c_type \<Rightarrow> byte list" where
  "zeroed t ty = replicate (size_of t ty) 0"

section \<open>The checks of the generated files\<close>

text \<open>\<open>["..."][actual - expected]\<close> in a constant: the subtraction must not underflow and the index must be
  within the array of one element.\<close>

definition const_index :: "nat \<Rightarrow> nat \<Rightarrow> bool" where
  "const_index actual expected \<longleftrightarrow>
     (if actual < expected then False else (let i = actual - expected in i < length [''message'']))"

record layout_check =
  lc_size :: nat
  lc_align :: nat
  lc_offsets :: "(string \<times> nat) list"

definition layout_holds :: "target \<Rightarrow> c_type \<Rightarrow> layout_check \<Rightarrow> bool" where
  "layout_holds t ty c \<longleftrightarrow> const_index (size_of t ty) (lc_size c) \<and>
     const_index (align_of t ty) (lc_align c) \<and>
     list_all (\<lambda>(f, o'). case offset_of t ty f of None \<Rightarrow> False | Some a \<Rightarrow> const_index a o') (lc_offsets c)"

section \<open>Every layout is well formed\<close>

lemma const_index_iff [simp]: "const_index actual expected \<longleftrightarrow> actual = expected"
  by (auto simp: const_index_def)

text \<open>The fields of a structure as offset, size and alignment, with the offsets \<open>offset_of\<close> reads.\<close>

definition field_slots :: "c_repr \<Rightarrow> nat \<Rightarrow> (string \<times> nat \<times> nat) list \<Rightarrow> (nat \<times> nat \<times> nat) list" where
  "field_slots r off fs =
     map2 (\<lambda>(f, o') (g, sz, a). (o', sz, field_align r a)) (place_fields r off fs) fs"

fun slots_ok :: "nat \<Rightarrow> nat \<Rightarrow> nat \<Rightarrow> (nat \<times> nat \<times> nat) list \<Rightarrow> bool" where
  "slots_ok lo hi algn [] \<longleftrightarrow> lo \<le> hi"
| "slots_ok lo hi algn ((o', sz, a) # rest) \<longleftrightarrow>
     lo \<le> o' \<and> a dvd o' \<and> a dvd algn \<and> slots_ok (o' + sz) hi algn rest"

definition layout_wf :: "target \<Rightarrow> c_type \<Rightarrow> bool" where
  "layout_wf t ty \<longleftrightarrow> 0 < align_of t ty \<and> align_of t ty dvd size_of t ty \<and>
     (case ty of
        C_struct r fs \<Rightarrow>
          slots_ok 0 (size_of t ty) (align_of t ty) (field_slots r 0 (map (map_prod id (layout_of t)) fs))
      | C_union fs \<Rightarrow> list_all (\<lambda>(f, fty). size_of t fty \<le> size_of t ty \<and> align_of t fty dvd align_of t ty) fs
      | _ \<Rightarrow> True)"

lemma round_up_ge: "0 < a \<Longrightarrow> n \<le> round_up n a"
proof -
  assume a: "0 < a"
  have "n + (a - 1) = (n + (a - 1)) div a * a + (n + (a - 1)) mod a" by simp
  moreover have "(n + (a - 1)) mod a \<le> a - 1" using mod_less_divisor [OF a, of "n + (a - 1)"] by linarith
  ultimately show "n \<le> round_up n a" unfolding round_up_def by linarith
qed

lemma round_up_dvd [simp]: "a dvd round_up n a"
  by (simp add: round_up_def)

text \<open>Alignments are powers of two, so the larger of two is a multiple of the smaller.\<close>

definition pow2 :: "nat \<Rightarrow> bool" where
  "pow2 n \<longleftrightarrow> (\<exists>k. n = 2 ^ k)"

lemma pow2_pos: "pow2 n \<Longrightarrow> 0 < n"
  by (auto simp: pow2_def)

lemma pow2_max: "pow2 a \<Longrightarrow> pow2 b \<Longrightarrow> pow2 (max a b)"
  by (simp add: max_def)

lemma pow2_dvd_iff: "pow2 a \<Longrightarrow> pow2 b \<Longrightarrow> a dvd b \<longleftrightarrow> a \<le> b"
  by (auto simp: pow2_def intro: le_imp_power_dvd dest: dvd_imp_le)

lemma pow2_members: "n \<in> {1, 2, 4, 8} \<Longrightarrow> pow2 n"
proof -
  have "(1::nat) = 2 ^ 0" "(2::nat) = 2 ^ 1" "(4::nat) = 2 ^ 2" "(8::nat) = 2 ^ 3" by simp_all
  then show "n \<in> {1, 2, 4, 8} \<Longrightarrow> pow2 n" unfolding pow2_def by blast
qed

lemma pow2_field_align: "pow2 a \<Longrightarrow> pow2 (field_align r a)"
  by (cases r) (simp_all add: field_align_def pow2_members)

lemma fold_max_ge: "(b :: nat) \<le> fold (\<lambda>x. max (g x)) xs b \<and> (\<forall>x \<in> set xs. g x \<le> fold (\<lambda>x. max (g x)) xs b)"
proof (induction xs arbitrary: b)
  case (Cons x xs)
  from Cons [of "max (g x) b"] show ?case by auto
qed simp

lemma fold_max_pow2: "pow2 b \<Longrightarrow> \<forall>x \<in> set xs. pow2 (g x) \<Longrightarrow> pow2 (fold (\<lambda>x. max (g x)) xs b)"
  by (induction xs arbitrary: b) (simp_all add: pow2_max)

lemma struct_align_alt: "struct_align r fs = fold (\<lambda>x. max (field_align r (snd (snd x)))) fs 1"
  by (simp add: struct_align_def case_prod_unfold)

lemma struct_align_pow2:
  "\<forall>x \<in> set fs. pow2 (snd (snd x)) \<Longrightarrow> pow2 (struct_align r fs)"
  unfolding struct_align_alt by (rule fold_max_pow2) (simp_all add: pow2_members pow2_field_align)

lemma struct_align_ge: "x \<in> set fs \<Longrightarrow> field_align r (snd (snd x)) \<le> struct_align r fs"
  using fold_max_ge unfolding struct_align_alt by fast

lemma layout_of_pow2:
  assumes "target_ok t"
  shows "pow2 (snd (layout_of t ty))"
proof (induction ty)
  case (C_struct r fs)
  have "\<forall>x \<in> set (map (map_prod id (layout_of t)) fs). pow2 (snd (snd x))"
    using C_struct [OF _ snds.intros] by auto
  then show ?case by (simp add: struct_layout_def Let_def struct_align_pow2 del: set_map)
next
  case (C_union fs)
  have "\<forall>x \<in> set (map (map_prod id (layout_of t)) fs). pow2 (snd (snd x))"
    using C_union [OF _ snds.intros] by auto
  then show ?case by (simp add: union_layout_def Let_def struct_align_pow2 del: set_map)
qed (use assms in \<open>simp_all add: target_ok_def pow2_members\<close>)

lemma field_slots_ok:
  assumes "\<forall>x \<in> set fs. pow2 (field_align r (snd (snd x))) \<and> field_align r (snd (snd x)) dvd algn"
    and "lo \<le> off" and "fields_end r off fs \<le> hi"
  shows "slots_ok lo hi algn (field_slots r off fs)"
  using assms
proof (induction r off fs arbitrary: lo rule: place_fields.induct)
  case (2 r off f sz a fs)
  have "off \<le> round_up off (field_align r a)" using 2(2) by (simp add: round_up_ge pow2_pos)
  with 2 show ?case by (simp add: field_slots_def Let_def)
qed (simp add: field_slots_def)

lemma struct_layout_wf:
  assumes "target_ok t"
  shows "layout_wf t (C_struct r fs)"
proof -
  let ?fs = "map (map_prod id (layout_of t)) fs"
  let ?a = "struct_align r ?fs"
  have p: "\<forall>x \<in> set ?fs. pow2 (snd (snd x))" using layout_of_pow2 [OF assms] by auto
  then have a: "pow2 ?a" by (rule struct_align_pow2)
  have "\<forall>x \<in> set ?fs. pow2 (field_align r (snd (snd x))) \<and> field_align r (snd (snd x)) dvd ?a"
    using p struct_align_ge [of _ ?fs r] by (meson a pow2_dvd_iff pow2_field_align)
  then have "slots_ok 0 (round_up (fields_end r 0 ?fs) ?a) ?a (field_slots r 0 ?fs)"
    by (rule field_slots_ok) (simp_all add: round_up_ge pow2_pos [OF a])
  then show ?thesis
    using pow2_pos [OF a]
    by (simp add: layout_wf_def size_of_def align_of_def struct_layout_def Let_def)
qed

lemma union_layout_wf:
  assumes "target_ok t"
  shows "layout_wf t (C_union fs)"
proof -
  let ?fs = "map (map_prod id (layout_of t)) fs"
  let ?a = "struct_align Repr_C ?fs" and ?s = "fold (\<lambda>x. max (fst (snd x))) ?fs 0"
  have "\<forall>x \<in> set ?fs. pow2 (snd (snd x))" using layout_of_pow2 [OF assms] by auto
  then have a: "pow2 ?a" by (rule struct_align_pow2)
  have "size_of t fty \<le> round_up ?s ?a \<and> align_of t fty dvd ?a" if "(f, fty) \<in> set fs" for f fty
  proof
    have x: "(f, layout_of t fty) \<in> set ?fs" using that by force
    then have "fst (snd (f, layout_of t fty)) \<le> ?s" using fold_max_ge by fast
    then show "size_of t fty \<le> round_up ?s ?a"
      using round_up_ge [OF pow2_pos [OF a], of ?s] by (simp add: size_of_def)
    show "align_of t fty dvd ?a"
      using struct_align_ge [OF x, of Repr_C] layout_of_pow2 [OF assms, of fty] a
      by (simp add: align_of_def field_align_def pow2_dvd_iff)
  qed
  then show ?thesis
    using pow2_pos [OF a]
    by (auto simp: layout_wf_def size_of_def align_of_def union_layout_def Let_def list_all_iff
        case_prod_unfold)
qed

lemma layout_dvd:
  assumes "target_ok t"
  shows "snd (layout_of t ty) dvd fst (layout_of t ty)"
proof (induction ty)
  case (C_struct r fs)
  show ?case using struct_layout_wf [OF assms] by (simp add: layout_wf_def size_of_def align_of_def)
next
  case (C_union fs)
  show ?case using union_layout_wf [OF assms] by (simp add: layout_wf_def size_of_def align_of_def)
next
  case C_ulonglong
  have "tg_u64_align t \<in> {1, 2, 4, 8}" using assms by (simp add: target_ok_def)
  then show ?case by auto
qed (use assms in \<open>simp_all add: target_ok_def\<close>)

lemma layout_of_wf:
  assumes "target_ok t"
  shows "layout_wf t ty"
  using layout_dvd [OF assms, of ty] pow2_pos [OF layout_of_pow2 [OF assms, of ty]]
    struct_layout_wf [OF assms] union_layout_wf [OF assms]
  by (cases ty) (simp_all add: layout_wf_def size_of_def align_of_def)

section \<open>Reading a field\<close>

text \<open>Every field of a structure or union has its bytes inside, as many as its type has.\<close>

fun field_names :: "c_type \<Rightarrow> string list" where
  "field_names (C_struct r fs) = map fst fs"
| "field_names (C_union fs) = map fst fs"
| "field_names _ = []"

lemma slots_ok_le: "slots_ok lo hi algn xs \<Longrightarrow> lo \<le> hi"
  by (induction lo hi algn xs rule: slots_ok.induct) auto

lemma slots_ok_inside:
  assumes "slots_ok lo hi algn (field_slots r off fs)" and "map_of fs f = Some (sz, a)"
  shows "\<exists>o'. map_of (place_fields r off fs) f = Some o' \<and> o' + sz \<le> hi"
  using assms
proof (induction r off fs arbitrary: lo rule: place_fields.induct)
  case (2 r off g sz' a' fs)
  then show ?case
    by (cases "f = g") (auto simp: field_slots_def Let_def dest: slots_ok_le)
qed simp

lemma map_of_layouts: "map_of (map (map_prod id (layout_of t)) fs) f = map_option (layout_of t) (map_of fs f)"
  by (induction fs) auto

lemma field_bytes_typed:
  assumes "target_ok t" and "f \<in> set (field_names ty)" and "length bs = size_of t ty"
  shows "\<exists>fty x. field_type ty f = Some fty \<and> field_bytes t ty f bs = Some x \<and> length x = size_of t fty"
proof (cases ty)
  case (C_struct r fs)
  then obtain fty where f: "map_of fs f = Some fty"
    using assms(2) by (cases "map_of fs f") (auto simp: map_of_eq_None_iff)
  then have "map_of (map (map_prod id (layout_of t)) fs) f = Some (size_of t fty, align_of t fty)"
    by (simp add: map_of_layouts size_of_def align_of_def)
  moreover have "slots_ok 0 (size_of t ty) (align_of t ty) (field_slots r 0 (map (map_prod id (layout_of t)) fs))"
    using layout_of_wf [OF assms(1), of ty] C_struct by (simp add: layout_wf_def)
  ultimately obtain o' where "offset_of t ty f = Some o'" "o' + size_of t fty \<le> size_of t ty"
    using C_struct slots_ok_inside by fastforce
  with f C_struct assms(3) show ?thesis by (auto simp: field_bytes_def)
next
  case (C_union fs)
  then obtain fty where f: "map_of fs f = Some fty"
    using assms(2) by (cases "map_of fs f") (auto simp: map_of_eq_None_iff)
  with layout_of_wf [OF assms(1), of ty] C_union have "size_of t fty \<le> size_of t ty"
    by (auto simp: layout_wf_def list_all_iff dest!: map_of_SomeD)
  with f C_union assms show ?thesis by (auto simp: field_bytes_def)
qed (use assms in auto)

end
