(* ===== verification/Bindings_Ring.thy ===== *)
theory Bindings_Ring
  imports C_Layout
begin

text \<open>
  The structures of \<open>virtio_ring.rs\<close>: the descriptor, the rings of a split virtqueue with their incomplete
  arrays, the driver's view of a whole ring, and the packed ring's descriptors.
  For each structure its type and the layout the file checks of it.
\<close>

definition vring_desc :: c_type where
  "vring_desc = C_struct Repr_C
     [(''addr'', C_ulonglong), (''len'', C_uint), (''flags'', C_ushort), (''next'', C_ushort)]"

definition vring_desc_layout :: layout_check where
  "vring_desc_layout = \<lparr>lc_size = 16, lc_align = 8, lc_offsets =
     [(''addr'', 0), (''len'', 8), (''flags'', 12), (''next'', 14)]\<rparr>"

definition vring_avail :: c_type where
  "vring_avail = C_struct Repr_C
     [(''flags'', C_ushort), (''idx'', C_ushort), (''ring'', IncompleteArrayField C_ushort)]"

definition vring_avail_layout :: layout_check where
  "vring_avail_layout = \<lparr>lc_size = 4, lc_align = 2, lc_offsets =
     [(''flags'', 0), (''idx'', 2), (''ring'', 4)]\<rparr>"

definition vring_used_elem :: c_type where
  "vring_used_elem = C_struct Repr_C
     [(''id'', C_uint), (''len'', C_uint)]"

definition vring_used_elem_layout :: layout_check where
  "vring_used_elem_layout = \<lparr>lc_size = 8, lc_align = 4, lc_offsets =
     [(''id'', 0), (''len'', 4)]\<rparr>"

definition vring_used :: c_type where
  "vring_used = C_struct Repr_C
     [(''flags'', C_ushort), (''idx'', C_ushort), (''ring'', IncompleteArrayField vring_used_elem)]"

definition vring_used_layout :: layout_check where
  "vring_used_layout = \<lparr>lc_size = 4, lc_align = 4, lc_offsets =
     [(''flags'', 0), (''idx'', 2), (''ring'', 4)]\<rparr>"

definition vring :: c_type where
  "vring = C_struct Repr_C
     [(''num'', C_uint), (''desc'', C_ptr vring_desc), (''avail'', C_ptr vring_avail),
      (''used'', C_ptr vring_used)]"

definition vring_layout :: layout_check where
  "vring_layout = \<lparr>lc_size = 32, lc_align = 8, lc_offsets =
     [(''num'', 0), (''desc'', 8), (''avail'', 16), (''used'', 24)]\<rparr>"

definition vring_packed_desc_event :: c_type where
  "vring_packed_desc_event = C_struct Repr_C
     [(''off_wrap'', C_ushort), (''flags'', C_ushort)]"

definition vring_packed_desc_event_layout :: layout_check where
  "vring_packed_desc_event_layout = \<lparr>lc_size = 4, lc_align = 2, lc_offsets =
     [(''off_wrap'', 0), (''flags'', 2)]\<rparr>"

definition vring_packed_desc :: c_type where
  "vring_packed_desc = C_struct Repr_C
     [(''addr'', C_ulonglong), (''len'', C_uint), (''id'', C_ushort), (''flags'', C_ushort)]"

definition vring_packed_desc_layout :: layout_check where
  "vring_packed_desc_layout = \<lparr>lc_size = 16, lc_align = 8, lc_offsets =
     [(''addr'', 0), (''len'', 8), (''id'', 12), (''flags'', 14)]\<rparr>"

text \<open>The structures with their checks, in the order of the definitions above.\<close>

definition virtio_ring_bindings :: "(c_type \<times> layout_check) list" where
  "virtio_ring_bindings =
     [(vring_desc, vring_desc_layout), (vring_avail, vring_avail_layout),
      (vring_used_elem, vring_used_elem_layout), (vring_used, vring_used_layout),
      (vring, vring_layout), (vring_packed_desc_event, vring_packed_desc_event_layout),
      (vring_packed_desc, vring_packed_desc_layout)]"

lemmas virtio_ring_defs =
  vring_desc_def vring_desc_layout_def vring_avail_def vring_avail_layout_def vring_used_elem_def
  vring_used_elem_layout_def vring_used_def vring_used_layout_def vring_def vring_layout_def
  vring_packed_desc_event_def vring_packed_desc_event_layout_def vring_packed_desc_def
  vring_packed_desc_layout_def

end
