(* ===== verification/Bindings_Blk.thy ===== *)
theory Bindings_Blk
  imports C_Layout
begin

text \<open>
  The structures of \<open>virtio_blk.rs\<close>: the packed configuration space of a block device, the request header
  and the zoned-storage and discard requests.
  The types of the structures, and the layouts the file checks of them.
\<close>

definition virtio_blk_config_virtio_blk_geometry :: c_type where
  "virtio_blk_config_virtio_blk_geometry = C_struct Repr_C
     [(''cylinders'', C_ushort), (''heads'', C_uchar), (''sectors'', C_uchar)]"

definition virtio_blk_config_virtio_blk_zoned_characteristics :: c_type where
  "virtio_blk_config_virtio_blk_zoned_characteristics = C_struct Repr_C
     [(''zone_sectors'', C_uint), (''max_open_zones'', C_uint), (''max_active_zones'', C_uint),
      (''max_append_sectors'', C_uint), (''write_granularity'', C_uint), (''model'', C_uchar),
      (''unused2'', C_array C_uchar 3)]"

definition virtio_blk_config :: c_type where
  "virtio_blk_config = C_struct Repr_C_packed
     [(''capacity'', C_ulonglong), (''size_max'', C_uint), (''seg_max'', C_uint),
      (''geometry'', virtio_blk_config_virtio_blk_geometry), (''blk_size'', C_uint),
      (''physical_block_exp'', C_uchar), (''alignment_offset'', C_uchar),
      (''min_io_size'', C_ushort), (''opt_io_size'', C_uint), (''wce'', C_uchar),
      (''unused'', C_uchar), (''num_queues'', C_ushort), (''max_discard_sectors'', C_uint),
      (''max_discard_seg'', C_uint), (''discard_sector_alignment'', C_uint),
      (''max_write_zeroes_sectors'', C_uint), (''max_write_zeroes_seg'', C_uint),
      (''write_zeroes_may_unmap'', C_uchar), (''unused1'', C_array C_uchar 3),
      (''max_secure_erase_sectors'', C_uint), (''max_secure_erase_seg'', C_uint),
      (''secure_erase_sector_alignment'', C_uint),
      (''zoned'', virtio_blk_config_virtio_blk_zoned_characteristics)]"

definition virtio_blk_outhdr :: c_type where
  "virtio_blk_outhdr = C_struct Repr_C
     [(''type_'', C_uint), (''ioprio'', C_uint), (''sector'', C_ulonglong)]"

definition virtio_blk_zone_descriptor :: c_type where
  "virtio_blk_zone_descriptor = C_struct Repr_C
     [(''z_cap'', C_ulonglong), (''z_start'', C_ulonglong), (''z_wp'', C_ulonglong),
      (''z_type'', C_uchar), (''z_state'', C_uchar), (''reserved'', C_array C_uchar 38)]"

definition virtio_blk_zone_report :: c_type where
  "virtio_blk_zone_report = C_struct Repr_C
     [(''nr_zones'', C_ulonglong), (''reserved'', C_array C_uchar 56),
      (''zones'', IncompleteArrayField virtio_blk_zone_descriptor)]"

definition virtio_blk_discard_write_zeroes :: c_type where
  "virtio_blk_discard_write_zeroes = C_struct Repr_C
     [(''sector'', C_ulonglong), (''num_sectors'', C_uint), (''flags'', C_uint)]"

definition virtio_scsi_inhdr :: c_type where
  "virtio_scsi_inhdr = C_struct Repr_C
     [(''errors'', C_uint), (''data_len'', C_uint), (''sense_len'', C_uint),
      (''residual'', C_uint)]"

text \<open>The structures with the checks the file makes of them, in the order of the definitions above.\<close>

definition virtio_blk_bindings :: "(c_type \<times> layout_check) list" where
  "virtio_blk_bindings =
     [(virtio_blk_config_virtio_blk_geometry,
       \<lparr>lc_size = 4, lc_align = 2, lc_offsets =
        [(''cylinders'', 0), (''heads'', 2), (''sectors'', 3)]\<rparr>),
      (virtio_blk_config_virtio_blk_zoned_characteristics,
       \<lparr>lc_size = 24, lc_align = 4, lc_offsets =
        [(''zone_sectors'', 0), (''max_open_zones'', 4), (''max_active_zones'', 8),
         (''max_append_sectors'', 12), (''write_granularity'', 16), (''model'', 20), (''unused2'', 21)]\<rparr>),
      (virtio_blk_config,
       \<lparr>lc_size = 96, lc_align = 1, lc_offsets =
        [(''capacity'', 0), (''size_max'', 8), (''seg_max'', 12), (''geometry'', 16),
         (''blk_size'', 20), (''physical_block_exp'', 24), (''alignment_offset'', 25),
         (''min_io_size'', 26), (''opt_io_size'', 28), (''wce'', 32), (''unused'', 33),
         (''num_queues'', 34), (''max_discard_sectors'', 36), (''max_discard_seg'', 40),
         (''discard_sector_alignment'', 44), (''max_write_zeroes_sectors'', 48),
         (''max_write_zeroes_seg'', 52), (''write_zeroes_may_unmap'', 56), (''unused1'', 57),
         (''max_secure_erase_sectors'', 60), (''max_secure_erase_seg'', 64),
         (''secure_erase_sector_alignment'', 68), (''zoned'', 72)]\<rparr>),
      (virtio_blk_outhdr,
       \<lparr>lc_size = 16, lc_align = 8, lc_offsets =
        [(''type_'', 0), (''ioprio'', 4), (''sector'', 8)]\<rparr>),
      (virtio_blk_zone_descriptor,
       \<lparr>lc_size = 64, lc_align = 8, lc_offsets =
        [(''z_cap'', 0), (''z_start'', 8), (''z_wp'', 16), (''z_type'', 24), (''z_state'', 25),
         (''reserved'', 26)]\<rparr>),
      (virtio_blk_zone_report,
       \<lparr>lc_size = 64, lc_align = 8, lc_offsets =
        [(''nr_zones'', 0), (''reserved'', 8), (''zones'', 64)]\<rparr>),
      (virtio_blk_discard_write_zeroes,
       \<lparr>lc_size = 16, lc_align = 8, lc_offsets =
        [(''sector'', 0), (''num_sectors'', 8), (''flags'', 12)]\<rparr>),
      (virtio_scsi_inhdr,
       \<lparr>lc_size = 16, lc_align = 4, lc_offsets =
        [(''errors'', 0), (''data_len'', 4), (''sense_len'', 8), (''residual'', 12)]\<rparr>)]"

lemmas virtio_blk_defs =
  virtio_blk_config_virtio_blk_geometry_def
  virtio_blk_config_virtio_blk_zoned_characteristics_def virtio_blk_config_def
  virtio_blk_outhdr_def virtio_blk_zone_descriptor_def virtio_blk_zone_report_def
  virtio_blk_discard_write_zeroes_def virtio_scsi_inhdr_def

end
