(* ===== verification/Bindings_Net.thy ===== *)
theory Bindings_Net
  imports C_Layout
begin

text \<open>
  The structures of \<open>virtio_net.rs\<close>: the packed configuration space, the packet headers with their union of
  checksum fields, the control commands and the statistics replies.
  The types of the structures, and the layouts the file checks of them.
\<close>

definition virtio_net_config :: c_type where
  "virtio_net_config = C_struct Repr_C_packed
     [(''mac'', C_array C_uchar 6), (''status'', C_ushort), (''max_virtqueue_pairs'', C_ushort),
      (''mtu'', C_ushort), (''speed'', C_uint), (''duplex'', C_uchar),
      (''rss_max_key_size'', C_uchar), (''rss_max_indirection_table_length'', C_ushort),
      (''supported_hash_types'', C_uint)]"

definition virtio_net_hdr_v1__bindgen_ty_1__bindgen_ty_1 :: c_type where
  "virtio_net_hdr_v1__bindgen_ty_1__bindgen_ty_1 = C_struct Repr_C
     [(''csum_start'', C_ushort), (''csum_offset'', C_ushort)]"

definition virtio_net_hdr_v1__bindgen_ty_1__bindgen_ty_2 :: c_type where
  "virtio_net_hdr_v1__bindgen_ty_1__bindgen_ty_2 = C_struct Repr_C
     [(''start'', C_ushort), (''offset'', C_ushort)]"

definition virtio_net_hdr_v1__bindgen_ty_1__bindgen_ty_3 :: c_type where
  "virtio_net_hdr_v1__bindgen_ty_1__bindgen_ty_3 = C_struct Repr_C
     [(''segments'', C_ushort), (''dup_acks'', C_ushort)]"

definition virtio_net_hdr_v1__bindgen_ty_1 :: c_type where
  "virtio_net_hdr_v1__bindgen_ty_1 = C_union
     [(''__bindgen_anon_1'', virtio_net_hdr_v1__bindgen_ty_1__bindgen_ty_1),
      (''csum'', virtio_net_hdr_v1__bindgen_ty_1__bindgen_ty_2),
      (''rsc'', virtio_net_hdr_v1__bindgen_ty_1__bindgen_ty_3)]"

definition virtio_net_hdr_v1 :: c_type where
  "virtio_net_hdr_v1 = C_struct Repr_C
     [(''flags'', C_uchar), (''gso_type'', C_uchar), (''hdr_len'', C_ushort),
      (''gso_size'', C_ushort), (''__bindgen_anon_1'', virtio_net_hdr_v1__bindgen_ty_1),
      (''num_buffers'', C_ushort)]"

definition virtio_net_hdr_v1_hash :: c_type where
  "virtio_net_hdr_v1_hash = C_struct Repr_C
     [(''hdr'', virtio_net_hdr_v1), (''hash_value'', C_uint), (''hash_report'', C_ushort),
      (''padding'', C_ushort)]"

definition virtio_net_hdr :: c_type where
  "virtio_net_hdr = C_struct Repr_C
     [(''flags'', C_uchar), (''gso_type'', C_uchar), (''hdr_len'', C_ushort),
      (''gso_size'', C_ushort), (''csum_start'', C_ushort), (''csum_offset'', C_ushort)]"

definition virtio_net_hdr_mrg_rxbuf :: c_type where
  "virtio_net_hdr_mrg_rxbuf = C_struct Repr_C
     [(''hdr'', virtio_net_hdr), (''num_buffers'', C_ushort)]"

definition virtio_net_ctrl_hdr :: c_type where
  "virtio_net_ctrl_hdr = C_struct Repr_C_packed
     [(''class'', C_uchar), (''cmd'', C_uchar)]"

definition virtio_net_ctrl_mac :: c_type where
  "virtio_net_ctrl_mac = C_struct Repr_C_packed
     [(''entries'', C_uint), (''macs'', IncompleteArrayField (C_array C_uchar 6))]"

definition virtio_net_ctrl_mq :: c_type where
  "virtio_net_ctrl_mq = C_struct Repr_C
     [(''virtqueue_pairs'', C_ushort)]"

definition virtio_net_rss_config :: c_type where
  "virtio_net_rss_config = C_struct Repr_C
     [(''hash_types'', C_uint), (''indirection_table_mask'', C_ushort),
      (''unclassified_queue'', C_ushort), (''indirection_table'', C_array C_ushort 1),
      (''max_tx_vq'', C_ushort), (''hash_key_length'', C_uchar),
      (''hash_key_data'', IncompleteArrayField C_uchar)]"

definition virtio_net_rss_config_hdr :: c_type where
  "virtio_net_rss_config_hdr = C_struct Repr_C
     [(''hash_types'', C_uint), (''indirection_table_mask'', C_ushort),
      (''unclassified_queue'', C_ushort), (''indirection_table'', IncompleteArrayField C_ushort)]"

definition virtio_net_rss_config_trailer :: c_type where
  "virtio_net_rss_config_trailer = C_struct Repr_C
     [(''max_tx_vq'', C_ushort), (''hash_key_length'', C_uchar),
      (''hash_key_data'', IncompleteArrayField C_uchar)]"

definition virtio_net_hash_config :: c_type where
  "virtio_net_hash_config = C_struct Repr_C
     [(''hash_types'', C_uint), (''reserved'', C_array C_ushort 4),
      (''hash_key_length'', C_uchar), (''hash_key_data'', IncompleteArrayField C_uchar)]"

definition virtio_net_ctrl_coal_tx :: c_type where
  "virtio_net_ctrl_coal_tx = C_struct Repr_C
     [(''tx_max_packets'', C_uint), (''tx_usecs'', C_uint)]"

definition virtio_net_ctrl_coal_rx :: c_type where
  "virtio_net_ctrl_coal_rx = C_struct Repr_C
     [(''rx_max_packets'', C_uint), (''rx_usecs'', C_uint)]"

definition virtio_net_ctrl_coal :: c_type where
  "virtio_net_ctrl_coal = C_struct Repr_C
     [(''max_packets'', C_uint), (''max_usecs'', C_uint)]"

definition virtio_net_ctrl_coal_vq :: c_type where
  "virtio_net_ctrl_coal_vq = C_struct Repr_C
     [(''vqn'', C_ushort), (''reserved'', C_ushort), (''coal'', virtio_net_ctrl_coal)]"

definition virtio_net_stats_capabilities :: c_type where
  "virtio_net_stats_capabilities = C_struct Repr_C
     [(''supported_stats_types'', C_array C_ulonglong 1)]"

definition virtio_net_ctrl_queue_stats__bindgen_ty_1 :: c_type where
  "virtio_net_ctrl_queue_stats__bindgen_ty_1 = C_struct Repr_C
     [(''vq_index'', C_ushort), (''reserved'', C_array C_ushort 3),
      (''types_bitmap'', C_array C_ulonglong 1)]"

definition virtio_net_ctrl_queue_stats :: c_type where
  "virtio_net_ctrl_queue_stats = C_struct Repr_C
     [(''stats'', C_array virtio_net_ctrl_queue_stats__bindgen_ty_1 1)]"

definition virtio_net_stats_reply_hdr :: c_type where
  "virtio_net_stats_reply_hdr = C_struct Repr_C
     [(''type_'', C_uchar), (''reserved'', C_uchar), (''vq_index'', C_ushort),
      (''reserved1'', C_ushort), (''size'', C_ushort)]"

definition virtio_net_stats_cvq :: c_type where
  "virtio_net_stats_cvq = C_struct Repr_C
     [(''hdr'', virtio_net_stats_reply_hdr), (''command_num'', C_ulonglong),
      (''ok_num'', C_ulonglong)]"

definition virtio_net_stats_rx_basic :: c_type where
  "virtio_net_stats_rx_basic = C_struct Repr_C
     [(''hdr'', virtio_net_stats_reply_hdr), (''rx_notifications'', C_ulonglong),
      (''rx_packets'', C_ulonglong), (''rx_bytes'', C_ulonglong),
      (''rx_interrupts'', C_ulonglong), (''rx_drops'', C_ulonglong),
      (''rx_drop_overruns'', C_ulonglong)]"

definition virtio_net_stats_tx_basic :: c_type where
  "virtio_net_stats_tx_basic = C_struct Repr_C
     [(''hdr'', virtio_net_stats_reply_hdr), (''tx_notifications'', C_ulonglong),
      (''tx_packets'', C_ulonglong), (''tx_bytes'', C_ulonglong),
      (''tx_interrupts'', C_ulonglong), (''tx_drops'', C_ulonglong),
      (''tx_drop_malformed'', C_ulonglong)]"

definition virtio_net_stats_rx_csum :: c_type where
  "virtio_net_stats_rx_csum = C_struct Repr_C
     [(''hdr'', virtio_net_stats_reply_hdr), (''rx_csum_valid'', C_ulonglong),
      (''rx_needs_csum'', C_ulonglong), (''rx_csum_none'', C_ulonglong),
      (''rx_csum_bad'', C_ulonglong)]"

definition virtio_net_stats_tx_csum :: c_type where
  "virtio_net_stats_tx_csum = C_struct Repr_C
     [(''hdr'', virtio_net_stats_reply_hdr), (''tx_csum_none'', C_ulonglong),
      (''tx_needs_csum'', C_ulonglong)]"

definition virtio_net_stats_rx_gso :: c_type where
  "virtio_net_stats_rx_gso = C_struct Repr_C
     [(''hdr'', virtio_net_stats_reply_hdr), (''rx_gso_packets'', C_ulonglong),
      (''rx_gso_bytes'', C_ulonglong), (''rx_gso_packets_coalesced'', C_ulonglong),
      (''rx_gso_bytes_coalesced'', C_ulonglong)]"

definition virtio_net_stats_tx_gso :: c_type where
  "virtio_net_stats_tx_gso = C_struct Repr_C
     [(''hdr'', virtio_net_stats_reply_hdr), (''tx_gso_packets'', C_ulonglong),
      (''tx_gso_bytes'', C_ulonglong), (''tx_gso_segments'', C_ulonglong),
      (''tx_gso_segments_bytes'', C_ulonglong), (''tx_gso_packets_noseg'', C_ulonglong),
      (''tx_gso_bytes_noseg'', C_ulonglong)]"

definition virtio_net_stats_rx_speed :: c_type where
  "virtio_net_stats_rx_speed = C_struct Repr_C
     [(''hdr'', virtio_net_stats_reply_hdr), (''rx_ratelimit_packets'', C_ulonglong),
      (''rx_ratelimit_bytes'', C_ulonglong)]"

definition virtio_net_stats_tx_speed :: c_type where
  "virtio_net_stats_tx_speed = C_struct Repr_C
     [(''hdr'', virtio_net_stats_reply_hdr), (''tx_ratelimit_packets'', C_ulonglong),
      (''tx_ratelimit_bytes'', C_ulonglong)]"

text \<open>The structures with the checks the file makes of them, in the order of the definitions above.\<close>

definition virtio_net_bindings :: "(c_type \<times> layout_check) list" where
  "virtio_net_bindings =
     [(virtio_net_config,
       \<lparr>lc_size = 24, lc_align = 1, lc_offsets =
        [(''mac'', 0), (''status'', 6), (''max_virtqueue_pairs'', 8), (''mtu'', 10), (''speed'', 12),
         (''duplex'', 16), (''rss_max_key_size'', 17), (''rss_max_indirection_table_length'', 18),
         (''supported_hash_types'', 20)]\<rparr>),
      (virtio_net_hdr_v1__bindgen_ty_1__bindgen_ty_1,
       \<lparr>lc_size = 4, lc_align = 2, lc_offsets =
        [(''csum_start'', 0), (''csum_offset'', 2)]\<rparr>),
      (virtio_net_hdr_v1__bindgen_ty_1__bindgen_ty_2,
       \<lparr>lc_size = 4, lc_align = 2, lc_offsets =
        [(''start'', 0), (''offset'', 2)]\<rparr>),
      (virtio_net_hdr_v1__bindgen_ty_1__bindgen_ty_3,
       \<lparr>lc_size = 4, lc_align = 2, lc_offsets =
        [(''segments'', 0), (''dup_acks'', 2)]\<rparr>),
      (virtio_net_hdr_v1__bindgen_ty_1,
       \<lparr>lc_size = 4, lc_align = 2, lc_offsets =
        [(''csum'', 0), (''rsc'', 0)]\<rparr>),
      (virtio_net_hdr_v1,
       \<lparr>lc_size = 12, lc_align = 2, lc_offsets =
        [(''flags'', 0), (''gso_type'', 1), (''hdr_len'', 2), (''gso_size'', 4), (''num_buffers'', 10)]\<rparr>),
      (virtio_net_hdr_v1_hash,
       \<lparr>lc_size = 20, lc_align = 4, lc_offsets =
        [(''hdr'', 0), (''hash_value'', 12), (''hash_report'', 16), (''padding'', 18)]\<rparr>),
      (virtio_net_hdr,
       \<lparr>lc_size = 10, lc_align = 2, lc_offsets =
        [(''flags'', 0), (''gso_type'', 1), (''hdr_len'', 2), (''gso_size'', 4), (''csum_start'', 6),
         (''csum_offset'', 8)]\<rparr>),
      (virtio_net_hdr_mrg_rxbuf,
       \<lparr>lc_size = 12, lc_align = 2, lc_offsets =
        [(''hdr'', 0), (''num_buffers'', 10)]\<rparr>),
      (virtio_net_ctrl_hdr,
       \<lparr>lc_size = 2, lc_align = 1, lc_offsets =
        [(''class'', 0), (''cmd'', 1)]\<rparr>),
      (virtio_net_ctrl_mac,
       \<lparr>lc_size = 4, lc_align = 1, lc_offsets =
        [(''entries'', 0), (''macs'', 4)]\<rparr>),
      (virtio_net_ctrl_mq,
       \<lparr>lc_size = 2, lc_align = 2, lc_offsets =
        [(''virtqueue_pairs'', 0)]\<rparr>),
      (virtio_net_rss_config,
       \<lparr>lc_size = 16, lc_align = 4, lc_offsets =
        [(''hash_types'', 0), (''indirection_table_mask'', 4), (''unclassified_queue'', 6),
         (''indirection_table'', 8), (''max_tx_vq'', 10), (''hash_key_length'', 12),
         (''hash_key_data'', 13)]\<rparr>),
      (virtio_net_rss_config_hdr,
       \<lparr>lc_size = 8, lc_align = 4, lc_offsets =
        [(''hash_types'', 0), (''indirection_table_mask'', 4), (''unclassified_queue'', 6),
         (''indirection_table'', 8)]\<rparr>),
      (virtio_net_rss_config_trailer,
       \<lparr>lc_size = 4, lc_align = 2, lc_offsets =
        [(''max_tx_vq'', 0), (''hash_key_length'', 2), (''hash_key_data'', 3)]\<rparr>),
      (virtio_net_hash_config,
       \<lparr>lc_size = 16, lc_align = 4, lc_offsets =
        [(''hash_types'', 0), (''reserved'', 4), (''hash_key_length'', 12), (''hash_key_data'', 13)]\<rparr>),
      (virtio_net_ctrl_coal_tx,
       \<lparr>lc_size = 8, lc_align = 4, lc_offsets =
        [(''tx_max_packets'', 0), (''tx_usecs'', 4)]\<rparr>),
      (virtio_net_ctrl_coal_rx,
       \<lparr>lc_size = 8, lc_align = 4, lc_offsets =
        [(''rx_max_packets'', 0), (''rx_usecs'', 4)]\<rparr>),
      (virtio_net_ctrl_coal,
       \<lparr>lc_size = 8, lc_align = 4, lc_offsets =
        [(''max_packets'', 0), (''max_usecs'', 4)]\<rparr>),
      (virtio_net_ctrl_coal_vq,
       \<lparr>lc_size = 12, lc_align = 4, lc_offsets =
        [(''vqn'', 0), (''reserved'', 2), (''coal'', 4)]\<rparr>),
      (virtio_net_stats_capabilities,
       \<lparr>lc_size = 8, lc_align = 8, lc_offsets =
        [(''supported_stats_types'', 0)]\<rparr>),
      (virtio_net_ctrl_queue_stats__bindgen_ty_1,
       \<lparr>lc_size = 16, lc_align = 8, lc_offsets =
        [(''vq_index'', 0), (''reserved'', 2), (''types_bitmap'', 8)]\<rparr>),
      (virtio_net_ctrl_queue_stats,
       \<lparr>lc_size = 16, lc_align = 8, lc_offsets =
        [(''stats'', 0)]\<rparr>),
      (virtio_net_stats_reply_hdr,
       \<lparr>lc_size = 8, lc_align = 2, lc_offsets =
        [(''type_'', 0), (''reserved'', 1), (''vq_index'', 2), (''reserved1'', 4), (''size'', 6)]\<rparr>),
      (virtio_net_stats_cvq,
       \<lparr>lc_size = 24, lc_align = 8, lc_offsets =
        [(''hdr'', 0), (''command_num'', 8), (''ok_num'', 16)]\<rparr>),
      (virtio_net_stats_rx_basic,
       \<lparr>lc_size = 56, lc_align = 8, lc_offsets =
        [(''hdr'', 0), (''rx_notifications'', 8), (''rx_packets'', 16), (''rx_bytes'', 24),
         (''rx_interrupts'', 32), (''rx_drops'', 40), (''rx_drop_overruns'', 48)]\<rparr>),
      (virtio_net_stats_tx_basic,
       \<lparr>lc_size = 56, lc_align = 8, lc_offsets =
        [(''hdr'', 0), (''tx_notifications'', 8), (''tx_packets'', 16), (''tx_bytes'', 24),
         (''tx_interrupts'', 32), (''tx_drops'', 40), (''tx_drop_malformed'', 48)]\<rparr>),
      (virtio_net_stats_rx_csum,
       \<lparr>lc_size = 40, lc_align = 8, lc_offsets =
        [(''hdr'', 0), (''rx_csum_valid'', 8), (''rx_needs_csum'', 16), (''rx_csum_none'', 24),
         (''rx_csum_bad'', 32)]\<rparr>),
      (virtio_net_stats_tx_csum,
       \<lparr>lc_size = 24, lc_align = 8, lc_offsets =
        [(''hdr'', 0), (''tx_csum_none'', 8), (''tx_needs_csum'', 16)]\<rparr>),
      (virtio_net_stats_rx_gso,
       \<lparr>lc_size = 40, lc_align = 8, lc_offsets =
        [(''hdr'', 0), (''rx_gso_packets'', 8), (''rx_gso_bytes'', 16),
         (''rx_gso_packets_coalesced'', 24), (''rx_gso_bytes_coalesced'', 32)]\<rparr>),
      (virtio_net_stats_tx_gso,
       \<lparr>lc_size = 56, lc_align = 8, lc_offsets =
        [(''hdr'', 0), (''tx_gso_packets'', 8), (''tx_gso_bytes'', 16), (''tx_gso_segments'', 24),
         (''tx_gso_segments_bytes'', 32), (''tx_gso_packets_noseg'', 40), (''tx_gso_bytes_noseg'', 48)]\<rparr>),
      (virtio_net_stats_rx_speed,
       \<lparr>lc_size = 24, lc_align = 8, lc_offsets =
        [(''hdr'', 0), (''rx_ratelimit_packets'', 8), (''rx_ratelimit_bytes'', 16)]\<rparr>),
      (virtio_net_stats_tx_speed,
       \<lparr>lc_size = 24, lc_align = 8, lc_offsets =
        [(''hdr'', 0), (''tx_ratelimit_packets'', 8), (''tx_ratelimit_bytes'', 16)]\<rparr>)]"

lemmas virtio_net_defs =
  virtio_net_config_def virtio_net_hdr_v1__bindgen_ty_1__bindgen_ty_1_def
  virtio_net_hdr_v1__bindgen_ty_1__bindgen_ty_2_def
  virtio_net_hdr_v1__bindgen_ty_1__bindgen_ty_3_def virtio_net_hdr_v1__bindgen_ty_1_def
  virtio_net_hdr_v1_def virtio_net_hdr_v1_hash_def virtio_net_hdr_def
  virtio_net_hdr_mrg_rxbuf_def virtio_net_ctrl_hdr_def virtio_net_ctrl_mac_def
  virtio_net_ctrl_mq_def virtio_net_rss_config_def virtio_net_rss_config_hdr_def
  virtio_net_rss_config_trailer_def virtio_net_hash_config_def virtio_net_ctrl_coal_tx_def
  virtio_net_ctrl_coal_rx_def virtio_net_ctrl_coal_def virtio_net_ctrl_coal_vq_def
  virtio_net_stats_capabilities_def virtio_net_ctrl_queue_stats__bindgen_ty_1_def
  virtio_net_ctrl_queue_stats_def virtio_net_stats_reply_hdr_def virtio_net_stats_cvq_def
  virtio_net_stats_rx_basic_def virtio_net_stats_tx_basic_def virtio_net_stats_rx_csum_def
  virtio_net_stats_tx_csum_def virtio_net_stats_rx_gso_def virtio_net_stats_tx_gso_def
  virtio_net_stats_rx_speed_def virtio_net_stats_tx_speed_def

end
