(* ===== verification/Bindings_Scsi.thy ===== *)
theory Bindings_Scsi
  imports C_Layout
begin

text \<open>
  The packed structures of \<open>virtio_scsi.rs\<close>: command and control requests with their responses, events and
  the configuration space.
  The types of the structures, and the layouts the file checks of them.
\<close>

definition virtio_scsi_cmd_req :: c_type where
  "virtio_scsi_cmd_req = C_struct Repr_C_packed
     [(''lun'', C_array C_uchar 8), (''tag'', C_ulonglong), (''task_attr'', C_uchar),
      (''prio'', C_uchar), (''crn'', C_uchar), (''cdb'', C_array C_uchar 32)]"

definition virtio_scsi_cmd_req_pi :: c_type where
  "virtio_scsi_cmd_req_pi = C_struct Repr_C_packed
     [(''lun'', C_array C_uchar 8), (''tag'', C_ulonglong), (''task_attr'', C_uchar),
      (''prio'', C_uchar), (''crn'', C_uchar), (''pi_bytesout'', C_uint),
      (''pi_bytesin'', C_uint), (''cdb'', C_array C_uchar 32)]"

definition virtio_scsi_cmd_resp :: c_type where
  "virtio_scsi_cmd_resp = C_struct Repr_C_packed
     [(''sense_len'', C_uint), (''resid'', C_uint), (''status_qualifier'', C_ushort),
      (''status'', C_uchar), (''response'', C_uchar), (''sense'', C_array C_uchar 96)]"

definition virtio_scsi_ctrl_tmf_req :: c_type where
  "virtio_scsi_ctrl_tmf_req = C_struct Repr_C_packed
     [(''type_'', C_uint), (''subtype'', C_uint), (''lun'', C_array C_uchar 8),
      (''tag'', C_ulonglong)]"

definition virtio_scsi_ctrl_tmf_resp :: c_type where
  "virtio_scsi_ctrl_tmf_resp = C_struct Repr_C_packed
     [(''response'', C_uchar)]"

definition virtio_scsi_ctrl_an_req :: c_type where
  "virtio_scsi_ctrl_an_req = C_struct Repr_C_packed
     [(''type_'', C_uint), (''lun'', C_array C_uchar 8), (''event_requested'', C_uint)]"

definition virtio_scsi_ctrl_an_resp :: c_type where
  "virtio_scsi_ctrl_an_resp = C_struct Repr_C_packed
     [(''event_actual'', C_uint), (''response'', C_uchar)]"

definition virtio_scsi_event :: c_type where
  "virtio_scsi_event = C_struct Repr_C_packed
     [(''event'', C_uint), (''lun'', C_array C_uchar 8), (''reason'', C_uint)]"

definition virtio_scsi_config :: c_type where
  "virtio_scsi_config = C_struct Repr_C_packed
     [(''num_queues'', C_uint), (''seg_max'', C_uint), (''max_sectors'', C_uint),
      (''cmd_per_lun'', C_uint), (''event_info_size'', C_uint), (''sense_size'', C_uint),
      (''cdb_size'', C_uint), (''max_channel'', C_ushort), (''max_target'', C_ushort),
      (''max_lun'', C_uint)]"

text \<open>The structures with the checks the file makes of them, in the order of the definitions above.\<close>

definition virtio_scsi_bindings :: "(c_type \<times> layout_check) list" where
  "virtio_scsi_bindings =
     [(virtio_scsi_cmd_req,
       \<lparr>lc_size = 51, lc_align = 1, lc_offsets =
        [(''lun'', 0), (''tag'', 8), (''task_attr'', 16), (''prio'', 17), (''crn'', 18), (''cdb'', 19)]\<rparr>),
      (virtio_scsi_cmd_req_pi,
       \<lparr>lc_size = 59, lc_align = 1, lc_offsets =
        [(''lun'', 0), (''tag'', 8), (''task_attr'', 16), (''prio'', 17), (''crn'', 18),
         (''pi_bytesout'', 19), (''pi_bytesin'', 23), (''cdb'', 27)]\<rparr>),
      (virtio_scsi_cmd_resp,
       \<lparr>lc_size = 108, lc_align = 1, lc_offsets =
        [(''sense_len'', 0), (''resid'', 4), (''status_qualifier'', 8), (''status'', 10),
         (''response'', 11), (''sense'', 12)]\<rparr>),
      (virtio_scsi_ctrl_tmf_req,
       \<lparr>lc_size = 24, lc_align = 1, lc_offsets =
        [(''type_'', 0), (''subtype'', 4), (''lun'', 8), (''tag'', 16)]\<rparr>),
      (virtio_scsi_ctrl_tmf_resp,
       \<lparr>lc_size = 1, lc_align = 1, lc_offsets =
        [(''response'', 0)]\<rparr>),
      (virtio_scsi_ctrl_an_req,
       \<lparr>lc_size = 16, lc_align = 1, lc_offsets =
        [(''type_'', 0), (''lun'', 4), (''event_requested'', 12)]\<rparr>),
      (virtio_scsi_ctrl_an_resp,
       \<lparr>lc_size = 5, lc_align = 1, lc_offsets =
        [(''event_actual'', 0), (''response'', 4)]\<rparr>),
      (virtio_scsi_event,
       \<lparr>lc_size = 16, lc_align = 1, lc_offsets =
        [(''event'', 0), (''lun'', 4), (''reason'', 12)]\<rparr>),
      (virtio_scsi_config,
       \<lparr>lc_size = 36, lc_align = 1, lc_offsets =
        [(''num_queues'', 0), (''seg_max'', 4), (''max_sectors'', 8), (''cmd_per_lun'', 12),
         (''event_info_size'', 16), (''sense_size'', 20), (''cdb_size'', 24), (''max_channel'', 28),
         (''max_target'', 30), (''max_lun'', 32)]\<rparr>)]"

lemmas virtio_scsi_defs =
  virtio_scsi_cmd_req_def virtio_scsi_cmd_req_pi_def virtio_scsi_cmd_resp_def
  virtio_scsi_ctrl_tmf_req_def virtio_scsi_ctrl_tmf_resp_def virtio_scsi_ctrl_an_req_def
  virtio_scsi_ctrl_an_resp_def virtio_scsi_event_def virtio_scsi_config_def

end
