(* ===== verification/Bindings_Input.thy ===== *)
theory Bindings_Input
  imports C_Layout
begin

text \<open>
  The structures of \<open>virtio_input.rs\<close>: absolute axis information, device ids, the configuration space with
  its union and the input event.
  The types of the structures, and the layouts the file checks of them.
\<close>

definition virtio_input_absinfo :: c_type where
  "virtio_input_absinfo = C_struct Repr_C
     [(''min'', C_uint), (''max'', C_uint), (''fuzz'', C_uint), (''flat'', C_uint),
      (''res'', C_uint)]"

definition virtio_input_devids :: c_type where
  "virtio_input_devids = C_struct Repr_C
     [(''bustype'', C_ushort), (''vendor'', C_ushort), (''product'', C_ushort),
      (''version'', C_ushort)]"

definition virtio_input_config__bindgen_ty_1 :: c_type where
  "virtio_input_config__bindgen_ty_1 = C_union
     [(''string'', C_array C_char 128), (''bitmap'', C_array C_uchar 128),
      (''abs'', virtio_input_absinfo), (''ids'', virtio_input_devids)]"

definition virtio_input_config :: c_type where
  "virtio_input_config = C_struct Repr_C
     [(''select'', C_uchar), (''subsel'', C_uchar), (''size'', C_uchar),
      (''reserved'', C_array C_uchar 5), (''u'', virtio_input_config__bindgen_ty_1)]"

definition virtio_input_event :: c_type where
  "virtio_input_event = C_struct Repr_C
     [(''type_'', C_ushort), (''code'', C_ushort), (''value'', C_uint)]"

text \<open>The structures with the checks the file makes of them, in the order of the definitions above.\<close>

definition virtio_input_bindings :: "(c_type \<times> layout_check) list" where
  "virtio_input_bindings =
     [(virtio_input_absinfo,
       \<lparr>lc_size = 20, lc_align = 4, lc_offsets =
        [(''min'', 0), (''max'', 4), (''fuzz'', 8), (''flat'', 12), (''res'', 16)]\<rparr>),
      (virtio_input_devids,
       \<lparr>lc_size = 8, lc_align = 2, lc_offsets =
        [(''bustype'', 0), (''vendor'', 2), (''product'', 4), (''version'', 6)]\<rparr>),
      (virtio_input_config__bindgen_ty_1,
       \<lparr>lc_size = 128, lc_align = 4, lc_offsets =
        [(''string'', 0), (''bitmap'', 0), (''abs'', 0), (''ids'', 0)]\<rparr>),
      (virtio_input_config,
       \<lparr>lc_size = 136, lc_align = 4, lc_offsets =
        [(''select'', 0), (''subsel'', 1), (''size'', 2), (''reserved'', 3), (''u'', 8)]\<rparr>),
      (virtio_input_event,
       \<lparr>lc_size = 8, lc_align = 4, lc_offsets =
        [(''type_'', 0), (''code'', 2), (''value'', 4)]\<rparr>)]"

lemmas virtio_input_defs =
  virtio_input_absinfo_def virtio_input_devids_def virtio_input_config__bindgen_ty_1_def
  virtio_input_config_def virtio_input_event_def

end
