(* ===== verification/Bindings_Gpu.thy ===== *)
theory Bindings_Gpu
  imports C_Layout
begin

text \<open>
  The structures of \<open>virtio_gpu.rs\<close>: the control header every request and response starts with, the 2d, 3d,
  cursor and blob commands, and the configuration space.
  The types of the structures, and the layouts the file checks of them.
\<close>

definition virtio_gpu_ctrl_hdr :: c_type where
  "virtio_gpu_ctrl_hdr = C_struct Repr_C
     [(''type_'', C_uint), (''flags'', C_uint), (''fence_id'', C_ulonglong), (''ctx_id'', C_uint),
      (''ring_idx'', C_uchar), (''padding'', C_array C_uchar 3)]"

definition virtio_gpu_cursor_pos :: c_type where
  "virtio_gpu_cursor_pos = C_struct Repr_C
     [(''scanout_id'', C_uint), (''x'', C_uint), (''y'', C_uint), (''padding'', C_uint)]"

definition virtio_gpu_update_cursor :: c_type where
  "virtio_gpu_update_cursor = C_struct Repr_C
     [(''hdr'', virtio_gpu_ctrl_hdr), (''pos'', virtio_gpu_cursor_pos), (''resource_id'', C_uint),
      (''hot_x'', C_uint), (''hot_y'', C_uint), (''padding'', C_uint)]"

definition virtio_gpu_rect :: c_type where
  "virtio_gpu_rect = C_struct Repr_C
     [(''x'', C_uint), (''y'', C_uint), (''width'', C_uint), (''height'', C_uint)]"

definition virtio_gpu_resource_unref :: c_type where
  "virtio_gpu_resource_unref = C_struct Repr_C
     [(''hdr'', virtio_gpu_ctrl_hdr), (''resource_id'', C_uint), (''padding'', C_uint)]"

definition virtio_gpu_resource_create_2d :: c_type where
  "virtio_gpu_resource_create_2d = C_struct Repr_C
     [(''hdr'', virtio_gpu_ctrl_hdr), (''resource_id'', C_uint), (''format'', C_uint),
      (''width'', C_uint), (''height'', C_uint)]"

definition virtio_gpu_set_scanout :: c_type where
  "virtio_gpu_set_scanout = C_struct Repr_C
     [(''hdr'', virtio_gpu_ctrl_hdr), (''r'', virtio_gpu_rect), (''scanout_id'', C_uint),
      (''resource_id'', C_uint)]"

definition virtio_gpu_resource_flush :: c_type where
  "virtio_gpu_resource_flush = C_struct Repr_C
     [(''hdr'', virtio_gpu_ctrl_hdr), (''r'', virtio_gpu_rect), (''resource_id'', C_uint),
      (''padding'', C_uint)]"

definition virtio_gpu_transfer_to_host_2d :: c_type where
  "virtio_gpu_transfer_to_host_2d = C_struct Repr_C
     [(''hdr'', virtio_gpu_ctrl_hdr), (''r'', virtio_gpu_rect), (''offset'', C_ulonglong),
      (''resource_id'', C_uint), (''padding'', C_uint)]"

definition virtio_gpu_mem_entry :: c_type where
  "virtio_gpu_mem_entry = C_struct Repr_C
     [(''addr'', C_ulonglong), (''length'', C_uint), (''padding'', C_uint)]"

definition virtio_gpu_resource_attach_backing :: c_type where
  "virtio_gpu_resource_attach_backing = C_struct Repr_C
     [(''hdr'', virtio_gpu_ctrl_hdr), (''resource_id'', C_uint), (''nr_entries'', C_uint)]"

definition virtio_gpu_resource_detach_backing :: c_type where
  "virtio_gpu_resource_detach_backing = C_struct Repr_C
     [(''hdr'', virtio_gpu_ctrl_hdr), (''resource_id'', C_uint), (''padding'', C_uint)]"

definition virtio_gpu_resp_display_info_virtio_gpu_display_one :: c_type where
  "virtio_gpu_resp_display_info_virtio_gpu_display_one = C_struct Repr_C
     [(''r'', virtio_gpu_rect), (''enabled'', C_uint), (''flags'', C_uint)]"

definition virtio_gpu_resp_display_info :: c_type where
  "virtio_gpu_resp_display_info = C_struct Repr_C
     [(''hdr'', virtio_gpu_ctrl_hdr),
      (''pmodes'', C_array virtio_gpu_resp_display_info_virtio_gpu_display_one 16)]"

definition virtio_gpu_box :: c_type where
  "virtio_gpu_box = C_struct Repr_C
     [(''x'', C_uint), (''y'', C_uint), (''z'', C_uint), (''w'', C_uint), (''h'', C_uint),
      (''d'', C_uint)]"

definition virtio_gpu_transfer_host_3d :: c_type where
  "virtio_gpu_transfer_host_3d = C_struct Repr_C
     [(''hdr'', virtio_gpu_ctrl_hdr), (''box_'', virtio_gpu_box), (''offset'', C_ulonglong),
      (''resource_id'', C_uint), (''level'', C_uint), (''stride'', C_uint),
      (''layer_stride'', C_uint)]"

definition virtio_gpu_resource_create_3d :: c_type where
  "virtio_gpu_resource_create_3d = C_struct Repr_C
     [(''hdr'', virtio_gpu_ctrl_hdr), (''resource_id'', C_uint), (''target'', C_uint),
      (''format'', C_uint), (''bind'', C_uint), (''width'', C_uint), (''height'', C_uint),
      (''depth'', C_uint), (''array_size'', C_uint), (''last_level'', C_uint),
      (''nr_samples'', C_uint), (''flags'', C_uint), (''padding'', C_uint)]"

definition virtio_gpu_ctx_create :: c_type where
  "virtio_gpu_ctx_create = C_struct Repr_C
     [(''hdr'', virtio_gpu_ctrl_hdr), (''nlen'', C_uint), (''context_init'', C_uint),
      (''debug_name'', C_array C_char 64)]"

definition virtio_gpu_ctx_destroy :: c_type where
  "virtio_gpu_ctx_destroy = C_struct Repr_C
     [(''hdr'', virtio_gpu_ctrl_hdr)]"

definition virtio_gpu_ctx_resource :: c_type where
  "virtio_gpu_ctx_resource = C_struct Repr_C
     [(''hdr'', virtio_gpu_ctrl_hdr), (''resource_id'', C_uint), (''padding'', C_uint)]"

definition virtio_gpu_cmd_submit :: c_type where
  "virtio_gpu_cmd_submit = C_struct Repr_C
     [(''hdr'', virtio_gpu_ctrl_hdr), (''size'', C_uint), (''padding'', C_uint)]"

definition virtio_gpu_get_capset_info :: c_type where
  "virtio_gpu_get_capset_info = C_struct Repr_C
     [(''hdr'', virtio_gpu_ctrl_hdr), (''capset_index'', C_uint), (''padding'', C_uint)]"

definition virtio_gpu_resp_capset_info :: c_type where
  "virtio_gpu_resp_capset_info = C_struct Repr_C
     [(''hdr'', virtio_gpu_ctrl_hdr), (''capset_id'', C_uint), (''capset_max_version'', C_uint),
      (''capset_max_size'', C_uint), (''padding'', C_uint)]"

definition virtio_gpu_get_capset :: c_type where
  "virtio_gpu_get_capset = C_struct Repr_C
     [(''hdr'', virtio_gpu_ctrl_hdr), (''capset_id'', C_uint), (''capset_version'', C_uint)]"

definition virtio_gpu_resp_capset :: c_type where
  "virtio_gpu_resp_capset = C_struct Repr_C
     [(''hdr'', virtio_gpu_ctrl_hdr), (''capset_data'', IncompleteArrayField C_uchar)]"

definition virtio_gpu_cmd_get_edid :: c_type where
  "virtio_gpu_cmd_get_edid = C_struct Repr_C
     [(''hdr'', virtio_gpu_ctrl_hdr), (''scanout'', C_uint), (''padding'', C_uint)]"

definition virtio_gpu_resp_edid :: c_type where
  "virtio_gpu_resp_edid = C_struct Repr_C
     [(''hdr'', virtio_gpu_ctrl_hdr), (''size'', C_uint), (''padding'', C_uint),
      (''edid'', C_array C_uchar 1024)]"

definition virtio_gpu_config :: c_type where
  "virtio_gpu_config = C_struct Repr_C
     [(''events_read'', C_uint), (''events_clear'', C_uint), (''num_scanouts'', C_uint),
      (''num_capsets'', C_uint)]"

definition virtio_gpu_resource_assign_uuid :: c_type where
  "virtio_gpu_resource_assign_uuid = C_struct Repr_C
     [(''hdr'', virtio_gpu_ctrl_hdr), (''resource_id'', C_uint), (''padding'', C_uint)]"

definition virtio_gpu_resp_resource_uuid :: c_type where
  "virtio_gpu_resp_resource_uuid = C_struct Repr_C
     [(''hdr'', virtio_gpu_ctrl_hdr), (''uuid'', C_array C_uchar 16)]"

definition virtio_gpu_resource_create_blob :: c_type where
  "virtio_gpu_resource_create_blob = C_struct Repr_C
     [(''hdr'', virtio_gpu_ctrl_hdr), (''resource_id'', C_uint), (''blob_mem'', C_uint),
      (''blob_flags'', C_uint), (''nr_entries'', C_uint), (''blob_id'', C_ulonglong),
      (''size'', C_ulonglong)]"

definition virtio_gpu_set_scanout_blob :: c_type where
  "virtio_gpu_set_scanout_blob = C_struct Repr_C
     [(''hdr'', virtio_gpu_ctrl_hdr), (''r'', virtio_gpu_rect), (''scanout_id'', C_uint),
      (''resource_id'', C_uint), (''width'', C_uint), (''height'', C_uint), (''format'', C_uint),
      (''padding'', C_uint), (''strides'', C_array C_uint 4), (''offsets'', C_array C_uint 4)]"

definition virtio_gpu_resource_map_blob :: c_type where
  "virtio_gpu_resource_map_blob = C_struct Repr_C
     [(''hdr'', virtio_gpu_ctrl_hdr), (''resource_id'', C_uint), (''padding'', C_uint),
      (''offset'', C_ulonglong)]"

definition virtio_gpu_resp_map_info :: c_type where
  "virtio_gpu_resp_map_info = C_struct Repr_C
     [(''hdr'', virtio_gpu_ctrl_hdr), (''map_info'', C_uint), (''padding'', C_uint)]"

definition virtio_gpu_resource_unmap_blob :: c_type where
  "virtio_gpu_resource_unmap_blob = C_struct Repr_C
     [(''hdr'', virtio_gpu_ctrl_hdr), (''resource_id'', C_uint), (''padding'', C_uint)]"

text \<open>The structures with the checks the file makes of them, in the order of the definitions above.\<close>

definition virtio_gpu_bindings :: "(c_type \<times> layout_check) list" where
  "virtio_gpu_bindings =
     [(virtio_gpu_ctrl_hdr,
       \<lparr>lc_size = 24, lc_align = 8, lc_offsets =
        [(''type_'', 0), (''flags'', 4), (''fence_id'', 8), (''ctx_id'', 16), (''ring_idx'', 20),
         (''padding'', 21)]\<rparr>),
      (virtio_gpu_cursor_pos,
       \<lparr>lc_size = 16, lc_align = 4, lc_offsets =
        [(''scanout_id'', 0), (''x'', 4), (''y'', 8), (''padding'', 12)]\<rparr>),
      (virtio_gpu_update_cursor,
       \<lparr>lc_size = 56, lc_align = 8, lc_offsets =
        [(''hdr'', 0), (''pos'', 24), (''resource_id'', 40), (''hot_x'', 44), (''hot_y'', 48),
         (''padding'', 52)]\<rparr>),
      (virtio_gpu_rect,
       \<lparr>lc_size = 16, lc_align = 4, lc_offsets =
        [(''x'', 0), (''y'', 4), (''width'', 8), (''height'', 12)]\<rparr>),
      (virtio_gpu_resource_unref,
       \<lparr>lc_size = 32, lc_align = 8, lc_offsets =
        [(''hdr'', 0), (''resource_id'', 24), (''padding'', 28)]\<rparr>),
      (virtio_gpu_resource_create_2d,
       \<lparr>lc_size = 40, lc_align = 8, lc_offsets =
        [(''hdr'', 0), (''resource_id'', 24), (''format'', 28), (''width'', 32), (''height'', 36)]\<rparr>),
      (virtio_gpu_set_scanout,
       \<lparr>lc_size = 48, lc_align = 8, lc_offsets =
        [(''hdr'', 0), (''r'', 24), (''scanout_id'', 40), (''resource_id'', 44)]\<rparr>),
      (virtio_gpu_resource_flush,
       \<lparr>lc_size = 48, lc_align = 8, lc_offsets =
        [(''hdr'', 0), (''r'', 24), (''resource_id'', 40), (''padding'', 44)]\<rparr>),
      (virtio_gpu_transfer_to_host_2d,
       \<lparr>lc_size = 56, lc_align = 8, lc_offsets =
        [(''hdr'', 0), (''r'', 24), (''offset'', 40), (''resource_id'', 48), (''padding'', 52)]\<rparr>),
      (virtio_gpu_mem_entry,
       \<lparr>lc_size = 16, lc_align = 8, lc_offsets =
        [(''addr'', 0), (''length'', 8), (''padding'', 12)]\<rparr>),
      (virtio_gpu_resource_attach_backing,
       \<lparr>lc_size = 32, lc_align = 8, lc_offsets =
        [(''hdr'', 0), (''resource_id'', 24), (''nr_entries'', 28)]\<rparr>),
      (virtio_gpu_resource_detach_backing,
       \<lparr>lc_size = 32, lc_align = 8, lc_offsets =
        [(''hdr'', 0), (''resource_id'', 24), (''padding'', 28)]\<rparr>),
      (virtio_gpu_resp_display_info_virtio_gpu_display_one,
       \<lparr>lc_size = 24, lc_align = 4, lc_offsets =
        [(''r'', 0), (''enabled'', 16), (''flags'', 20)]\<rparr>),
      (virtio_gpu_resp_display_info,
       \<lparr>lc_size = 408, lc_align = 8, lc_offsets =
        [(''hdr'', 0), (''pmodes'', 24)]\<rparr>),
      (virtio_gpu_box,
       \<lparr>lc_size = 24, lc_align = 4, lc_offsets =
        [(''x'', 0), (''y'', 4), (''z'', 8), (''w'', 12), (''h'', 16), (''d'', 20)]\<rparr>),
      (virtio_gpu_transfer_host_3d,
       \<lparr>lc_size = 72, lc_align = 8, lc_offsets =
        [(''hdr'', 0), (''box_'', 24), (''offset'', 48), (''resource_id'', 56), (''level'', 60),
         (''stride'', 64), (''layer_stride'', 68)]\<rparr>),
      (virtio_gpu_resource_create_3d,
       \<lparr>lc_size = 72, lc_align = 8, lc_offsets =
        [(''hdr'', 0), (''resource_id'', 24), (''target'', 28), (''format'', 32), (''bind'', 36),
         (''width'', 40), (''height'', 44), (''depth'', 48), (''array_size'', 52),
         (''last_level'', 56), (''nr_samples'', 60), (''flags'', 64), (''padding'', 68)]\<rparr>),
      (virtio_gpu_ctx_create,
       \<lparr>lc_size = 96, lc_align = 8, lc_offsets =
        [(''hdr'', 0), (''nlen'', 24), (''context_init'', 28), (''debug_name'', 32)]\<rparr>),
      (virtio_gpu_ctx_destroy,
       \<lparr>lc_size = 24, lc_align = 8, lc_offsets =
        [(''hdr'', 0)]\<rparr>),
      (virtio_gpu_ctx_resource,
       \<lparr>lc_size = 32, lc_align = 8, lc_offsets =
        [(''hdr'', 0), (''resource_id'', 24), (''padding'', 28)]\<rparr>),
      (virtio_gpu_cmd_submit,
       \<lparr>lc_size = 32, lc_align = 8, lc_offsets =
        [(''hdr'', 0), (''size'', 24), (''padding'', 28)]\<rparr>),
      (virtio_gpu_get_capset_info,
       \<lparr>lc_size = 32, lc_align = 8, lc_offsets =
        [(''hdr'', 0), (''capset_index'', 24), (''padding'', 28)]\<rparr>),
      (virtio_gpu_resp_capset_info,
       \<lparr>lc_size = 40, lc_align = 8, lc_offsets =
        [(''hdr'', 0), (''capset_id'', 24), (''capset_max_version'', 28), (''capset_max_size'', 32),
         (''padding'', 36)]\<rparr>),
      (virtio_gpu_get_capset,
       \<lparr>lc_size = 32, lc_align = 8, lc_offsets =
        [(''hdr'', 0), (''capset_id'', 24), (''capset_version'', 28)]\<rparr>),
      (virtio_gpu_resp_capset,
       \<lparr>lc_size = 24, lc_align = 8, lc_offsets =
        [(''hdr'', 0), (''capset_data'', 24)]\<rparr>),
      (virtio_gpu_cmd_get_edid,
       \<lparr>lc_size = 32, lc_align = 8, lc_offsets =
        [(''hdr'', 0), (''scanout'', 24), (''padding'', 28)]\<rparr>),
      (virtio_gpu_resp_edid,
       \<lparr>lc_size = 1056, lc_align = 8, lc_offsets =
        [(''hdr'', 0), (''size'', 24), (''padding'', 28), (''edid'', 32)]\<rparr>),
      (virtio_gpu_config,
       \<lparr>lc_size = 16, lc_align = 4, lc_offsets =
        [(''events_read'', 0), (''events_clear'', 4), (''num_scanouts'', 8), (''num_capsets'', 12)]\<rparr>),
      (virtio_gpu_resource_assign_uuid,
       \<lparr>lc_size = 32, lc_align = 8, lc_offsets =
        [(''hdr'', 0), (''resource_id'', 24), (''padding'', 28)]\<rparr>),
      (virtio_gpu_resp_resource_uuid,
       \<lparr>lc_size = 40, lc_align = 8, lc_offsets =
        [(''hdr'', 0), (''uuid'', 24)]\<rparr>),
      (virtio_gpu_resource_create_blob,
       \<lparr>lc_size = 56, lc_align = 8, lc_offsets =
        [(''hdr'', 0), (''resource_id'', 24), (''blob_mem'', 28), (''blob_flags'', 32),
         (''nr_entries'', 36), (''blob_id'', 40), (''size'', 48)]\<rparr>),
      (virtio_gpu_set_scanout_blob,
       \<lparr>lc_size = 96, lc_align = 8, lc_offsets =
        [(''hdr'', 0), (''r'', 24), (''scanout_id'', 40), (''resource_id'', 44), (''width'', 48),
         (''height'', 52), (''format'', 56), (''padding'', 60), (''strides'', 64), (''offsets'', 80)]\<rparr>),
      (virtio_gpu_resource_map_blob,
       \<lparr>lc_size = 40, lc_align = 8, lc_offsets =
        [(''hdr'', 0), (''resource_id'', 24), (''padding'', 28), (''offset'', 32)]\<rparr>),
      (virtio_gpu_resp_map_info,
       \<lparr>lc_size = 32, lc_align = 8, lc_offsets =
        [(''hdr'', 0), (''map_info'', 24), (''padding'', 28)]\<rparr>),
      (virtio_gpu_resource_unmap_blob,
       \<lparr>lc_size = 32, lc_align = 8, lc_offsets =
        [(''hdr'', 0), (''resource_id'', 24), (''padding'', 28)]\<rparr>)]"

lemmas virtio_gpu_defs =
  virtio_gpu_ctrl_hdr_def virtio_gpu_cursor_pos_def virtio_gpu_update_cursor_def
  virtio_gpu_rect_def virtio_gpu_resource_unref_def virtio_gpu_resource_create_2d_def
  virtio_gpu_set_scanout_def virtio_gpu_resource_flush_def virtio_gpu_transfer_to_host_2d_def
  virtio_gpu_mem_entry_def virtio_gpu_resource_attach_backing_def
  virtio_gpu_resource_detach_backing_def virtio_gpu_resp_display_info_virtio_gpu_display_one_def
  virtio_gpu_resp_display_info_def virtio_gpu_box_def virtio_gpu_transfer_host_3d_def
  virtio_gpu_resource_create_3d_def virtio_gpu_ctx_create_def virtio_gpu_ctx_destroy_def
  virtio_gpu_ctx_resource_def virtio_gpu_cmd_submit_def virtio_gpu_get_capset_info_def
  virtio_gpu_resp_capset_info_def virtio_gpu_get_capset_def virtio_gpu_resp_capset_def
  virtio_gpu_cmd_get_edid_def virtio_gpu_resp_edid_def virtio_gpu_config_def
  virtio_gpu_resource_assign_uuid_def virtio_gpu_resp_resource_uuid_def
  virtio_gpu_resource_create_blob_def virtio_gpu_set_scanout_blob_def
  virtio_gpu_resource_map_blob_def virtio_gpu_resp_map_info_def
  virtio_gpu_resource_unmap_blob_def

end
