(* ===== verification/Bindings_Targets.thy ===== *)
theory Bindings_Targets
  imports Bindings_Ring Bindings_Blk Bindings_Net Bindings_Scsi Bindings_Input Bindings_Gpu
begin

text \<open>
  How \<open>virtio-bindings\<close> depends on the target: the layouts the generated files of \<open>x86\<close> and of the other 32-bit
  architectures check where they differ from those of \<open>x86_64\<close>, the collections of all checks of one
  architecture, the architectures \<open>scripts/generate-bindings.sh\<close> generates files for, and the directory
  \<open>lib.rs\<close> selects for a target architecture.
\<close>

section \<open>Checks that differ by target\<close>

text \<open>The 32-bit architectures other than \<open>x86\<close> differ in the structure with pointers only.\<close>

definition vring_layout_arm :: layout_check where
  "vring_layout_arm = \<lparr>lc_size = 16, lc_align = 4, lc_offsets =
     [(''num'', 0), (''desc'', 4), (''avail'', 8), (''used'', 12)]\<rparr>"

text \<open>On \<open>x86\<close> the 64-bit integers are aligned to four bytes as well.\<close>

definition vring_desc_layout_x86 :: layout_check where
  "vring_desc_layout_x86 = vring_desc_layout\<lparr>lc_align := 4\<rparr>"

definition vring_layout_x86 :: layout_check where
  "vring_layout_x86 = \<lparr>lc_size = 16, lc_align = 4, lc_offsets =
     [(''num'', 0), (''desc'', 4), (''avail'', 8), (''used'', 12)]\<rparr>"

definition vring_packed_desc_layout_x86 :: layout_check where
  "vring_packed_desc_layout_x86 = vring_packed_desc_layout\<lparr>lc_align := 4\<rparr>"

section \<open>All checks of an architecture\<close>

definition bindings_lp64 :: "(c_type \<times> layout_check) list" where
  "bindings_lp64 =
     virtio_ring_bindings @ virtio_blk_bindings @ virtio_net_bindings @
     virtio_scsi_bindings @ virtio_input_bindings @ virtio_gpu_bindings"

definition virtio_ring_bindings_arm :: "(c_type \<times> layout_check) list" where
  "virtio_ring_bindings_arm =
     [(vring_desc, vring_desc_layout), (vring_avail, vring_avail_layout),
      (vring_used_elem, vring_used_elem_layout), (vring_used, vring_used_layout),
      (vring, vring_layout_arm), (vring_packed_desc_event, vring_packed_desc_event_layout),
      (vring_packed_desc, vring_packed_desc_layout)]"

definition bindings_ilp32 :: "(c_type \<times> layout_check) list" where
  "bindings_ilp32 =
     virtio_ring_bindings_arm @ virtio_blk_bindings @ virtio_net_bindings @
     virtio_scsi_bindings @ virtio_input_bindings @ virtio_gpu_bindings"

definition virtio_ring_bindings_x86 :: "(c_type \<times> layout_check) list" where
  "virtio_ring_bindings_x86 =
     [(vring_desc, vring_desc_layout_x86), (vring_avail, vring_avail_layout),
      (vring_used_elem, vring_used_elem_layout), (vring_used, vring_used_layout),
      (vring, vring_layout_x86), (vring_packed_desc_event, vring_packed_desc_event_layout),
      (vring_packed_desc, vring_packed_desc_layout_x86)]"

definition virtio_blk_bindings_x86 :: "(c_type \<times> layout_check) list" where
  "virtio_blk_bindings_x86 =
     [(virtio_blk_config_virtio_blk_geometry,
       \<lparr>lc_size = 4, lc_align = 2, lc_offsets =
        [(''cylinders'', 0), (''heads'', 2), (''sectors'', 3)]\<rparr>),
      (virtio_blk_config_virtio_blk_zoned_characteristics,
       \<lparr>lc_size = 24, lc_align = 4, lc_offsets =
        [(''zone_sectors'', 0), (''max_open_zones'', 4), (''max_active_zones'', 8),
         (''max_append_sectors'', 12), (''write_granularity'', 16), (''model'', 20), (''unused2'', 21)]\<rparr>),
      (virtio_blk_config,
       \<lparr>lc_size = 96, lc_align = 1, lc_offsets =
        [(''capacity'', 0), (''size_max'', 8), (''seg_max'', 12), (''geometry'', 16),
         (''blk_size'', 20), (''physical_block_exp'', 24), (''alignment_offset'', 25),
         (''min_io_size'', 26), (''opt_io_size'', 28), (''wce'', 32), (''unused'', 33),
         (''num_queues'', 34), (''max_discard_sectors'', 36), (''max_discard_seg'', 40),
         (''discard_sector_alignment'', 44), (''max_write_zeroes_sectors'', 48),
         (''max_write_zeroes_seg'', 52), (''write_zeroes_may_unmap'', 56), (''unused1'', 57),
         (''max_secure_erase_sectors'', 60), (''max_secure_erase_seg'', 64),
         (''secure_erase_sector_alignment'', 68), (''zoned'', 72)]\<rparr>),
      (virtio_blk_outhdr,
       \<lparr>lc_size = 16, lc_align = 4, lc_offsets =
        [(''type_'', 0), (''ioprio'', 4), (''sector'', 8)]\<rparr>),
      (virtio_blk_zone_descriptor,
       \<lparr>lc_size = 64, lc_align = 4, lc_offsets =
        [(''z_cap'', 0), (''z_start'', 8), (''z_wp'', 16), (''z_type'', 24), (''z_state'', 25),
         (''reserved'', 26)]\<rparr>),
      (virtio_blk_zone_report,
       \<lparr>lc_size = 64, lc_align = 4, lc_offsets =
        [(''nr_zones'', 0), (''reserved'', 8), (''zones'', 64)]\<rparr>),
      (virtio_blk_discard_write_zeroes,
       \<lparr>lc_size = 16, lc_align = 4, lc_offsets =
        [(''sector'', 0), (''num_sectors'', 8), (''flags'', 12)]\<rparr>),
      (virtio_scsi_inhdr,
       \<lparr>lc_size = 16, lc_align = 4, lc_offsets =
        [(''errors'', 0), (''data_len'', 4), (''sense_len'', 8), (''residual'', 12)]\<rparr>)]"

definition virtio_net_bindings_x86 :: "(c_type \<times> layout_check) list" where
  "virtio_net_bindings_x86 =
     [(virtio_net_config,
       \<lparr>lc_size = 24, lc_align = 1, lc_offsets =
        [(''mac'', 0), (''status'', 6), (''max_virtqueue_pairs'', 8), (''mtu'', 10), (''speed'', 12),
         (''duplex'', 16), (''rss_max_key_size'', 17), (''rss_max_indirection_table_length'', 18),
         (''supported_hash_types'', 20)]\<rparr>),
      (virtio_net_hdr_v1__bindgen_ty_1__bindgen_ty_1,
       \<lparr>lc_size = 4, lc_align = 2, lc_offsets =
        [(''csum_start'', 0), (''csum_offset'', 2)]\<rparr>),
      (virtio_net_hdr_v1__bindgen_ty_1__bindgen_ty_2,
       \<lparr>lc_size = 4, lc_align = 2, lc_offsets =
        [(''start'', 0), (''offset'', 2)]\<rparr>),
      (virtio_net_hdr_v1__bindgen_ty_1__bindgen_ty_3,
       \<lparr>lc_size = 4, lc_align = 2, lc_offsets =
        [(''segments'', 0), (''dup_acks'', 2)]\<rparr>),
      (virtio_net_hdr_v1__bindgen_ty_1,
       \<lparr>lc_size = 4, lc_align = 2, lc_offsets =
        [(''csum'', 0), (''rsc'', 0)]\<rparr>),
      (virtio_net_hdr_v1,
       \<lparr>lc_size = 12, lc_align = 2, lc_offsets =
        [(''flags'', 0), (''gso_type'', 1), (''hdr_len'', 2), (''gso_size'', 4), (''num_buffers'', 10)]\<rparr>),
      (virtio_net_hdr_v1_hash,
       \<lparr>lc_size = 20, lc_align = 4, lc_offsets =
        [(''hdr'', 0), (''hash_value'', 12), (''hash_report'', 16), (''padding'', 18)]\<rparr>),
      (virtio_net_hdr,
       \<lparr>lc_size = 10, lc_align = 2, lc_offsets =
        [(''flags'', 0), (''gso_type'', 1), (''hdr_len'', 2), (''gso_size'', 4), (''csum_start'', 6),
         (''csum_offset'', 8)]\<rparr>),
      (virtio_net_hdr_mrg_rxbuf,
       \<lparr>lc_size = 12, lc_align = 2, lc_offsets =
        [(''hdr'', 0), (''num_buffers'', 10)]\<rparr>),
      (virtio_net_ctrl_hdr,
       \<lparr>lc_size = 2, lc_align = 1, lc_offsets =
        [(''class'', 0), (''cmd'', 1)]\<rparr>),
      (virtio_net_ctrl_mac,
       \<lparr>lc_size = 4, lc_align = 1, lc_offsets =
        [(''entries'', 0), (''macs'', 4)]\<rparr>),
      (virtio_net_ctrl_mq,
       \<lparr>lc_size = 2, lc_align = 2, lc_offsets =
        [(''virtqueue_pairs'', 0)]\<rparr>),
      (virtio_net_rss_config,
       \<lparr>lc_size = 16, lc_align = 4, lc_offsets =
        [(''hash_types'', 0), (''indirection_table_mask'', 4), (''unclassified_queue'', 6),
         (''indirection_table'', 8), (''max_tx_vq'', 10), (''hash_key_length'', 12),
         (''hash_key_data'', 13)]\<rparr>),
      (virtio_net_rss_config_hdr,
       \<lparr>lc_size = 8, lc_align = 4, lc_offsets =
        [(''hash_types'', 0), (''indirection_table_mask'', 4), (''unclassified_queue'', 6),
         (''indirection_table'', 8)]\<rparr>),
      (virtio_net_rss_config_trailer,
       \<lparr>lc_size = 4, lc_align = 2, lc_offsets =
        [(''max_tx_vq'', 0), (''hash_key_length'', 2), (''hash_key_data'', 3)]\<rparr>),
      (virtio_net_hash_config,
       \<lparr>lc_size = 16, lc_align = 4, lc_offsets =
        [(''hash_types'', 0), (''reserved'', 4), (''hash_key_length'', 12), (''hash_key_data'', 13)]\<rparr>),
      (virtio_net_ctrl_coal_tx,
       \<lparr>lc_size = 8, lc_align = 4, lc_offsets =
        [(''tx_max_packets'', 0), (''tx_usecs'', 4)]\<rparr>),
      (virtio_net_ctrl_coal_rx,
       \<lparr>lc_size = 8, lc_align = 4, lc_offsets =
        [(''rx_max_packets'', 0), (''rx_usecs'', 4)]\<rparr>),
      (virtio_net_ctrl_coal,
       \<lparr>lc_size = 8, lc_align = 4, lc_offsets =
        [(''max_packets'', 0), (''max_usecs'', 4)]\<rparr>),
      (virtio_net_ctrl_coal_vq,
       \<lparr>lc_size = 12, lc_align = 4, lc_offsets =
        [(''vqn'', 0), (''reserved'', 2), (''coal'', 4)]\<rparr>),
      (virtio_net_stats_capabilities,
       \<lparr>lc_size = 8, lc_align = 4, lc_offsets =
        [(''supported_stats_types'', 0)]\<rparr>),
      (virtio_net_ctrl_queue_stats__bindgen_ty_1,
       \<lparr>lc_size = 16, lc_align = 4, lc_offsets =
        [(''vq_index'', 0), (''reserved'', 2), (''types_bitmap'', 8)]\<rparr>),
      (virtio_net_ctrl_queue_stats,
       \<lparr>lc_size = 16, lc_align = 4, lc_offsets =
        [(''stats'', 0)]\<rparr>),
      (virtio_net_stats_reply_hdr,
       \<lparr>lc_size = 8, lc_align = 2, lc_offsets =
        [(''type_'', 0), (''reserved'', 1), (''vq_index'', 2), (''reserved1'', 4), (''size'', 6)]\<rparr>),
      (virtio_net_stats_cvq,
       \<lparr>lc_size = 24, lc_align = 4, lc_offsets =
        [(''hdr'', 0), (''command_num'', 8), (''ok_num'', 16)]\<rparr>),
      (virtio_net_stats_rx_basic,
       \<lparr>lc_size = 56, lc_align = 4, lc_offsets =
        [(''hdr'', 0), (''rx_notifications'', 8), (''rx_packets'', 16), (''rx_bytes'', 24),
         (''rx_interrupts'', 32), (''rx_drops'', 40), (''rx_drop_overruns'', 48)]\<rparr>),
      (virtio_net_stats_tx_basic,
       \<lparr>lc_size = 56, lc_align = 4, lc_offsets =
        [(''hdr'', 0), (''tx_notifications'', 8), (''tx_packets'', 16), (''tx_bytes'', 24),
         (''tx_interrupts'', 32), (''tx_drops'', 40), (''tx_drop_malformed'', 48)]\<rparr>),
      (virtio_net_stats_rx_csum,
       \<lparr>lc_size = 40, lc_align = 4, lc_offsets =
        [(''hdr'', 0), (''rx_csum_valid'', 8), (''rx_needs_csum'', 16), (''rx_csum_none'', 24),
         (''rx_csum_bad'', 32)]\<rparr>),
      (virtio_net_stats_tx_csum,
       \<lparr>lc_size = 24, lc_align = 4, lc_offsets =
        [(''hdr'', 0), (''tx_csum_none'', 8), (''tx_needs_csum'', 16)]\<rparr>),
      (virtio_net_stats_rx_gso,
       \<lparr>lc_size = 40, lc_align = 4, lc_offsets =
        [(''hdr'', 0), (''rx_gso_packets'', 8), (''rx_gso_bytes'', 16),
         (''rx_gso_packets_coalesced'', 24), (''rx_gso_bytes_coalesced'', 32)]\<rparr>),
      (virtio_net_stats_tx_gso,
       \<lparr>lc_size = 56, lc_align = 4, lc_offsets =
        [(''hdr'', 0), (''tx_gso_packets'', 8), (''tx_gso_bytes'', 16), (''tx_gso_segments'', 24),
         (''tx_gso_segments_bytes'', 32), (''tx_gso_packets_noseg'', 40), (''tx_gso_bytes_noseg'', 48)]\<rparr>),
      (virtio_net_stats_rx_speed,
       \<lparr>lc_size = 24, lc_align = 4, lc_offsets =
        [(''hdr'', 0), (''rx_ratelimit_packets'', 8), (''rx_ratelimit_bytes'', 16)]\<rparr>),
      (virtio_net_stats_tx_speed,
       \<lparr>lc_size = 24, lc_align = 4, lc_offsets =
        [(''hdr'', 0), (''tx_ratelimit_packets'', 8), (''tx_ratelimit_bytes'', 16)]\<rparr>)]"

definition virtio_gpu_bindings_x86 :: "(c_type \<times> layout_check) list" where
  "virtio_gpu_bindings_x86 =
     [(virtio_gpu_ctrl_hdr,
       \<lparr>lc_size = 24, lc_align = 4, lc_offsets =
        [(''type_'', 0), (''flags'', 4), (''fence_id'', 8), (''ctx_id'', 16), (''ring_idx'', 20),
         (''padding'', 21)]\<rparr>),
      (virtio_gpu_cursor_pos,
       \<lparr>lc_size = 16, lc_align = 4, lc_offsets =
        [(''scanout_id'', 0), (''x'', 4), (''y'', 8), (''padding'', 12)]\<rparr>),
      (virtio_gpu_update_cursor,
       \<lparr>lc_size = 56, lc_align = 4, lc_offsets =
        [(''hdr'', 0), (''pos'', 24), (''resource_id'', 40), (''hot_x'', 44), (''hot_y'', 48),
         (''padding'', 52)]\<rparr>),
      (virtio_gpu_rect,
       \<lparr>lc_size = 16, lc_align = 4, lc_offsets =
        [(''x'', 0), (''y'', 4), (''width'', 8), (''height'', 12)]\<rparr>),
      (virtio_gpu_resource_unref,
       \<lparr>lc_size = 32, lc_align = 4, lc_offsets =
        [(''hdr'', 0), (''resource_id'', 24), (''padding'', 28)]\<rparr>),
      (virtio_gpu_resource_create_2d,
       \<lparr>lc_size = 40, lc_align = 4, lc_offsets =
        [(''hdr'', 0), (''resource_id'', 24), (''format'', 28), (''width'', 32), (''height'', 36)]\<rparr>),
      (virtio_gpu_set_scanout,
       \<lparr>lc_size = 48, lc_align = 4, lc_offsets =
        [(''hdr'', 0), (''r'', 24), (''scanout_id'', 40), (''resource_id'', 44)]\<rparr>),
      (virtio_gpu_resource_flush,
       \<lparr>lc_size = 48, lc_align = 4, lc_offsets =
        [(''hdr'', 0), (''r'', 24), (''resource_id'', 40), (''padding'', 44)]\<rparr>),
      (virtio_gpu_transfer_to_host_2d,
       \<lparr>lc_size = 56, lc_align = 4, lc_offsets =
        [(''hdr'', 0), (''r'', 24), (''offset'', 40), (''resource_id'', 48), (''padding'', 52)]\<rparr>),
      (virtio_gpu_mem_entry,
       \<lparr>lc_size = 16, lc_align = 4, lc_offsets =
        [(''addr'', 0), (''length'', 8), (''padding'', 12)]\<rparr>),
      (virtio_gpu_resource_attach_backing,
       \<lparr>lc_size = 32, lc_align = 4, lc_offsets =
        [(''hdr'', 0), (''resource_id'', 24), (''nr_entries'', 28)]\<rparr>),
      (virtio_gpu_resource_detach_backing,
       \<lparr>lc_size = 32, lc_align = 4, lc_offsets =
        [(''hdr'', 0), (''resource_id'', 24), (''padding'', 28)]\<rparr>),
      (virtio_gpu_resp_display_info_virtio_gpu_display_one,
       \<lparr>lc_size = 24, lc_align = 4, lc_offsets =
        [(''r'', 0), (''enabled'', 16), (''flags'', 20)]\<rparr>),
      (virtio_gpu_resp_display_info,
       \<lparr>lc_size = 408, lc_align = 4, lc_offsets =
        [(''hdr'', 0), (''pmodes'', 24)]\<rparr>),
      (virtio_gpu_box,
       \<lparr>lc_size = 24, lc_align = 4, lc_offsets =
        [(''x'', 0), (''y'', 4), (''z'', 8), (''w'', 12), (''h'', 16), (''d'', 20)]\<rparr>),
      (virtio_gpu_transfer_host_3d,
       \<lparr>lc_size = 72, lc_align = 4, lc_offsets =
        [(''hdr'', 0), (''box_'', 24), (''offset'', 48), (''resource_id'', 56), (''level'', 60),
         (''stride'', 64), (''layer_stride'', 68)]\<rparr>),
      (virtio_gpu_resource_create_3d,
       \<lparr>lc_size = 72, lc_align = 4, lc_offsets =
        [(''hdr'', 0), (''resource_id'', 24), (''target'', 28), (''format'', 32), (''bind'', 36),
         (''width'', 40), (''height'', 44), (''depth'', 48), (''array_size'', 52),
         (''last_level'', 56), (''nr_samples'', 60), (''flags'', 64), (''padding'', 68)]\<rparr>),
      (virtio_gpu_ctx_create,
       \<lparr>lc_size = 96, lc_align = 4, lc_offsets =
        [(''hdr'', 0), (''nlen'', 24), (''context_init'', 28), (''debug_name'', 32)]\<rparr>),
      (virtio_gpu_ctx_destroy,
       \<lparr>lc_size = 24, lc_align = 4, lc_offsets =
        [(''hdr'', 0)]\<rparr>),
      (virtio_gpu_ctx_resource,
       \<lparr>lc_size = 32, lc_align = 4, lc_offsets =
        [(''hdr'', 0), (''resource_id'', 24), (''padding'', 28)]\<rparr>),
      (virtio_gpu_cmd_submit,
       \<lparr>lc_size = 32, lc_align = 4, lc_offsets =
        [(''hdr'', 0), (''size'', 24), (''padding'', 28)]\<rparr>),
      (virtio_gpu_get_capset_info,
       \<lparr>lc_size = 32, lc_align = 4, lc_offsets =
        [(''hdr'', 0), (''capset_index'', 24), (''padding'', 28)]\<rparr>),
      (virtio_gpu_resp_capset_info,
       \<lparr>lc_size = 40, lc_align = 4, lc_offsets =
        [(''hdr'', 0), (''capset_id'', 24), (''capset_max_version'', 28), (''capset_max_size'', 32),
         (''padding'', 36)]\<rparr>),
      (virtio_gpu_get_capset,
       \<lparr>lc_size = 32, lc_align = 4, lc_offsets =
        [(''hdr'', 0), (''capset_id'', 24), (''capset_version'', 28)]\<rparr>),
      (virtio_gpu_resp_capset,
       \<lparr>lc_size = 24, lc_align = 4, lc_offsets =
        [(''hdr'', 0), (''capset_data'', 24)]\<rparr>),
      (virtio_gpu_cmd_get_edid,
       \<lparr>lc_size = 32, lc_align = 4, lc_offsets =
        [(''hdr'', 0), (''scanout'', 24), (''padding'', 28)]\<rparr>),
      (virtio_gpu_resp_edid,
       \<lparr>lc_size = 1056, lc_align = 4, lc_offsets =
        [(''hdr'', 0), (''size'', 24), (''padding'', 28), (''edid'', 32)]\<rparr>),
      (virtio_gpu_config,
       \<lparr>lc_size = 16, lc_align = 4, lc_offsets =
        [(''events_read'', 0), (''events_clear'', 4), (''num_scanouts'', 8), (''num_capsets'', 12)]\<rparr>),
      (virtio_gpu_resource_assign_uuid,
       \<lparr>lc_size = 32, lc_align = 4, lc_offsets =
        [(''hdr'', 0), (''resource_id'', 24), (''padding'', 28)]\<rparr>),
      (virtio_gpu_resp_resource_uuid,
       \<lparr>lc_size = 40, lc_align = 4, lc_offsets =
        [(''hdr'', 0), (''uuid'', 24)]\<rparr>),
      (virtio_gpu_resource_create_blob,
       \<lparr>lc_size = 56, lc_align = 4, lc_offsets =
        [(''hdr'', 0), (''resource_id'', 24), (''blob_mem'', 28), (''blob_flags'', 32),
         (''nr_entries'', 36), (''blob_id'', 40), (''size'', 48)]\<rparr>),
      (virtio_gpu_set_scanout_blob,
       \<lparr>lc_size = 96, lc_align = 4, lc_offsets =
        [(''hdr'', 0), (''r'', 24), (''scanout_id'', 40), (''resource_id'', 44), (''width'', 48),
         (''height'', 52), (''format'', 56), (''padding'', 60), (''strides'', 64), (''offsets'', 80)]\<rparr>),
      (virtio_gpu_resource_map_blob,
       \<lparr>lc_size = 40, lc_align = 4, lc_offsets =
        [(''hdr'', 0), (''resource_id'', 24), (''padding'', 28), (''offset'', 32)]\<rparr>),
      (virtio_gpu_resp_map_info,
       \<lparr>lc_size = 32, lc_align = 4, lc_offsets =
        [(''hdr'', 0), (''map_info'', 24), (''padding'', 28)]\<rparr>),
      (virtio_gpu_resource_unmap_blob,
       \<lparr>lc_size = 32, lc_align = 4, lc_offsets =
        [(''hdr'', 0), (''resource_id'', 24), (''padding'', 28)]\<rparr>)]"

definition bindings_x86 :: "(c_type \<times> layout_check) list" where
  "bindings_x86 =
     virtio_ring_bindings_x86 @ virtio_blk_bindings_x86 @ virtio_net_bindings_x86 @
     virtio_scsi_bindings @ virtio_input_bindings @ virtio_gpu_bindings_x86"

section \<open>Generated directories and the one a target selects\<close>

definition rust_archs :: "string list" where
  "rust_archs =
     [''arm'', ''aarch64'', ''hexagon'', ''loongarch64'', ''m68k'', ''mips'', ''mips32r6'',
      ''mips64'', ''mips64r6'', ''powerpc'', ''powerpc64'', ''riscv32'', ''riscv64'', ''s390x'',
      ''sparc'', ''sparc64'', ''x86_64'', ''x86'']"

text \<open>The \<open>cfg_attr\<close> attributes of a module: the directory of the first architecture that matches. The
  attributes are the same for every module.\<close>

definition cfg_paths :: "(string \<times> string) list" where
  "cfg_paths =
     [(''arm'', ''arm''), (''aarch64'', ''aarch64''), (''hexagon'', ''hexagon''),
      (''loongarch64'', ''loongarch64''), (''m68k'', ''m68k''), (''mips'', ''mipsel''),
      (''powerpc64'', ''powerpc64le''), (''riscv64'', ''riscv64''), (''s390x'', ''s390x''),
      (''sparc64'', ''sparc64''), (''x86_64'', ''x86_64'')]"

definition module_path :: "string \<Rightarrow> string \<Rightarrow> string" where
  "module_path arch m =
     (case map_of cfg_paths arch of
        Some d \<Rightarrow> ''bindings/'' @ d @ ''/'' @ m @ ''.rs''
      | None \<Rightarrow> m @ ''.rs'')"

text \<open>The files \<open>bindgen\<close> writes for one module, relative to \<open>src\<close>.\<close>

definition generated_files :: "string \<Rightarrow> string list" where
  "generated_files m = map (\<lambda>d. ''bindings/'' @ d @ ''/'' @ m @ ''.rs'') rust_archs"

definition checks_hold :: "target \<Rightarrow> (c_type \<times> layout_check) list \<Rightarrow> bool" where
  "checks_hold t bs \<longleftrightarrow> list_all (\<lambda>(ty, c). layout_holds t ty c) bs"

section \<open>Which targets satisfy the checks\<close>

lemmas layout_eval = layout_holds_def size_of_def align_of_def struct_layout_def struct_align_def
  field_align_def round_up_def Let_def

lemma target_ok_cases:
  assumes "target_ok t"
  obtains "tg_ptr_align t = 1" | "tg_ptr_align t = 2" | "tg_ptr_align t = 4" | "tg_ptr_align t = 8"
  using assms by (auto simp: target_ok_def)

lemma target_ok_u64_cases:
  assumes "target_ok t"
  obtains "tg_u64_align t = 1" | "tg_u64_align t = 2" | "tg_u64_align t = 4" | "tg_u64_align t = 8"
  using assms by (auto simp: target_ok_def)

lemma target_ptr_size:
  assumes "target_ok t"
  obtains k where "tg_ptr_size t = tg_ptr_align t * k"
  using assms by (auto simp: target_ok_def)

lemma vring_64:
  assumes "target_ok t"
  shows "layout_holds t vring vring_layout \<longleftrightarrow> tg_ptr_size t = 8 \<and> tg_ptr_align t = 8"
proof -
  obtain k where "tg_ptr_size t = tg_ptr_align t * k" using target_ptr_size [OF assms] .
  with assms show ?thesis
    by (cases rule: target_ok_cases) (auto simp: layout_eval vring_def vring_layout_def)
qed

lemma vring_32:
  assumes "target_ok t"
  shows "layout_holds t vring vring_layout_arm \<longleftrightarrow> tg_ptr_size t = 4 \<and> tg_ptr_align t \<le> 4"
proof -
  obtain k where "tg_ptr_size t = tg_ptr_align t * k" using target_ptr_size [OF assms] .
  with assms show ?thesis
    by (cases rule: target_ok_cases) (simp add: layout_eval vring_def vring_layout_arm_def; presburger)+
qed

lemma desc_u64:
  assumes "target_ok t" 
  shows "layout_holds t vring_desc vring_desc_layout \<longleftrightarrow> tg_u64_align t = 8"
  using assms
  by (cases rule: target_ok_u64_cases) (simp_all add: layout_eval vring_desc_def vring_desc_layout_def)

lemma stats_u64:
  assumes "target_ok t" 
  shows "layout_holds t virtio_net_stats_capabilities
      \<lparr>lc_size = 8, lc_align = 4, lc_offsets = [(''supported_stats_types'', 0)]\<rparr> \<longleftrightarrow>
    tg_u64_align t = 4"
  using assms
  by (cases rule: target_ok_u64_cases)
    (simp_all add: layout_eval virtio_net_stats_capabilities_def)


lemma checks_hold_append [simp]: "checks_hold t (xs @ ys) \<longleftrightarrow> checks_hold t xs \<and> checks_hold t ys"
  by (simp add: checks_hold_def)

lemma checks_holdD: "checks_hold t bs \<Longrightarrow> (ty, c) \<in> set bs \<Longrightarrow> layout_holds t ty c"
  by (auto simp: checks_hold_def list_all_iff)

lemma checks_lp64: "checks_hold lp64 bindings_lp64"
  by code_simp

text \<open>Only pointers depend on how the target lays out pointers.\<close>

primrec ptr_free :: "c_type \<Rightarrow> bool" where
  "ptr_free C_uchar = True"
| "ptr_free C_char = True"
| "ptr_free C_ushort = True"
| "ptr_free C_uint = True"
| "ptr_free C_ulonglong = True"
| "ptr_free (C_ptr ty) = False"
| "ptr_free (C_array ty n) = ptr_free ty"
| "ptr_free (IncompleteArrayField ty) = ptr_free ty"
| "ptr_free (C_struct r fs) = list_all snd (map (map_prod id ptr_free) fs)"
| "ptr_free (C_union fs) = list_all snd (map (map_prod id ptr_free) fs)"

lemma ptr_free_fields:
  assumes "\<And>x ty. x \<in> set fs \<Longrightarrow> ty \<in> Basic_BNFs.snds x \<Longrightarrow> ptr_free ty \<Longrightarrow> layout_of t ty = layout_of t' ty"
    and "list_all snd (map (map_prod id ptr_free) fs)"
  shows "map (map_prod id (layout_of t)) fs = map (map_prod id (layout_of t')) fs"
  using assms(2) assms(1) [OF _ snds.intros] by (auto simp: list_all_iff)

lemma layout_ptr_free:
  assumes "tg_u64_align t = tg_u64_align t'"
  shows "ptr_free ty \<Longrightarrow> layout_of t ty = layout_of t' ty"
proof (induction ty)
  case (C_struct r fs)
  then have "map (map_prod id (layout_of t)) fs = map (map_prod id (layout_of t')) fs"
    by (intro ptr_free_fields) simp_all
  then show ?case by (simp only: layout_of.simps)
next
  case (C_union fs)
  then have "map (map_prod id (layout_of t)) fs = map (map_prod id (layout_of t')) fs"
    by (intro ptr_free_fields) simp_all
  then show ?case by (simp only: layout_of.simps)
qed (use assms in simp_all)

lemma offset_ptr_free:
  assumes "tg_u64_align t = tg_u64_align t'" and "ptr_free ty"
  shows "offset_of t ty f = offset_of t' ty f"
proof (cases ty)
  case (C_struct r fs)
  then have "map (map_prod id (layout_of t)) fs = map (map_prod id (layout_of t')) fs"
    using assms(2) by (intro ptr_free_fields layout_ptr_free [OF assms(1)]) simp_all
  then show ?thesis by (simp only: C_struct offset_of.simps)
qed simp_all

lemma holds_ptr_free:
  assumes "tg_u64_align t = tg_u64_align t'" and "ptr_free ty"
  shows "layout_holds t ty c = layout_holds t' ty c"
  using layout_ptr_free [OF assms] offset_ptr_free [OF assms]
  by (simp add: layout_holds_def size_of_def align_of_def)

text \<open>So of the checks of a 32-bit architecture, the one of \<open>vring\<close> decides for the pointers.\<close>

lemma checks_vring:
  assumes "checks_hold t' bs" and "tg_u64_align t = tg_u64_align t'"
    and "filter (\<lambda>(ty, c). \<not> ptr_free ty) bs = [(vring, c)]" and "layout_holds t vring c"
  shows "checks_hold t bs"
proof -
  have "layout_holds t ty k" if "(ty, k) \<in> set bs" for ty k
  proof (cases "ptr_free ty")
    case True
    then show ?thesis using checks_holdD [OF assms(1) that] holds_ptr_free [OF assms(2)] by simp
  next
    case False
    then have "(ty, k) \<in> set (filter (\<lambda>(ty, c). \<not> ptr_free ty) bs)" using that by simp
    then show ?thesis using assms(3,4) by simp
  qed
  then show ?thesis by (auto simp: checks_hold_def list_all_iff)
qed

lemma checks_ilp32: "checks_hold ilp32 bindings_ilp32"
  by code_simp

lemma checks_i686: "checks_hold i686 bindings_x86"
  by code_simp

lemma only_vring:
  "filter (\<lambda>(ty, c). \<not> ptr_free ty) bindings_ilp32 = [(vring, vring_layout_arm)]"
  "filter (\<lambda>(ty, c). \<not> ptr_free ty) bindings_x86 = [(vring, vring_layout_x86)]"
  by code_simp+

lemma vring_x86_arm: "vring_layout_x86 = vring_layout_arm"
  by (simp add: vring_layout_x86_def vring_layout_arm_def)

lemma vring_in: "(vring, vring_layout) \<in> set bindings_lp64" "(vring_desc, vring_desc_layout) \<in> set bindings_lp64"
  "(vring, vring_layout_arm) \<in> set bindings_ilp32" "(vring_desc, vring_desc_layout) \<in> set bindings_ilp32"
  by (simp_all add: bindings_lp64_def bindings_ilp32_def virtio_ring_bindings_def virtio_ring_bindings_arm_def)

lemma x86_in: "(vring, vring_layout_x86) \<in> set bindings_x86"
  "(virtio_net_stats_capabilities, \<lparr>lc_size = 8, lc_align = 4, lc_offsets = [(''supported_stats_types'', 0)]\<rparr>) \<in> set bindings_x86"
  by (simp_all add: bindings_x86_def virtio_ring_bindings_x86_def virtio_net_bindings_x86_def)

end
