(* ===== verification/Bindings_Features.thy ===== *)
theory Bindings_Features
  imports Virtio_Prelude
begin

text \<open>
  The feature bits of \<open>virtio-bindings\<close>: those of the transport and of the rings, and those of the block,
  network, SCSI and GPU devices, by name. The names are aliases in places, so a bit may occur twice in
  the table of one device.
\<close>

definition virtio_transport_features :: "(string \<times> nat) list" where
  "virtio_transport_features =
     [(''VIRTIO_F_NOTIFY_ON_EMPTY'', 24), (''VIRTIO_F_ANY_LAYOUT'', 27),
      (''VIRTIO_F_VERSION_1'', 32), (''VIRTIO_F_ACCESS_PLATFORM'', 33),
      (''VIRTIO_F_IOMMU_PLATFORM'', 33), (''VIRTIO_F_RING_PACKED'', 34),
      (''VIRTIO_F_IN_ORDER'', 35), (''VIRTIO_F_ORDER_PLATFORM'', 36), (''VIRTIO_F_SR_IOV'', 37),
      (''VIRTIO_F_NOTIFICATION_DATA'', 38), (''VIRTIO_F_NOTIF_CONFIG_DATA'', 39),
      (''VIRTIO_F_RING_RESET'', 40), (''VIRTIO_F_ADMIN_VQ'', 41)]"

definition virtio_ring_features :: "(string \<times> nat) list" where
  "virtio_ring_features =
     [(''VIRTIO_RING_F_INDIRECT_DESC'', 28), (''VIRTIO_RING_F_EVENT_IDX'', 29)]"

definition virtio_blk_features :: "(string \<times> nat) list" where
  "virtio_blk_features =
     [(''VIRTIO_BLK_F_SIZE_MAX'', 1), (''VIRTIO_BLK_F_SEG_MAX'', 2),
      (''VIRTIO_BLK_F_GEOMETRY'', 4), (''VIRTIO_BLK_F_RO'', 5), (''VIRTIO_BLK_F_BLK_SIZE'', 6),
      (''VIRTIO_BLK_F_TOPOLOGY'', 10), (''VIRTIO_BLK_F_MQ'', 12), (''VIRTIO_BLK_F_DISCARD'', 13),
      (''VIRTIO_BLK_F_WRITE_ZEROES'', 14), (''VIRTIO_BLK_F_SECURE_ERASE'', 16),
      (''VIRTIO_BLK_F_ZONED'', 17), (''VIRTIO_BLK_F_BARRIER'', 0), (''VIRTIO_BLK_F_SCSI'', 7),
      (''VIRTIO_BLK_F_FLUSH'', 9), (''VIRTIO_BLK_F_CONFIG_WCE'', 11), (''VIRTIO_BLK_F_WCE'', 9)]"

definition virtio_net_features :: "(string \<times> nat) list" where
  "virtio_net_features =
     [(''VIRTIO_NET_F_CSUM'', 0), (''VIRTIO_NET_F_GUEST_CSUM'', 1),
      (''VIRTIO_NET_F_CTRL_GUEST_OFFLOADS'', 2), (''VIRTIO_NET_F_MTU'', 3),
      (''VIRTIO_NET_F_MAC'', 5), (''VIRTIO_NET_F_GUEST_TSO4'', 7),
      (''VIRTIO_NET_F_GUEST_TSO6'', 8), (''VIRTIO_NET_F_GUEST_ECN'', 9),
      (''VIRTIO_NET_F_GUEST_UFO'', 10), (''VIRTIO_NET_F_HOST_TSO4'', 11),
      (''VIRTIO_NET_F_HOST_TSO6'', 12), (''VIRTIO_NET_F_HOST_ECN'', 13),
      (''VIRTIO_NET_F_HOST_UFO'', 14), (''VIRTIO_NET_F_MRG_RXBUF'', 15),
      (''VIRTIO_NET_F_STATUS'', 16), (''VIRTIO_NET_F_CTRL_VQ'', 17),
      (''VIRTIO_NET_F_CTRL_RX'', 18), (''VIRTIO_NET_F_CTRL_VLAN'', 19),
      (''VIRTIO_NET_F_CTRL_RX_EXTRA'', 20), (''VIRTIO_NET_F_GUEST_ANNOUNCE'', 21),
      (''VIRTIO_NET_F_MQ'', 22), (''VIRTIO_NET_F_CTRL_MAC_ADDR'', 23),
      (''VIRTIO_NET_F_DEVICE_STATS'', 50), (''VIRTIO_NET_F_VQ_NOTF_COAL'', 52),
      (''VIRTIO_NET_F_NOTF_COAL'', 53), (''VIRTIO_NET_F_GUEST_USO4'', 54),
      (''VIRTIO_NET_F_GUEST_USO6'', 55), (''VIRTIO_NET_F_HOST_USO'', 56),
      (''VIRTIO_NET_F_HASH_REPORT'', 57), (''VIRTIO_NET_F_GUEST_HDRLEN'', 59),
      (''VIRTIO_NET_F_RSS'', 60), (''VIRTIO_NET_F_RSC_EXT'', 61), (''VIRTIO_NET_F_STANDBY'', 62),
      (''VIRTIO_NET_F_SPEED_DUPLEX'', 63), (''VIRTIO_NET_F_GSO'', 6)]"

definition virtio_scsi_features :: "(string \<times> nat) list" where
  "virtio_scsi_features =
     [(''VIRTIO_SCSI_F_INOUT'', 0), (''VIRTIO_SCSI_F_HOTPLUG'', 1), (''VIRTIO_SCSI_F_CHANGE'', 2),
      (''VIRTIO_SCSI_F_T10_PI'', 3)]"

definition virtio_gpu_features :: "(string \<times> nat) list" where
  "virtio_gpu_features =
     [(''VIRTIO_GPU_F_VIRGL'', 0), (''VIRTIO_GPU_F_EDID'', 1),
      (''VIRTIO_GPU_F_RESOURCE_UUID'', 2), (''VIRTIO_GPU_F_RESOURCE_BLOB'', 3),
      (''VIRTIO_GPU_F_CONTEXT_INIT'', 4)]"

definition VIRTIO_TRANSPORT_F_START :: nat where "VIRTIO_TRANSPORT_F_START = 28"
definition VIRTIO_TRANSPORT_F_END :: nat where "VIRTIO_TRANSPORT_F_END = 42"

text \<open>The identifiers a device reports.\<close>

definition virtio_ids :: "(string \<times> nat) list" where
  "virtio_ids =
     [(''VIRTIO_ID_NET'', 1), (''VIRTIO_ID_BLOCK'', 2), (''VIRTIO_ID_CONSOLE'', 3),
      (''VIRTIO_ID_RNG'', 4), (''VIRTIO_ID_BALLOON'', 5), (''VIRTIO_ID_IOMEM'', 6),
      (''VIRTIO_ID_RPMSG'', 7), (''VIRTIO_ID_SCSI'', 8), (''VIRTIO_ID_9P'', 9),
      (''VIRTIO_ID_MAC80211_WLAN'', 10), (''VIRTIO_ID_RPROC_SERIAL'', 11),
      (''VIRTIO_ID_CAIF'', 12), (''VIRTIO_ID_MEMORY_BALLOON'', 13), (''VIRTIO_ID_GPU'', 16),
      (''VIRTIO_ID_CLOCK'', 17), (''VIRTIO_ID_INPUT'', 18), (''VIRTIO_ID_VSOCK'', 19),
      (''VIRTIO_ID_CRYPTO'', 20), (''VIRTIO_ID_SIGNAL_DIST'', 21), (''VIRTIO_ID_PSTORE'', 22),
      (''VIRTIO_ID_IOMMU'', 23), (''VIRTIO_ID_MEM'', 24), (''VIRTIO_ID_SOUND'', 25),
      (''VIRTIO_ID_FS'', 26), (''VIRTIO_ID_PMEM'', 27), (''VIRTIO_ID_RPMB'', 28),
      (''VIRTIO_ID_MAC80211_HWSIM'', 29), (''VIRTIO_ID_VIDEO_ENCODER'', 30),
      (''VIRTIO_ID_VIDEO_DECODER'', 31), (''VIRTIO_ID_SCMI'', 32),
      (''VIRTIO_ID_NITRO_SEC_MOD'', 33), (''VIRTIO_ID_I2C_ADAPTER'', 34),
      (''VIRTIO_ID_WATCHDOG'', 35), (''VIRTIO_ID_CAN'', 36), (''VIRTIO_ID_DMABUF'', 37),
      (''VIRTIO_ID_PARAM_SERV'', 38), (''VIRTIO_ID_AUDIO_POLICY'', 39), (''VIRTIO_ID_BT'', 40),
      (''VIRTIO_ID_GPIO'', 41), (''VIRTIO_TRANS_ID_NET'', 4096),
      (''VIRTIO_TRANS_ID_BLOCK'', 4097), (''VIRTIO_TRANS_ID_BALLOON'', 4098),
      (''VIRTIO_TRANS_ID_CONSOLE'', 4099), (''VIRTIO_TRANS_ID_SCSI'', 4100),
      (''VIRTIO_TRANS_ID_RNG'', 4101), (''VIRTIO_TRANS_ID_9P'', 4105)]"

text \<open>The mask of a feature in the 64 bits a device and a driver negotiate.\<close>

definition feature_mask :: "nat \<Rightarrow> u64" where
  "feature_mask b = push_bit b 1"

lemma feature_mask_and:
  assumes "b < 64"
  shows "feature_mask b AND feature_mask c = 0 \<longleftrightarrow> b \<noteq> c"
proof
  assume z: "feature_mask b AND feature_mask c = 0"
  have "bit (feature_mask b) b" using assms by (simp add: feature_mask_def bit_simps)
  with z show "b \<noteq> c" by (metis and.idem bit_0_eq bot_apply bot_bool_def)
next
  assume "b \<noteq> c"
  then show "feature_mask b AND feature_mask c = 0"
    by (auto intro!: bit_word_eqI simp: feature_mask_def bit_simps)
qed

end
