(* ===== verification/Bindings_Constants.thy ===== *)
theory Bindings_Constants
  imports Bindings_Features Mmio Blk_Request
begin

text \<open>
  The constants of \<open>virtio-bindings\<close> (\<open>src/bindings/x86_64\<close>): every \<open>pub const\<close> of each generated file, by
  name, in the order of the file. The files of the other targets declare the same constants. The
  feature tables of \<^emph>\<open>Bindings_Features\<close> are runs of these lists. The constants the crates import have the
  values of these tables.
\<close>

section \<open>The constants of each file\<close>

definition virtio_config_constants :: "(string \<times> nat) list" where
  "virtio_config_constants =
     [(''VIRTIO_CONFIG_S_ACKNOWLEDGE'', 1), (''VIRTIO_CONFIG_S_DRIVER'', 2),
      (''VIRTIO_CONFIG_S_DRIVER_OK'', 4), (''VIRTIO_CONFIG_S_FEATURES_OK'', 8),
      (''VIRTIO_CONFIG_S_NEEDS_RESET'', 64), (''VIRTIO_CONFIG_S_FAILED'', 128),
      (''VIRTIO_TRANSPORT_F_START'', 28), (''VIRTIO_TRANSPORT_F_END'', 42)] @
     virtio_transport_features"

definition virtio_ring_constants :: "(string \<times> nat) list" where
  "virtio_ring_constants =
     [(''VRING_DESC_F_NEXT'', 1), (''VRING_DESC_F_WRITE'', 2), (''VRING_DESC_F_INDIRECT'', 4),
      (''VRING_PACKED_DESC_F_AVAIL'', 7), (''VRING_PACKED_DESC_F_USED'', 15),
      (''VRING_USED_F_NO_NOTIFY'', 1), (''VRING_AVAIL_F_NO_INTERRUPT'', 1),
      (''VRING_PACKED_EVENT_FLAG_ENABLE'', 0), (''VRING_PACKED_EVENT_FLAG_DISABLE'', 1),
      (''VRING_PACKED_EVENT_FLAG_DESC'', 2), (''VRING_PACKED_EVENT_F_WRAP_CTR'', 15)] @
     virtio_ring_features @
     [(''VRING_AVAIL_ALIGN_SIZE'', 2), (''VRING_USED_ALIGN_SIZE'', 4),
      (''VRING_DESC_ALIGN_SIZE'', 16)]"

definition virtio_mmio_constants :: "(string \<times> nat) list" where
  "virtio_mmio_constants =
     [(''VIRTIO_MMIO_MAGIC_VALUE'', 0), (''VIRTIO_MMIO_VERSION'', 4),
      (''VIRTIO_MMIO_DEVICE_ID'', 8), (''VIRTIO_MMIO_VENDOR_ID'', 12),
      (''VIRTIO_MMIO_DEVICE_FEATURES'', 16), (''VIRTIO_MMIO_DEVICE_FEATURES_SEL'', 20),
      (''VIRTIO_MMIO_DRIVER_FEATURES'', 32), (''VIRTIO_MMIO_DRIVER_FEATURES_SEL'', 36),
      (''VIRTIO_MMIO_GUEST_PAGE_SIZE'', 40), (''VIRTIO_MMIO_QUEUE_SEL'', 48),
      (''VIRTIO_MMIO_QUEUE_NUM_MAX'', 52), (''VIRTIO_MMIO_QUEUE_NUM'', 56),
      (''VIRTIO_MMIO_QUEUE_ALIGN'', 60), (''VIRTIO_MMIO_QUEUE_PFN'', 64),
      (''VIRTIO_MMIO_QUEUE_READY'', 68), (''VIRTIO_MMIO_QUEUE_NOTIFY'', 80),
      (''VIRTIO_MMIO_INTERRUPT_STATUS'', 96), (''VIRTIO_MMIO_INTERRUPT_ACK'', 100),
      (''VIRTIO_MMIO_STATUS'', 112), (''VIRTIO_MMIO_QUEUE_DESC_LOW'', 128),
      (''VIRTIO_MMIO_QUEUE_DESC_HIGH'', 132), (''VIRTIO_MMIO_QUEUE_AVAIL_LOW'', 144),
      (''VIRTIO_MMIO_QUEUE_AVAIL_HIGH'', 148), (''VIRTIO_MMIO_QUEUE_USED_LOW'', 160),
      (''VIRTIO_MMIO_QUEUE_USED_HIGH'', 164), (''VIRTIO_MMIO_SHM_SEL'', 172),
      (''VIRTIO_MMIO_SHM_LEN_LOW'', 176), (''VIRTIO_MMIO_SHM_LEN_HIGH'', 180),
      (''VIRTIO_MMIO_SHM_BASE_LOW'', 184), (''VIRTIO_MMIO_SHM_BASE_HIGH'', 188),
      (''VIRTIO_MMIO_CONFIG_GENERATION'', 252), (''VIRTIO_MMIO_CONFIG'', 256),
      (''VIRTIO_MMIO_INT_VRING'', 1), (''VIRTIO_MMIO_INT_CONFIG'', 2)]"

definition virtio_blk_constants :: "(string \<times> nat) list" where
  "virtio_blk_constants =
     virtio_blk_features @
     [(''VIRTIO_BLK_ID_BYTES'', 20), (''VIRTIO_BLK_T_IN'', 0), (''VIRTIO_BLK_T_OUT'', 1),
      (''VIRTIO_BLK_T_SCSI_CMD'', 2), (''VIRTIO_BLK_T_FLUSH'', 4), (''VIRTIO_BLK_T_GET_ID'', 8),
      (''VIRTIO_BLK_T_DISCARD'', 11), (''VIRTIO_BLK_T_WRITE_ZEROES'', 13),
      (''VIRTIO_BLK_T_SECURE_ERASE'', 14), (''VIRTIO_BLK_T_ZONE_APPEND'', 15),
      (''VIRTIO_BLK_T_ZONE_REPORT'', 16), (''VIRTIO_BLK_T_ZONE_OPEN'', 18),
      (''VIRTIO_BLK_T_ZONE_CLOSE'', 20), (''VIRTIO_BLK_T_ZONE_FINISH'', 22),
      (''VIRTIO_BLK_T_ZONE_RESET'', 24), (''VIRTIO_BLK_T_ZONE_RESET_ALL'', 26),
      (''VIRTIO_BLK_T_BARRIER'', 2147483648), (''VIRTIO_BLK_Z_NONE'', 0), (''VIRTIO_BLK_Z_HM'', 1),
      (''VIRTIO_BLK_Z_HA'', 2), (''VIRTIO_BLK_ZT_CONV'', 1), (''VIRTIO_BLK_ZT_SWR'', 2),
      (''VIRTIO_BLK_ZT_SWP'', 3), (''VIRTIO_BLK_ZS_NOT_WP'', 0), (''VIRTIO_BLK_ZS_EMPTY'', 1),
      (''VIRTIO_BLK_ZS_IOPEN'', 2), (''VIRTIO_BLK_ZS_EOPEN'', 3), (''VIRTIO_BLK_ZS_CLOSED'', 4),
      (''VIRTIO_BLK_ZS_RDONLY'', 13), (''VIRTIO_BLK_ZS_FULL'', 14), (''VIRTIO_BLK_ZS_OFFLINE'', 15),
      (''VIRTIO_BLK_WRITE_ZEROES_FLAG_UNMAP'', 1), (''VIRTIO_BLK_S_OK'', 0),
      (''VIRTIO_BLK_S_IOERR'', 1), (''VIRTIO_BLK_S_UNSUPP'', 2),
      (''VIRTIO_BLK_S_ZONE_INVALID_CMD'', 3), (''VIRTIO_BLK_S_ZONE_UNALIGNED_WP'', 4),
      (''VIRTIO_BLK_S_ZONE_OPEN_RESOURCE'', 5), (''VIRTIO_BLK_S_ZONE_ACTIVE_RESOURCE'', 6)]"

definition virtio_net_constants :: "(string \<times> nat) list" where
  "virtio_net_constants =
     virtio_net_features @
     [(''VIRTIO_NET_S_LINK_UP'', 1), (''VIRTIO_NET_S_ANNOUNCE'', 2),
      (''VIRTIO_NET_RSS_HASH_TYPE_IPv4'', 1), (''VIRTIO_NET_RSS_HASH_TYPE_TCPv4'', 2),
      (''VIRTIO_NET_RSS_HASH_TYPE_UDPv4'', 4), (''VIRTIO_NET_RSS_HASH_TYPE_IPv6'', 8),
      (''VIRTIO_NET_RSS_HASH_TYPE_TCPv6'', 16), (''VIRTIO_NET_RSS_HASH_TYPE_UDPv6'', 32),
      (''VIRTIO_NET_RSS_HASH_TYPE_IP_EX'', 64), (''VIRTIO_NET_RSS_HASH_TYPE_TCP_EX'', 128),
      (''VIRTIO_NET_RSS_HASH_TYPE_UDP_EX'', 256), (''VIRTIO_NET_HDR_F_NEEDS_CSUM'', 1),
      (''VIRTIO_NET_HDR_F_DATA_VALID'', 2), (''VIRTIO_NET_HDR_F_RSC_INFO'', 4),
      (''VIRTIO_NET_HDR_GSO_NONE'', 0), (''VIRTIO_NET_HDR_GSO_TCPV4'', 1),
      (''VIRTIO_NET_HDR_GSO_UDP'', 3), (''VIRTIO_NET_HDR_GSO_TCPV6'', 4),
      (''VIRTIO_NET_HDR_GSO_UDP_L4'', 5), (''VIRTIO_NET_HDR_GSO_ECN'', 128),
      (''VIRTIO_NET_HASH_REPORT_NONE'', 0), (''VIRTIO_NET_HASH_REPORT_IPv4'', 1),
      (''VIRTIO_NET_HASH_REPORT_TCPv4'', 2), (''VIRTIO_NET_HASH_REPORT_UDPv4'', 3),
      (''VIRTIO_NET_HASH_REPORT_IPv6'', 4), (''VIRTIO_NET_HASH_REPORT_TCPv6'', 5),
      (''VIRTIO_NET_HASH_REPORT_UDPv6'', 6), (''VIRTIO_NET_HASH_REPORT_IPv6_EX'', 7),
      (''VIRTIO_NET_HASH_REPORT_TCPv6_EX'', 8), (''VIRTIO_NET_HASH_REPORT_UDPv6_EX'', 9),
      (''VIRTIO_NET_OK'', 0), (''VIRTIO_NET_ERR'', 1), (''VIRTIO_NET_CTRL_RX'', 0),
      (''VIRTIO_NET_CTRL_RX_PROMISC'', 0), (''VIRTIO_NET_CTRL_RX_ALLMULTI'', 1),
      (''VIRTIO_NET_CTRL_RX_ALLUNI'', 2), (''VIRTIO_NET_CTRL_RX_NOMULTI'', 3),
      (''VIRTIO_NET_CTRL_RX_NOUNI'', 4), (''VIRTIO_NET_CTRL_RX_NOBCAST'', 5),
      (''VIRTIO_NET_CTRL_MAC'', 1), (''VIRTIO_NET_CTRL_MAC_TABLE_SET'', 0),
      (''VIRTIO_NET_CTRL_MAC_ADDR_SET'', 1), (''VIRTIO_NET_CTRL_VLAN'', 2),
      (''VIRTIO_NET_CTRL_VLAN_ADD'', 0), (''VIRTIO_NET_CTRL_VLAN_DEL'', 1),
      (''VIRTIO_NET_CTRL_ANNOUNCE'', 3), (''VIRTIO_NET_CTRL_ANNOUNCE_ACK'', 0),
      (''VIRTIO_NET_CTRL_MQ'', 4), (''VIRTIO_NET_CTRL_MQ_VQ_PAIRS_SET'', 0),
      (''VIRTIO_NET_CTRL_MQ_VQ_PAIRS_MIN'', 1), (''VIRTIO_NET_CTRL_MQ_VQ_PAIRS_MAX'', 32768),
      (''VIRTIO_NET_CTRL_MQ_RSS_CONFIG'', 1), (''VIRTIO_NET_CTRL_MQ_HASH_CONFIG'', 2),
      (''VIRTIO_NET_CTRL_GUEST_OFFLOADS'', 5), (''VIRTIO_NET_CTRL_GUEST_OFFLOADS_SET'', 0),
      (''VIRTIO_NET_CTRL_NOTF_COAL'', 6), (''VIRTIO_NET_CTRL_NOTF_COAL_TX_SET'', 0),
      (''VIRTIO_NET_CTRL_NOTF_COAL_RX_SET'', 1), (''VIRTIO_NET_CTRL_NOTF_COAL_VQ_SET'', 2),
      (''VIRTIO_NET_CTRL_NOTF_COAL_VQ_GET'', 3), (''VIRTIO_NET_CTRL_STATS'', 8),
      (''VIRTIO_NET_CTRL_STATS_QUERY'', 0), (''VIRTIO_NET_CTRL_STATS_GET'', 1),
      (''VIRTIO_NET_STATS_TYPE_CVQ'', 4294967296), (''VIRTIO_NET_STATS_TYPE_RX_BASIC'', 1),
      (''VIRTIO_NET_STATS_TYPE_RX_CSUM'', 2), (''VIRTIO_NET_STATS_TYPE_RX_GSO'', 4),
      (''VIRTIO_NET_STATS_TYPE_RX_SPEED'', 8), (''VIRTIO_NET_STATS_TYPE_TX_BASIC'', 65536),
      (''VIRTIO_NET_STATS_TYPE_TX_CSUM'', 131072), (''VIRTIO_NET_STATS_TYPE_TX_GSO'', 262144),
      (''VIRTIO_NET_STATS_TYPE_TX_SPEED'', 524288), (''VIRTIO_NET_STATS_TYPE_REPLY_CVQ'', 32),
      (''VIRTIO_NET_STATS_TYPE_REPLY_RX_BASIC'', 0), (''VIRTIO_NET_STATS_TYPE_REPLY_RX_CSUM'', 1),
      (''VIRTIO_NET_STATS_TYPE_REPLY_RX_GSO'', 2), (''VIRTIO_NET_STATS_TYPE_REPLY_RX_SPEED'', 3),
      (''VIRTIO_NET_STATS_TYPE_REPLY_TX_BASIC'', 16), (''VIRTIO_NET_STATS_TYPE_REPLY_TX_CSUM'', 17),
      (''VIRTIO_NET_STATS_TYPE_REPLY_TX_GSO'', 18), (''VIRTIO_NET_STATS_TYPE_REPLY_TX_SPEED'', 19)]"

definition virtio_scsi_constants :: "(string \<times> nat) list" where
  "virtio_scsi_constants =
     [(''VIRTIO_SCSI_CDB_DEFAULT_SIZE'', 32), (''VIRTIO_SCSI_SENSE_DEFAULT_SIZE'', 96),
      (''VIRTIO_SCSI_CDB_SIZE'', 32), (''VIRTIO_SCSI_SENSE_SIZE'', 96)] @
     virtio_scsi_features @
     [(''VIRTIO_SCSI_S_OK'', 0), (''VIRTIO_SCSI_S_OVERRUN'', 1), (''VIRTIO_SCSI_S_ABORTED'', 2),
      (''VIRTIO_SCSI_S_BAD_TARGET'', 3), (''VIRTIO_SCSI_S_RESET'', 4), (''VIRTIO_SCSI_S_BUSY'', 5),
      (''VIRTIO_SCSI_S_TRANSPORT_FAILURE'', 6), (''VIRTIO_SCSI_S_TARGET_FAILURE'', 7),
      (''VIRTIO_SCSI_S_NEXUS_FAILURE'', 8), (''VIRTIO_SCSI_S_FAILURE'', 9),
      (''VIRTIO_SCSI_S_FUNCTION_SUCCEEDED'', 10), (''VIRTIO_SCSI_S_FUNCTION_REJECTED'', 11),
      (''VIRTIO_SCSI_S_INCORRECT_LUN'', 12), (''VIRTIO_SCSI_T_TMF'', 0),
      (''VIRTIO_SCSI_T_AN_QUERY'', 1), (''VIRTIO_SCSI_T_AN_SUBSCRIBE'', 2),
      (''VIRTIO_SCSI_T_TMF_ABORT_TASK'', 0), (''VIRTIO_SCSI_T_TMF_ABORT_TASK_SET'', 1),
      (''VIRTIO_SCSI_T_TMF_CLEAR_ACA'', 2), (''VIRTIO_SCSI_T_TMF_CLEAR_TASK_SET'', 3),
      (''VIRTIO_SCSI_T_TMF_I_T_NEXUS_RESET'', 4), (''VIRTIO_SCSI_T_TMF_LOGICAL_UNIT_RESET'', 5),
      (''VIRTIO_SCSI_T_TMF_QUERY_TASK'', 6), (''VIRTIO_SCSI_T_TMF_QUERY_TASK_SET'', 7),
      (''VIRTIO_SCSI_T_EVENTS_MISSED'', 2147483648), (''VIRTIO_SCSI_T_NO_EVENT'', 0),
      (''VIRTIO_SCSI_T_TRANSPORT_RESET'', 1), (''VIRTIO_SCSI_T_ASYNC_NOTIFY'', 2),
      (''VIRTIO_SCSI_T_PARAM_CHANGE'', 3), (''VIRTIO_SCSI_EVT_RESET_HARD'', 0),
      (''VIRTIO_SCSI_EVT_RESET_RESCAN'', 1), (''VIRTIO_SCSI_EVT_RESET_REMOVED'', 2),
      (''VIRTIO_SCSI_S_SIMPLE'', 0), (''VIRTIO_SCSI_S_ORDERED'', 1), (''VIRTIO_SCSI_S_HEAD'', 2),
      (''VIRTIO_SCSI_S_ACA'', 3)]"

definition virtio_input_constants :: "(string \<times> nat) list" where
  "virtio_input_constants =
     [(''virtio_input_config_select_VIRTIO_INPUT_CFG_UNSET'', 0),
      (''virtio_input_config_select_VIRTIO_INPUT_CFG_ID_NAME'', 1),
      (''virtio_input_config_select_VIRTIO_INPUT_CFG_ID_SERIAL'', 2),
      (''virtio_input_config_select_VIRTIO_INPUT_CFG_ID_DEVIDS'', 3),
      (''virtio_input_config_select_VIRTIO_INPUT_CFG_PROP_BITS'', 16),
      (''virtio_input_config_select_VIRTIO_INPUT_CFG_EV_BITS'', 17),
      (''virtio_input_config_select_VIRTIO_INPUT_CFG_ABS_INFO'', 18)]"

definition virtio_gpu_constants :: "(string \<times> nat) list" where
  "virtio_gpu_constants =
     virtio_gpu_features @
     [(''VIRTIO_GPU_FLAG_FENCE'', 1), (''VIRTIO_GPU_FLAG_INFO_RING_IDX'', 2),
      (''VIRTIO_GPU_MAX_SCANOUTS'', 16), (''VIRTIO_GPU_RESOURCE_FLAG_Y_0_TOP'', 1),
      (''VIRTIO_GPU_CONTEXT_INIT_CAPSET_ID_MASK'', 255), (''VIRTIO_GPU_CAPSET_VIRGL'', 1),
      (''VIRTIO_GPU_CAPSET_VIRGL2'', 2), (''VIRTIO_GPU_CAPSET_GFXSTREAM_VULKAN'', 3),
      (''VIRTIO_GPU_CAPSET_VENUS'', 4), (''VIRTIO_GPU_CAPSET_CROSS_DOMAIN'', 5),
      (''VIRTIO_GPU_CAPSET_DRM'', 6), (''VIRTIO_GPU_EVENT_DISPLAY'', 1),
      (''VIRTIO_GPU_BLOB_MEM_GUEST'', 1), (''VIRTIO_GPU_BLOB_MEM_HOST3D'', 2),
      (''VIRTIO_GPU_BLOB_MEM_HOST3D_GUEST'', 3), (''VIRTIO_GPU_BLOB_FLAG_USE_MAPPABLE'', 1),
      (''VIRTIO_GPU_BLOB_FLAG_USE_SHAREABLE'', 2), (''VIRTIO_GPU_BLOB_FLAG_USE_CROSS_DEVICE'', 4),
      (''VIRTIO_GPU_MAP_CACHE_MASK'', 15), (''VIRTIO_GPU_MAP_CACHE_NONE'', 0),
      (''VIRTIO_GPU_MAP_CACHE_CACHED'', 1), (''VIRTIO_GPU_MAP_CACHE_UNCACHED'', 2),
      (''VIRTIO_GPU_MAP_CACHE_WC'', 3)]"

definition virtio_gpu_ctrl_types :: "(string \<times> nat) list" where
  "virtio_gpu_ctrl_types =
     [(''virtio_gpu_ctrl_type_VIRTIO_GPU_UNDEFINED'', 0),
      (''virtio_gpu_ctrl_type_VIRTIO_GPU_CMD_GET_DISPLAY_INFO'', 256),
      (''virtio_gpu_ctrl_type_VIRTIO_GPU_CMD_RESOURCE_CREATE_2D'', 257),
      (''virtio_gpu_ctrl_type_VIRTIO_GPU_CMD_RESOURCE_UNREF'', 258),
      (''virtio_gpu_ctrl_type_VIRTIO_GPU_CMD_SET_SCANOUT'', 259),
      (''virtio_gpu_ctrl_type_VIRTIO_GPU_CMD_RESOURCE_FLUSH'', 260),
      (''virtio_gpu_ctrl_type_VIRTIO_GPU_CMD_TRANSFER_TO_HOST_2D'', 261),
      (''virtio_gpu_ctrl_type_VIRTIO_GPU_CMD_RESOURCE_ATTACH_BACKING'', 262),
      (''virtio_gpu_ctrl_type_VIRTIO_GPU_CMD_RESOURCE_DETACH_BACKING'', 263),
      (''virtio_gpu_ctrl_type_VIRTIO_GPU_CMD_GET_CAPSET_INFO'', 264),
      (''virtio_gpu_ctrl_type_VIRTIO_GPU_CMD_GET_CAPSET'', 265),
      (''virtio_gpu_ctrl_type_VIRTIO_GPU_CMD_GET_EDID'', 266),
      (''virtio_gpu_ctrl_type_VIRTIO_GPU_CMD_RESOURCE_ASSIGN_UUID'', 267),
      (''virtio_gpu_ctrl_type_VIRTIO_GPU_CMD_RESOURCE_CREATE_BLOB'', 268),
      (''virtio_gpu_ctrl_type_VIRTIO_GPU_CMD_SET_SCANOUT_BLOB'', 269),
      (''virtio_gpu_ctrl_type_VIRTIO_GPU_CMD_CTX_CREATE'', 512),
      (''virtio_gpu_ctrl_type_VIRTIO_GPU_CMD_CTX_DESTROY'', 513),
      (''virtio_gpu_ctrl_type_VIRTIO_GPU_CMD_CTX_ATTACH_RESOURCE'', 514),
      (''virtio_gpu_ctrl_type_VIRTIO_GPU_CMD_CTX_DETACH_RESOURCE'', 515),
      (''virtio_gpu_ctrl_type_VIRTIO_GPU_CMD_RESOURCE_CREATE_3D'', 516),
      (''virtio_gpu_ctrl_type_VIRTIO_GPU_CMD_TRANSFER_TO_HOST_3D'', 517),
      (''virtio_gpu_ctrl_type_VIRTIO_GPU_CMD_TRANSFER_FROM_HOST_3D'', 518),
      (''virtio_gpu_ctrl_type_VIRTIO_GPU_CMD_SUBMIT_3D'', 519),
      (''virtio_gpu_ctrl_type_VIRTIO_GPU_CMD_RESOURCE_MAP_BLOB'', 520),
      (''virtio_gpu_ctrl_type_VIRTIO_GPU_CMD_RESOURCE_UNMAP_BLOB'', 521),
      (''virtio_gpu_ctrl_type_VIRTIO_GPU_CMD_UPDATE_CURSOR'', 768),
      (''virtio_gpu_ctrl_type_VIRTIO_GPU_CMD_MOVE_CURSOR'', 769),
      (''virtio_gpu_ctrl_type_VIRTIO_GPU_RESP_OK_NODATA'', 4352),
      (''virtio_gpu_ctrl_type_VIRTIO_GPU_RESP_OK_DISPLAY_INFO'', 4353),
      (''virtio_gpu_ctrl_type_VIRTIO_GPU_RESP_OK_CAPSET_INFO'', 4354),
      (''virtio_gpu_ctrl_type_VIRTIO_GPU_RESP_OK_CAPSET'', 4355),
      (''virtio_gpu_ctrl_type_VIRTIO_GPU_RESP_OK_EDID'', 4356),
      (''virtio_gpu_ctrl_type_VIRTIO_GPU_RESP_OK_RESOURCE_UUID'', 4357),
      (''virtio_gpu_ctrl_type_VIRTIO_GPU_RESP_OK_MAP_INFO'', 4358),
      (''virtio_gpu_ctrl_type_VIRTIO_GPU_RESP_ERR_UNSPEC'', 4608),
      (''virtio_gpu_ctrl_type_VIRTIO_GPU_RESP_ERR_OUT_OF_MEMORY'', 4609),
      (''virtio_gpu_ctrl_type_VIRTIO_GPU_RESP_ERR_INVALID_SCANOUT_ID'', 4610),
      (''virtio_gpu_ctrl_type_VIRTIO_GPU_RESP_ERR_INVALID_RESOURCE_ID'', 4611),
      (''virtio_gpu_ctrl_type_VIRTIO_GPU_RESP_ERR_INVALID_CONTEXT_ID'', 4612),
      (''virtio_gpu_ctrl_type_VIRTIO_GPU_RESP_ERR_INVALID_PARAMETER'', 4613)]"

definition virtio_gpu_shm_ids :: "(string \<times> nat) list" where
  "virtio_gpu_shm_ids =
     [(''virtio_gpu_shm_id_VIRTIO_GPU_SHM_ID_UNDEFINED'', 0),
      (''virtio_gpu_shm_id_VIRTIO_GPU_SHM_ID_HOST_VISIBLE'', 1)]"

definition virtio_gpu_formats :: "(string \<times> nat) list" where
  "virtio_gpu_formats =
     [(''virtio_gpu_formats_VIRTIO_GPU_FORMAT_B8G8R8A8_UNORM'', 1),
      (''virtio_gpu_formats_VIRTIO_GPU_FORMAT_B8G8R8X8_UNORM'', 2),
      (''virtio_gpu_formats_VIRTIO_GPU_FORMAT_A8R8G8B8_UNORM'', 3),
      (''virtio_gpu_formats_VIRTIO_GPU_FORMAT_X8R8G8B8_UNORM'', 4),
      (''virtio_gpu_formats_VIRTIO_GPU_FORMAT_R8G8B8A8_UNORM'', 67),
      (''virtio_gpu_formats_VIRTIO_GPU_FORMAT_X8B8G8R8_UNORM'', 68),
      (''virtio_gpu_formats_VIRTIO_GPU_FORMAT_A8B8G8R8_UNORM'', 121),
      (''virtio_gpu_formats_VIRTIO_GPU_FORMAT_R8G8B8X8_UNORM'', 134)]"

section \<open>The constants the crates import\<close>

lemma imported_ring_constants:
  "list_all (\<lambda>(n, v). map_of virtio_ring_constants n = Some v)
     [(''VRING_DESC_F_NEXT'', unat VRING_DESC_F_NEXT),
      (''VRING_DESC_F_WRITE'', unat VRING_DESC_F_WRITE),
      (''VRING_DESC_F_INDIRECT'', unat VRING_DESC_F_INDIRECT),
      (''VRING_USED_F_NO_NOTIFY'', unat VRING_USED_F_NO_NOTIFY),
      (''VRING_DESC_ALIGN_SIZE'', unat VRING_DESC_ALIGN_SIZE)]"
  by code_simp

lemma imported_blk_constants:
  "list_all (\<lambda>(n, v). map_of virtio_blk_constants n = Some v)
     [(''VIRTIO_BLK_F_RO'', VIRTIO_BLK_F_RO), (''VIRTIO_BLK_F_FLUSH'', VIRTIO_BLK_F_FLUSH),
      (''VIRTIO_BLK_F_DISCARD'', VIRTIO_BLK_F_DISCARD),
      (''VIRTIO_BLK_F_WRITE_ZEROES'', VIRTIO_BLK_F_WRITE_ZEROES),
      (''VIRTIO_BLK_ID_BYTES'', VIRTIO_BLK_ID_BYTES), (''VIRTIO_BLK_T_IN'', unat VIRTIO_BLK_T_IN),
      (''VIRTIO_BLK_T_OUT'', unat VIRTIO_BLK_T_OUT),
      (''VIRTIO_BLK_T_FLUSH'', unat VIRTIO_BLK_T_FLUSH),
      (''VIRTIO_BLK_T_GET_ID'', unat VIRTIO_BLK_T_GET_ID),
      (''VIRTIO_BLK_T_DISCARD'', unat VIRTIO_BLK_T_DISCARD),
      (''VIRTIO_BLK_T_WRITE_ZEROES'', unat VIRTIO_BLK_T_WRITE_ZEROES),
      (''VIRTIO_BLK_S_OK'', unat VIRTIO_BLK_S_OK),
      (''VIRTIO_BLK_S_IOERR'', unat VIRTIO_BLK_S_IOERR),
      (''VIRTIO_BLK_S_UNSUPP'', unat VIRTIO_BLK_S_UNSUPP)]"
  by (simp add: virtio_blk_constants_def virtio_blk_features_def blk_type_defs VIRTIO_BLK_F_RO_def VIRTIO_BLK_F_FLUSH_def
      VIRTIO_BLK_F_DISCARD_def VIRTIO_BLK_F_WRITE_ZEROES_def VIRTIO_BLK_ID_BYTES_def VIRTIO_BLK_S_OK_def
      VIRTIO_BLK_S_IOERR_def VIRTIO_BLK_S_UNSUPP_def)

lemma imported_mmio_constants:
  "list_all (\<lambda>(n, v). map_of virtio_mmio_constants n = Some v)
     [(''VIRTIO_MMIO_MAGIC_VALUE'', unat VIRTIO_MMIO_MAGIC_VALUE),
      (''VIRTIO_MMIO_VERSION'', unat VIRTIO_MMIO_VERSION),
      (''VIRTIO_MMIO_DEVICE_ID'', unat VIRTIO_MMIO_DEVICE_ID),
      (''VIRTIO_MMIO_VENDOR_ID'', unat VIRTIO_MMIO_VENDOR_ID),
      (''VIRTIO_MMIO_DEVICE_FEATURES'', unat VIRTIO_MMIO_DEVICE_FEATURES),
      (''VIRTIO_MMIO_DEVICE_FEATURES_SEL'', unat VIRTIO_MMIO_DEVICE_FEATURES_SEL),
      (''VIRTIO_MMIO_DRIVER_FEATURES'', unat VIRTIO_MMIO_DRIVER_FEATURES),
      (''VIRTIO_MMIO_DRIVER_FEATURES_SEL'', unat VIRTIO_MMIO_DRIVER_FEATURES_SEL),
      (''VIRTIO_MMIO_QUEUE_SEL'', unat VIRTIO_MMIO_QUEUE_SEL),
      (''VIRTIO_MMIO_QUEUE_NUM_MAX'', unat VIRTIO_MMIO_QUEUE_NUM_MAX),
      (''VIRTIO_MMIO_QUEUE_NUM'', unat VIRTIO_MMIO_QUEUE_NUM),
      (''VIRTIO_MMIO_QUEUE_READY'', unat VIRTIO_MMIO_QUEUE_READY),
      (''VIRTIO_MMIO_QUEUE_NOTIFY'', unat VIRTIO_MMIO_QUEUE_NOTIFY),
      (''VIRTIO_MMIO_INTERRUPT_STATUS'', unat VIRTIO_MMIO_INTERRUPT_STATUS),
      (''VIRTIO_MMIO_INTERRUPT_ACK'', unat VIRTIO_MMIO_INTERRUPT_ACK),
      (''VIRTIO_MMIO_STATUS'', unat VIRTIO_MMIO_STATUS),
      (''VIRTIO_MMIO_QUEUE_DESC_LOW'', unat VIRTIO_MMIO_QUEUE_DESC_LOW),
      (''VIRTIO_MMIO_QUEUE_DESC_HIGH'', unat VIRTIO_MMIO_QUEUE_DESC_HIGH),
      (''VIRTIO_MMIO_QUEUE_AVAIL_LOW'', unat VIRTIO_MMIO_QUEUE_AVAIL_LOW),
      (''VIRTIO_MMIO_QUEUE_AVAIL_HIGH'', unat VIRTIO_MMIO_QUEUE_AVAIL_HIGH),
      (''VIRTIO_MMIO_QUEUE_USED_LOW'', unat VIRTIO_MMIO_QUEUE_USED_LOW),
      (''VIRTIO_MMIO_QUEUE_USED_HIGH'', unat VIRTIO_MMIO_QUEUE_USED_HIGH),
      (''VIRTIO_MMIO_CONFIG_GENERATION'', unat VIRTIO_MMIO_CONFIG_GENERATION),
      (''VIRTIO_MMIO_CONFIG'', unat VIRTIO_MMIO_CONFIG)]"
  by (simp add: virtio_mmio_constants_def register_defs)

end
