(* ===== verification/Net_Header.thy ===== *)
theory Net_Header
  imports Bindings_Net
begin

text \<open>
  The packet header \<open>virtio_net_hdr_v1\<close> as \<open>virtio-bindings/src/virtio_net/mod.rs\<close> extends it: equality of
  two headers by the bytes they are transmuted to, and the \<open>Debug\<close> output, which reads the union through
  its checksum variant. Both depend on the host byte order, a parameter here. The lemmas show that the
  header has no padding the byte comparison could read and that the output tells headers apart exactly
  when the comparison does.
\<close>

section \<open>The header\<close>

text \<open>The union holds four bytes; every variant is a pair of 16-bit fields.\<close>

datatype csum_union = CsumUnion byte byte byte byte

record csum_fields =
  cf_start :: u16
  cf_offset :: u16

record net_hdr_v1 =
  nh_flags :: u8
  nh_gso_type :: u8
  nh_hdr_len :: u16
  nh_gso_size :: u16
  nh_anon_1 :: csum_union
  nh_num_buffers :: u16

fun union_bytes :: "csum_union \<Rightarrow> byte list" where
  "union_bytes (CsumUnion a b c d) = [a, b, c, d]"

text \<open>Reading the variant \<open>csum\<close> of the union.\<close>

fun union_csum :: "endian \<Rightarrow> csum_union \<Rightarrow> csum_fields" where
  "union_csum e (CsumUnion a b c d) = \<lparr>cf_start = native_word e [a, b], cf_offset = native_word e [c, d]\<rparr>"

definition net_hdr_default :: net_hdr_v1 where
  "net_hdr_default =
     \<lparr>nh_flags = 0, nh_gso_type = 0, nh_hdr_len = 0, nh_gso_size = 0, nh_anon_1 = CsumUnion 0 0 0 0,
      nh_num_buffers = 0\<rparr>"

section \<open>Equality\<close>

text \<open>The header as the array of bytes it is transmuted to.\<close>

definition net_hdr_bytes :: "endian \<Rightarrow> net_hdr_v1 \<Rightarrow> byte list" where
  "net_hdr_bytes e h =
     [nh_flags h, nh_gso_type h] @ native_bytes e 2 (nh_hdr_len h) @ native_bytes e 2 (nh_gso_size h) @
     union_bytes (nh_anon_1 h) @ native_bytes e 2 (nh_num_buffers h)"

definition net_hdr_eq :: "endian \<Rightarrow> net_hdr_v1 \<Rightarrow> net_hdr_v1 \<Rightarrow> bool" where
  "net_hdr_eq e h1 h2 \<longleftrightarrow> net_hdr_bytes e h1 = net_hdr_bytes e h2"

section \<open>Debug output\<close>

text \<open>Integers in the radix of the format: decimal for \<open>{:?}\<close>, lower-case hexadecimal with prefix for
  \<open>{:#x?}\<close>.\<close>

definition digit :: "nat \<Rightarrow> char" where
  "digit d = ''0123456789abcdef'' ! d"

datatype radix = Dec | LowerHex

fun radix_base :: "radix \<Rightarrow> nat" where
  "radix_base Dec = 10"
| "radix_base LowerHex = 16"

function fmt_radix :: "radix \<Rightarrow> nat \<Rightarrow> string" where
  "fmt_radix r n =
     (if n < radix_base r then [digit n]
      else fmt_radix r (n div radix_base r) @ [digit (n mod radix_base r)])"
  by pat_completeness auto

lemma radix_base_gt [simp]: "2 < radix_base r"
  by (cases r) simp_all

termination fmt_radix
proof (relation "measure snd")
  fix r and n :: nat
  assume "\<not> n < radix_base r"
  then have "1 < radix_base r" "0 < n" using radix_base_gt [of r] by linarith+
  then show "((r, n div radix_base r), r, n) \<in> measure snd" by simp
qed simp

declare fmt_radix.simps [simp del]

definition debug_fields :: "endian \<Rightarrow> net_hdr_v1 \<Rightarrow> (string \<times> nat) list" where
  "debug_fields e h =
     (let csum = union_csum e (nh_anon_1 h) in
      [(''flags'', unat (nh_flags h)), (''gso_type'', unat (nh_gso_type h)),
       (''hdr_len'', unat (nh_hdr_len h)), (''gso_size'', unat (nh_gso_size h)),
       (''csum_start'', unat (cf_start csum)), (''csum_offset'', unat (cf_offset csum)),
       (''num_buffers'', unat (nh_num_buffers h))])"

text \<open>\<open>debug_struct\<close> with its fields: on one line, or with \<open>#\<close> one field per line.\<close>

fun fmt_fields :: "(string \<times> nat) list \<Rightarrow> string" where
  "fmt_fields [] = []"
| "fmt_fields [(f, v)] = f @ '': '' @ fmt_radix Dec v"
| "fmt_fields ((f, v) # fs) = f @ '': '' @ fmt_radix Dec v @ '', '' @ fmt_fields fs"

definition net_hdr_debug :: "endian \<Rightarrow> net_hdr_v1 \<Rightarrow> string" where
  "net_hdr_debug e h = ''virtio_net_hdr_v1 { '' @ fmt_fields (debug_fields e h) @ '' }''"

definition newline :: char where
  "newline = CHR 0x0A"

definition net_hdr_debug_hex :: "endian \<Rightarrow> net_hdr_v1 \<Rightarrow> string" where
  "net_hdr_debug_hex e h =
     ''virtio_net_hdr_v1 {'' @ [newline] @
     concat (map (\<lambda>(f, v). ''    '' @ f @ '': 0x'' @ fmt_radix LowerHex v @ '','' @ [newline]) (debug_fields e h)) @
     ''}''"

section \<open>What the comparison and the output see\<close>

text \<open>The output of a number is a word of digits that determines the number.\<close>

definition is_digit :: "char \<Rightarrow> bool" where
  "is_digit c \<longleftrightarrow> c \<in> set ''0123456789''"

lemma digit_inj: "m < 10 \<Longrightarrow> n < 10 \<Longrightarrow> digit m = digit n \<Longrightarrow> m = n"
  by (auto simp: digit_def less_Suc_eq numeral_eq_Suc)

lemma digit_is_digit: "n < 10 \<Longrightarrow> is_digit (digit n)"
  by (auto simp: digit_def is_digit_def less_Suc_eq numeral_eq_Suc)

lemma fmt_dec_digits: "list_all is_digit (fmt_radix Dec n)"
proof (induction n rule: less_induct)
  case (less n)
  then show ?case by (simp add: fmt_radix.simps [of Dec n] digit_is_digit)
qed

lemma fmt_dec_inj: "fmt_radix Dec m = fmt_radix Dec n \<Longrightarrow> m = n"
proof (induction m arbitrary: n rule: less_induct)
  case (less m)
  have ne: "fmt_radix Dec k \<noteq> []" for k by (subst fmt_radix.simps) simp
  show ?case
  proof (cases "m < 10 \<or> n < 10")
    case True
    then show ?thesis
      using less.prems ne by (auto simp: fmt_radix.simps [of Dec m] fmt_radix.simps [of Dec n]
          append_eq_Cons_conv Cons_eq_append_conv dest: digit_inj split: if_splits)
  next
    case False
    then have "fmt_radix Dec (m div 10) = fmt_radix Dec (n div 10)" "digit (m mod 10) = digit (n mod 10)"
      using less.prems by (simp_all add: fmt_radix.simps [of Dec m] fmt_radix.simps [of Dec n])
    with False less.IH [of "m div 10" "n div 10"] have "m div 10 = n div 10" "m mod 10 = n mod 10"
      by (simp_all add: digit_inj)
    then show ?thesis by (metis div_mult_mod_eq)
  qed
qed

lemma fmt_dec_eq [simp]: "fmt_radix Dec m = fmt_radix Dec n \<longleftrightarrow> m = n"
  using fmt_dec_inj by auto

lemma digits_split:
  assumes "list_all is_digit xs" and "list_all is_digit ys" and "\<not> is_digit c"
  shows "xs @ c # r = ys @ c # r' \<longleftrightarrow> xs = ys \<and> r = r'"
proof -
  have "takeWhile is_digit (zs @ c # s) = zs" if "list_all is_digit zs" for zs s
    using that assms(3) by (simp add: list_all_iff takeWhile_append2)
  then have "xs = ys" if "xs @ c # r = ys @ c # r'"
    using assms(1,2) arg_cong [OF that, of "takeWhile is_digit"] by simp
  then show ?thesis by auto
qed

lemma fmt_dec_split:
  "\<not> is_digit c \<Longrightarrow> fmt_radix Dec m @ c # r = fmt_radix Dec n @ c # r' \<longleftrightarrow> m = n \<and> r = r'"
  by (auto simp: digits_split fmt_dec_digits dest: fmt_dec_inj)

lemma native_word_inj:
  assumes "length bs = 2" and "length bs' = 2"
  shows "(native_word e bs :: u16) = native_word e bs' \<longleftrightarrow> bs = bs'"
proof -
  have "cs = cs'" if "length cs = 2" "length cs' = 2" "le_word cs = (le_word cs' :: u16)" for cs cs'
    using le_bytes_le_word [of cs, where 'a = 16] le_bytes_le_word [of cs', where 'a = 16] that by simp
  from this [of bs bs'] this [of "rev bs" "rev bs'"] assms show ?thesis
    by (cases e) (auto simp: native_word_def)
qed

lemma native_bytes_inj: "native_bytes e 2 (v :: u16) = native_bytes e 2 w \<longleftrightarrow> v = w"
proof -
  have "le_bytes 2 v = le_bytes 2 w \<longleftrightarrow> v = w" by (metis le_word_16)
  then show ?thesis by (cases e) (simp_all add: native_bytes_def)
qed

lemma union_csum_inj: "union_csum e u = union_csum e u' \<longleftrightarrow> u = u'"
  by (cases u; cases u') (simp add: native_word_inj)

lemma net_hdr_eq_iff: "net_hdr_eq e h1 h2 \<longleftrightarrow> h1 = h2"
proof
  assume "net_hdr_eq e h1 h2"
  moreover have "length (union_bytes u) = length (union_bytes u')" "union_bytes u = union_bytes u' \<longleftrightarrow> u = u'"
    for u u' by (cases u; cases u'; simp)+
  ultimately show "h1 = h2"
    by (intro net_hdr_v1.equality) (simp_all add: net_hdr_eq_def net_hdr_bytes_def native_bytes_inj)
qed (simp add: net_hdr_eq_def)

lemma net_hdr_debug_iff: "net_hdr_debug e h1 = net_hdr_debug e h2 \<longleftrightarrow> debug_fields e h1 = debug_fields e h2"
proof -
  have "\<not> is_digit CHR '',''" "\<not> is_digit CHR '' ''" by (simp_all add: is_digit_def)
  then show ?thesis by (simp add: net_hdr_debug_def debug_fields_def Let_def fmt_dec_split)
qed

lemma debug_fields_iff: "debug_fields e h1 = debug_fields e h2 \<longleftrightarrow> h1 = h2"
proof
  assume "debug_fields e h1 = debug_fields e h2"
  then have "union_csum e (nh_anon_1 h1) = union_csum e (nh_anon_1 h2)"
      and *: "nh_flags h1 = nh_flags h2" "nh_gso_type h1 = nh_gso_type h2" "nh_hdr_len h1 = nh_hdr_len h2"
        "nh_gso_size h1 = nh_gso_size h2" "nh_num_buffers h1 = nh_num_buffers h2"
    by (simp_all add: debug_fields_def Let_def word_unat_eq_iff)
  then show "h1 = h2" by (intro net_hdr_v1.equality) (simp_all add: union_csum_inj)
qed simp

end
