(* ===== verification/Bindings_Properties.thy ===== *)
theory Bindings_Properties
  imports Bindings_Targets Bindings_Constants Net_Header Queue_Core Blk_Executor Virtio_Device
begin

text \<open>
  Properties of \<open>virtio-bindings\<close>: the layouts of the generated structures and the targets their
  compile-time checks hold on, the agreement of the structures the device crates define by hand with the
  generated ones, the files the modules resolve to, the feature bits, and the network packet header.
\<close>

section \<open>Layouts\<close>






section \<open>The structures of the device crates\<close>

text \<open>The offsets and sizes of the structures the device crates define for themselves are the same on
  every target.\<close>

lemma ring_offsets:
  assumes "target_ok t"
  shows "size_of t vring_desc = 16" "offset_of t vring_desc ''addr'' = Some 0"
    "offset_of t vring_desc ''len'' = Some 8" "offset_of t vring_desc ''flags'' = Some 12"
    "offset_of t vring_desc ''next'' = Some 14"
    "size_of t vring_packed_desc = 16" "offset_of t vring_packed_desc ''addr'' = Some 0"
    "offset_of t vring_packed_desc ''len'' = Some 8" "offset_of t vring_packed_desc ''id'' = Some 12"
    "offset_of t vring_packed_desc ''flags'' = Some 14"
  using assms
  by (cases rule: target_ok_u64_cases;
      simp add: vring_desc_def vring_packed_desc_def layout_eval)+

lemma blk_offsets:
  assumes "target_ok t"
  shows "size_of t virtio_blk_outhdr = 16" "offset_of t virtio_blk_outhdr ''type_'' = Some 0"
    "offset_of t virtio_blk_outhdr ''ioprio'' = Some 4" "offset_of t virtio_blk_outhdr ''sector'' = Some 8"
    "size_of t virtio_blk_discard_write_zeroes = 16"
    "offset_of t virtio_blk_discard_write_zeroes ''sector'' = Some 0"
    "offset_of t virtio_blk_discard_write_zeroes ''num_sectors'' = Some 8"
    "offset_of t virtio_blk_discard_write_zeroes ''flags'' = Some 12"
  using assms
  by (cases rule: target_ok_u64_cases;
      simp add: virtio_blk_outhdr_def virtio_blk_discard_write_zeroes_def layout_eval)+

lemmas crate_layouts = ring_offsets blk_offsets

lemma scalar_sizes [simp]:
  "size_of t C_ushort = 2" "size_of t C_uint = 4" "size_of t C_ulonglong = 8"
  by (simp_all add: size_of_def)

lemma crate_field_types:
  "field_type vring_desc ''addr'' = Some C_ulonglong" "field_type vring_desc ''len'' = Some C_uint"
  "field_type vring_desc ''flags'' = Some C_ushort" "field_type vring_desc ''next'' = Some C_ushort"
  "field_type vring_packed_desc ''addr'' = Some C_ulonglong" "field_type vring_packed_desc ''len'' = Some C_uint"
  "field_type vring_packed_desc ''id'' = Some C_ushort" "field_type vring_packed_desc ''flags'' = Some C_ushort"
  "field_type virtio_blk_outhdr ''type_'' = Some C_uint" "field_type virtio_blk_outhdr ''ioprio'' = Some C_uint"
  "field_type virtio_blk_outhdr ''sector'' = Some C_ulonglong"
  "field_type virtio_blk_discard_write_zeroes ''sector'' = Some C_ulonglong"
  "field_type virtio_blk_discard_write_zeroes ''num_sectors'' = Some C_uint"
  "field_type virtio_blk_discard_write_zeroes ''flags'' = Some C_uint"
  by (simp_all add: vring_desc_def vring_packed_desc_def virtio_blk_outhdr_def
      virtio_blk_discard_write_zeroes_def)

text \<open>C29. The descriptors the queue reads and writes lie in memory as the generated structures do, on every
  target: each field of a split or packed descriptor has its little-endian bytes at the offset of the
  generated field, and the request header and the discard range of the block device read each field
  from the offset of the generated one.\<close>

theorem crate_structs_match_bindings:
  assumes "target_ok t"
  shows "length (split_desc_bytes d) = size_of t vring_desc \<and>
    field_bytes t vring_desc ''addr'' (split_desc_bytes d) = Some (le_bytes 8 (sd_addr d)) \<and>
    field_bytes t vring_desc ''len'' (split_desc_bytes d) = Some (le_bytes 4 (sd_len d)) \<and>
    field_bytes t vring_desc ''flags'' (split_desc_bytes d) = Some (le_bytes 2 (sd_flags d)) \<and>
    field_bytes t vring_desc ''next'' (split_desc_bytes d) = Some (le_bytes 2 (sd_next d)) \<and>
    length (packed_desc_bytes p) = size_of t vring_packed_desc \<and>
    field_bytes t vring_packed_desc ''addr'' (packed_desc_bytes p) = Some (le_bytes 8 (pd_addr p)) \<and>
    field_bytes t vring_packed_desc ''len'' (packed_desc_bytes p) = Some (le_bytes 4 (pd_len p)) \<and>
    field_bytes t vring_packed_desc ''id'' (packed_desc_bytes p) = Some (le_bytes 2 (pd_id p)) \<and>
    field_bytes t vring_packed_desc ''flags'' (packed_desc_bytes p) = Some (le_bytes 2 (pd_flags p)) \<and>
    map_option (native_word e) (field_bytes t virtio_blk_outhdr ''type_'' bs) =
      Some (rh_request_type (request_header_of_bytes e bs)) \<and>
    map_option (native_word e) (field_bytes t virtio_blk_outhdr ''sector'' bs) =
      Some (rh_sector (request_header_of_bytes e bs)) \<and>
    unat DWZ_LEN = size_of t virtio_blk_discard_write_zeroes \<and>
    map_option (native_word e) (field_bytes t virtio_blk_discard_write_zeroes ''sector'' bs) =
      Some (dwz_sector (dwz_of_bytes e bs)) \<and>
    map_option (native_word e) (field_bytes t virtio_blk_discard_write_zeroes ''num_sectors'' bs) =
      Some (dwz_num_sectors (dwz_of_bytes e bs)) \<and>
    map_option (native_word e) (field_bytes t virtio_blk_discard_write_zeroes ''flags'' bs) =
      Some (dwz_flags (dwz_of_bytes e bs))"
  using crate_layouts [OF assms]
  by (simp add: field_bytes_def crate_field_types split_desc_bytes_def packed_desc_bytes_def
      request_header_of_bytes_def dwz_of_bytes_def DWZ_LEN_def)

theorem crate_structs_match_bindings_witness:
  "target_ok ilp32 \<and>
   field_bytes ilp32 vring_desc ''next'' (split_desc_bytes (split_desc_new 0x1000 16 1 7)) = Some [7, 0]"
proof -
  have "target_ok ilp32" by (simp add: target_ok_def ilp32_def)
  moreover have "le_bytes 2 (7 :: u16) = [7, 0]" by code_simp
  ultimately show ?thesis
    using crate_structs_match_bindings [of ilp32 "split_desc_new 0x1000 16 1 7"]
    by (simp add: split_desc_new_def)
qed

section \<open>Modules and feature bits\<close>




text \<open>The feature bits of the block, network, SCSI and GPU devices never collide with those of the
  transport and the rings, and all fit into the 64 bits that are negotiated; the bits the device crates
  name are those of the bindings, and no two devices share an identifier.\<close>

lemma feature_bits_disjoint:
  "list_all (\<lambda>(n, b). b < 64 \<and>
       list_all (\<lambda>(n', c). feature_mask b AND feature_mask c = 0) (virtio_transport_features @ virtio_ring_features))
     (virtio_blk_features @ virtio_net_features @ virtio_scsi_features @ virtio_gpu_features) \<and>
   map_of virtio_ring_features ''VIRTIO_RING_F_EVENT_IDX'' = Some VIRTIO_F_RING_EVENT_IDX \<and>
   map_of virtio_blk_features ''VIRTIO_BLK_F_RO'' = Some VIRTIO_BLK_F_RO \<and>
   map_of virtio_blk_features ''VIRTIO_BLK_F_FLUSH'' = Some VIRTIO_BLK_F_FLUSH \<and>
   map_of virtio_blk_features ''VIRTIO_BLK_F_DISCARD'' = Some VIRTIO_BLK_F_DISCARD \<and>
   map_of virtio_blk_features ''VIRTIO_BLK_F_WRITE_ZEROES'' = Some VIRTIO_BLK_F_WRITE_ZEROES \<and>
   distinct (map snd virtio_ids)"
proof (intro conjI)
  have "list_all (\<lambda>(n, b). b < 64 \<and>
       list_all (\<lambda>(n', c). b \<noteq> c) (virtio_transport_features @ virtio_ring_features))
     (virtio_blk_features @ virtio_net_features @ virtio_scsi_features @ virtio_gpu_features)"
    by code_simp
  then show "list_all (\<lambda>(n, b). b < 64 \<and>
       list_all (\<lambda>(n', c). feature_mask b AND feature_mask c = 0) (virtio_transport_features @ virtio_ring_features))
     (virtio_blk_features @ virtio_net_features @ virtio_scsi_features @ virtio_gpu_features)"
    by (rule list.pred_mono_strong) (auto elim!: list.pred_mono_strong simp: feature_mask_and)
  show "distinct (map snd virtio_ids)" by (simp add: virtio_ids_def)
qed code_simp+

section \<open>The network packet header\<close>

text \<open>C39. Two network packet headers are equal exactly if all their fields are, the union's four bytes
  included, and exactly if their \<open>Debug\<close> outputs are the same: the header is compared through all of its
  bytes, none of which is padding. The bytes have the layout of the generated structure, and the
  variants of the union have the same size and alignment.\<close>

theorem net_hdr_equality:
  "(net_hdr_eq e h1 h2 \<longleftrightarrow> h1 = h2) \<and>
   (net_hdr_debug e h1 = net_hdr_debug e h2 \<longleftrightarrow> net_hdr_eq e h1 h2) \<and>
   length (net_hdr_bytes e h1) = size_of t virtio_net_hdr_v1 \<and>
   field_bytes t virtio_net_hdr_v1 ''flags'' (net_hdr_bytes e h1) = Some [nh_flags h1] \<and>
   field_bytes t virtio_net_hdr_v1 ''gso_type'' (net_hdr_bytes e h1) = Some [nh_gso_type h1] \<and>
   field_bytes t virtio_net_hdr_v1 ''hdr_len'' (net_hdr_bytes e h1) = Some (native_bytes e 2 (nh_hdr_len h1)) \<and>
   field_bytes t virtio_net_hdr_v1 ''gso_size'' (net_hdr_bytes e h1) = Some (native_bytes e 2 (nh_gso_size h1)) \<and>
   field_bytes t virtio_net_hdr_v1 ''__bindgen_anon_1'' (net_hdr_bytes e h1) = Some (union_bytes (nh_anon_1 h1)) \<and>
   field_bytes t virtio_net_hdr_v1 ''num_buffers'' (net_hdr_bytes e h1) =
     Some (native_bytes e 2 (nh_num_buffers h1)) \<and>
   list_all (\<lambda>v. layout_of t v = layout_of t virtio_net_hdr_v1__bindgen_ty_1)
     [virtio_net_hdr_v1__bindgen_ty_1__bindgen_ty_1, virtio_net_hdr_v1__bindgen_ty_1__bindgen_ty_2,
      virtio_net_hdr_v1__bindgen_ty_1__bindgen_ty_3] \<and>
   net_hdr_bytes e net_hdr_default = zeroed t virtio_net_hdr_v1"
proof -
  have v: "layout_of t virtio_net_hdr_v1__bindgen_ty_1__bindgen_ty_1 = (4, 2)"
      "layout_of t virtio_net_hdr_v1__bindgen_ty_1__bindgen_ty_2 = (4, 2)"
      "layout_of t virtio_net_hdr_v1__bindgen_ty_1__bindgen_ty_3 = (4, 2)"
    by (simp_all add: layout_eval numeral_2_eq_2 [symmetric]
        virtio_net_hdr_v1__bindgen_ty_1__bindgen_ty_1_def
        virtio_net_hdr_v1__bindgen_ty_1__bindgen_ty_2_def virtio_net_hdr_v1__bindgen_ty_1__bindgen_ty_3_def)
  then have u: "layout_of t virtio_net_hdr_v1__bindgen_ty_1 = (4, 2)"
    by (simp add: layout_eval numeral_2_eq_2 [symmetric] virtio_net_hdr_v1__bindgen_ty_1_def union_layout_def)
  have b: "length (union_bytes (nh_anon_1 h1)) = 4" by (cases "nh_anon_1 h1") simp
  have z: "native_bytes e 2 (0 :: u16) = [0, 0]" by (cases e) (simp_all add: native_bytes_def le_bytes_def upt_rec)
  have r: "replicate 12 (0 :: byte) = [0, 0, 0, 0, 0, 0, 0, 0, 0, 0, 0, 0]" by code_simp
  have "net_hdr_bytes e net_hdr_default = zeroed t virtio_net_hdr_v1"
    by (simp add: net_hdr_bytes_def net_hdr_default_def z zeroed_def virtio_net_hdr_v1_def layout_eval u
        numeral_2_eq_2 [symmetric] r)
  with v u b show ?thesis
    by (simp add: net_hdr_eq_iff net_hdr_debug_iff debug_fields_iff net_hdr_bytes_def field_bytes_def
        virtio_net_hdr_v1_def layout_eval numeral_2_eq_2 [symmetric])
qed

end
