(* ===== verification/Spec2Isabelle.thy ===== *)
theory Spec2Isabelle
  imports Queue_Properties Config_Properties Chain_Properties Device_Properties Blk_Properties
    Console_Properties Vsock_Properties Fuzz_Properties Bench_Properties Bindings_Properties
begin

text \<open>
  A verification development of the vm-virtio crates (\<open>src/\<close>): the device side of virtio queues, the
  configuration of a device over MMIO, the block, console and vsock devices, the bindings generated from
  the kernel headers, and the mock driver, the Kani harness, the fuzz targets and the benchmarks that
  exercise them.

  \<^bold>\<open>The program.\<close> A driver in the guest places descriptors in a table and publishes the heads of their
  chains in the available ring; the device takes the heads (\<open>Queue\<close>, \<open>AvailIter\<close>), follows the chains
  (\<open>DescriptorChain\<close>), reads and writes the buffers (\<open>Reader\<close>, \<open>Writer\<close>, or guest memory directly) and returns
  the heads through the used ring. Everything the device reads from guest memory is under the control of
  the driver. The crates virtio-device, virtio-blk, virtio-console and virtio-vsock build on these.

  \<^bold>\<open>Foundations.\<close>
  \<^item> \<open>Virtio_Prelude\<close>: machine integers as words, checked arithmetic, byte order, powers of two.
  \<^item> \<open>Guest_Memory\<close>: the operations of the vm-memory crate the sources call, a record of functions, and the
    locale \<open>guest_mem\<close> with the laws the sources rely on: an access within an accessible range succeeds,
    reads return what was written, and a write changes nothing else. vm-memory is not under \<open>src/\<close>, so
    memory is a parameter of every definition that uses it and \<open>guest_mem\<close> a hypothesis of the properties.
  \<^item> \<open>Single_Region\<close>: the one-region memory of \<open>virtio-queue/src/queue/verification.rs\<close>, which satisfies these
    laws; it is the memory of the concrete instances.

  \<^bold>\<open>The queue\<close> (virtio-queue).
  \<^item> \<open>Descriptors\<close> (\<open>desc/*.rs\<close>), \<open>Queue_Error\<close> (\<open>lib.rs\<close>), \<open>Descriptor_Chain\<close> (\<open>chain.rs\<close>: \<open>chain_next\<close> with
    indirect tables, time to live and the limit on bytes; the readable and writable iterators).
  \<^item> \<open>Queue_Core\<close> (\<open>queue.rs\<close>: configuration, validation, used ring, notifications), \<open>Avail_Iter\<close> (\<open>queue.rs\<close>:
    \<open>iter\<close>, \<open>AvailIter::next\<close>, \<open>pop_descriptor_chain\<close>), \<open>Queue_State\<close> (\<open>state.rs\<close> and virtio-queue-ser),
    \<open>Queue_Sync\<close> (\<open>queue_sync.rs\<close>: queues behind a lock, as a heap of queues; an operation holds the lock, so
    an execution is a sequence of operations), \<open>Descriptor_Utils\<close> (\<open>descriptor_utils.rs\<close>).
  \<^item> \<open>Virtqueue\<close>: driver and device interleaved, as the step relation \<open>vq_step\<close> over rings in guest memory, with
    the invariant that relates both rings to the sequences of published, popped and completed heads.
  \<^item> \<open>Mock_Driver\<close> (\<open>mock.rs\<close>), with what the driver builds in \<open>Mock_Build\<close> and how the device finds it in
    \<open>Mock_Chains\<close>; \<open>Kani_Notification\<close> (\<open>queue/verification.rs\<close>); \<open>Bench_Queue\<close> (\<open>benches/queue/mod.rs\<close>).
  \<^item> \<open>Fuzz_Targets\<close> (\<open>fuzz/common\<close>, \<open>fuzz/fuzz_targets\<close>: inputs, calls and targets), \<open>Fuzz_Corpus\<close> (the targets on
    bytes, the seeds of the corpus and the tests in \<open>fuzz/common\<close> that build, check and write them) and
    \<open>Fuzz_Seeds\<close> (that these tests pass). The codec and the bytes of a structure without \<open>repr\<close> are parameters.

  \<^bold>\<open>The devices.\<close>
  \<^item> \<open>Virtio_Device\<close> (\<open>virtio-device/src/lib.rs\<close>, \<open>virtio_config.rs\<close>) and \<open>Mmio\<close> (\<open>mmio.rs\<close>): configuration state,
    status transitions, feature negotiation, registers. What a device adds (activate, reset, notify) is a
    parameter; the locale \<open>device_impl_laws\<close> says what it must keep, the test device is an instance.
  \<^item> \<open>Mmio_Init\<close>: the writes with which a driver initializes a device, by the virtio specification, and what
    each of them does.
  \<^item> \<open>Blk_Request\<close> (\<open>request.rs\<close>) and \<open>Blk_Executor\<close> (\<open>stdio_executor.rs\<close>): the backing file is a parameter, the
    locale \<open>blk_disk\<close> says that it behaves like a file, a file in memory is an instance.
  \<^item> \<open>Console\<close> (\<open>console.rs\<close>), with the output sink as a parameter and the locale \<open>console_sink\<close>.
  \<^item> \<open>Vsock_Packet\<close> (\<open>packet.rs\<close>): the header, its accessors, packets from chains.

  \<^bold>\<open>The bindings\<close> (virtio-bindings).
  \<^item> \<open>C_Layout\<close>: the types of the generated files and their size, alignment and field offsets on a target, by the
    rules of the language for \<open>repr(C)\<close> and \<open>repr(C, packed)\<close>; what a layout check in a constant demands.
  \<^item> \<open>Bindings_Ring\<close>, \<open>Bindings_Blk\<close>, \<open>Bindings_Net\<close>, \<open>Bindings_Scsi\<close>, \<open>Bindings_Input\<close>, \<open>Bindings_Gpu\<close>: every structure
    and union of \<open>bindings/x86_64/virtio_*.rs\<close> with the checks the file makes of it. Each is a definition under the
    name of the structure; \<open>virtio_*_bindings\<close> lists the checks of a file.
  \<^item> \<open>Bindings_Targets\<close>: the checks that differ in the files of other architectures, the architectures the script
    generates files for and the file \<open>lib.rs\<close> takes for each; which targets satisfy which checks.
  \<^item> \<open>Bindings_Features\<close> and \<open>Bindings_Constants\<close>: feature bits, device identifiers and all other constants, and
    that those the crates import have these values. \<open>Net_Header\<close> (\<open>virtio_net/mod.rs\<close>): comparison and
    \<open>Debug\<close> output of a network packet header.

  State is a record and is returned updated; an error is the left value of a sum; a panic (\<open>unwrap\<close>, index
  out of range, overflow of plain arithmetic) is \<open>None\<close> where the code can panic. Operations over memory
  take and return the memory.

  \<^bold>\<open>Properties.\<close>
  \<^item> \<open>Queue_Properties\<close>: driver and device implement a FIFO queue, completions appear in the used ring in
    order, no head is lost when notifications are enabled, and the iterator, \<open>pop_descriptor_chain\<close>, \<open>add_used\<close>
    and \<open>needs_notification\<close> do what they should, on every branch.
  \<^item> \<open>Config_Properties\<close>: the queue stays well formed, shared queues behave like one queue, save and restore
    is a round trip, a queue accepted by \<open>is_valid\<close> is usable, and the Kani harness holds for every choice of
    its inputs.
  \<^item> \<open>Chain_Properties\<close>: chains are followed exactly and end whatever memory contains; \<open>Reader\<close> and \<open>Writer\<close> are
    streams over the buffers.
  \<^item> \<open>Device_Properties\<close>: no sequence of register writes breaks the device's invariant; when queues can be
    configured, features are accepted and \<open>DRIVER_OK\<close> appears; the initialization sequence of a driver ends in
    an activated device with the features and queues it asked for.
  \<^item> \<open>Blk_Properties\<close>: reads, writes, zeroing and range errors against the contents of the disk.
  \<^item> \<open>Console_Properties\<close> and \<open>Vsock_Properties\<close>: output and input arrive whole and in order; packets are
    accepted exactly from well-formed chains and their header stays the same in memory and in the cache.
  \<^item> \<open>Fuzz_Properties\<close>: what the mock driver builds, one chain or several, is what the device sees; the fuzz
    targets return without a panic on every input, up to 65536 descriptors; the seeds pass their tests.
  \<^item> \<open>Bench_Properties\<close>: the benchmarks find every chain and descriptor the mock driver added.
  \<^item> \<open>Bindings_Properties\<close>: the generated structures are well typed, their checks hold exactly on the targets they
    were generated for, the structures the device crates define by hand agree with them; for which
    architectures the modules resolve to a file; equality of network packet headers.
  \<^item> This theory: a block read request from the available ring to the disk and back to the used ring.

  Properties that the code does not have are lemmas beside the properties they limit: \<open>is_valid\<close> checks no
  start address, a restored queue can miss a notification, the mock's rings overlap, features can be
  written after activation, the RX size limit is not applied to a single descriptor. Two architectures the
  bindings name resolve to no file, and three seeds of the fuzz corpus do not reach the code they are for.

  \<^bold>\<open>Bounds.\<close> No definition uses fuel. Loops over chains end because every step lowers \<open>chain_bound\<close> (the time
  to live, plus one switch to an indirect table of at most 65535 entries); loops over the available ring
  because every step brings \<open>next_avail\<close> closer to a 16-bit index; all others are structural. 16-, 32- and
  64-bit values are words and wrap where the source wraps; \<open>usize\<close> is \<open>nat\<close> with the overflow at \<open>2\<^sup>6\<^sup>4\<close> written
  out where the source checks it.

  \<^bold>\<open>Not modelled.\<close>
  \<^item> The generated files of the other architectures: each repeats the \<open>x86_64\<close>, the \<open>arm\<close> or the \<open>x86\<close> file, but for
    the width of three type aliases of \<open>hexagon/virtio_gpu.rs\<close> that no structure uses.
  \<^item> Memory orderings: accesses are sequential. A load or store with an ordering that the operation does not
    allow is outside the laws of \<open>guest_mem\<close>; fences have no effect in a sequential model.
  \<^item> Dirty bitmaps and the logging macros, which no result depends on.
  \<^item> Third-party code: vm-memory, serde and versionize, bincode, criterion. Where results depend on it, it enters
    as parameters. Of the file system only the files and directories of the corpus are state; a failing file
    operation, at which a test would panic, is left out.
  \<^item> Unit tests of the crates, apart from the tests that write the fuzz corpus.
\<close>

section \<open>A request from the queue to the disk and back\<close>

text \<open>C4. A driver's read request is served end to end. With a well-formed chain (header, separate writable
  buffers, status byte) published in the available ring, the device pops the chain, parses the request,
  processes it and returns the chain: the buffers hold the sectors of the disk, the status byte says OK,
  the disk is unchanged, and the used ring names the chain's head and the number of bytes written.\<close>

theorem blk_read_served:
  fixes hdr st :: split_desc and data :: "split_desc list"
  defines "bufs \<equiv> data_slices (map (\<lambda>d. (sd_addr d, sd_len d)) data)"
    and "h \<equiv> \<lambda>f q. avail_head_at f q (q_next_avail q)"
  assumes disk: "blk_disk G peek acc V disk pos" "backend_ok disk sb"
    and q: "wf_queue q" "q_ready q" "q_avail_ring q \<noteq> 0" "avail_ring_acc acc q m" "used_ring_acc acc q m"
    and pending: "avail_idx_at (peek m) q \<noteq> q_next_avail q"
      "unat (avail_idx_at (peek m) q - q_next_avail q) \<le> unat (q_size q)"
    and chain: "laid_out G m (q_desc_table q) (q_size q) (h (peek m) q) (hdr # data @ [st])"
      "length data + 2 \<le> unat (q_size q)" "sum_list (map (\<lambda>d. unat (sd_len d)) (hdr # data @ [st])) < 2 ^ 32"
    and hdr: "\<not> is_write_only hdr" "acc m (sd_addr hdr) 16"
      "request_header_of_bytes (gm_endian G) (peek_bytes (peek m) (sd_addr hdr) 16) =
         \<lparr>rh_request_type = VIRTIO_BLK_T_IN, rh_reserved = x, rh_sector = sector\<rparr>"
    and data: "\<forall>d\<in>set data. is_write_only d \<and> acc m (sd_addr d) (unat (sd_len d)) \<and>
        disjoint_ranges (sd_addr d) (unat (sd_len d)) (sd_addr st) 1"
      "separate bufs" "lens bufs mod 512 = 0" "unat sector + lens bufs div 512 \<le> unat (sb_num_sectors sb)"
    and st: "is_write_only st" "sd_len st \<noteq> 0" "acc m (sd_addr st) 1" "gm_check_address G m (sd_addr st) \<noteq> None"
  shows "\<exists>c r sb' m1 q2 m2.
    pop_descriptor_chain G q m = (q\<lparr>q_next_avail := q_next_avail q + 1\<rparr>, Some c) \<and>
    snd (blk_parse G m c) = Inr r \<and>
    process_request G V sb m r = Some (sb', m1, Inr (of_nat (lens bufs) + 1)) \<and>
    stream_of (peek m1) bufs = take (lens bufs) (drop (unat sector * 512) (disk (sb_inner sb))) \<and>
    peek m1 (sd_addr st) = VIRTIO_BLK_S_OK \<and> disk (sb_inner sb') = disk (sb_inner sb) \<and>
    add_used G (q\<lparr>q_next_avail := q_next_avail q + 1\<rparr>) m1 (dc_head_index c) (of_nat (lens bufs) + 1) = (q2, m2, Inr ()) \<and>
    used_elem_at (peek m2) q (q_next_used q) = \<lparr>ue_id = ucast (h (peek m) q), ue_len = of_nat (lens bufs) + 1\<rparr>"
proof -
  have g: "guest_mem G peek acc" using disk(1) by (rule blk_disk.axioms)
  let ?h = "h (peek m) q" and ?q = "q\<lparr>q_next_avail := q_next_avail q + 1\<rparr>"
  let ?c = "chain_new (q_desc_table q) (q_size q) ?h"
  let ?r = "\<lparr>rq_request_type = RtIn, rq_data = map (\<lambda>d. (sd_addr d, sd_len d)) data, rq_sector = sector,
    rq_status_addr = sd_addr st\<rparr>"
  have "0 < unat (avail_idx_at (peek m) q - q_next_avail q)" using pending(1) by (simp add: unat_gt_0)
  then have pop: "pop_descriptor_chain G q m = (?q, Some ?c)"
    using guest_mem.pop_descriptor_chain_ok [OF g q(1,4,2,3)] pending(2) by (simp add: h_def)
  have cc: "chain_collect G m ?c = hdr # data @ [st]"
    using chain by (intro chain_collect_laid_out) (simp_all add: chain_new_def chain_with_ttl_def)
  have lo: "laid_out G m (q_desc_table q) (q_size q) (sd_next hdr) (data @ [st])" "?h < q_size q"
    using chain(1) by (cases "data @ [st]"; simp add: table_entry_def)+
  have "parse_data_descs RtIn (data @ [st]) = Inr (rq_data ?r, st)"
    using parse_data_laid_out [OF lo(1)] data(1) by simp
  then have parse: "snd (blk_parse G m ?c) = Inr ?r"
    using hdr st(1,2,4) guest_mem.read_law [OF g hdr(2)]
    by (simp add: blk_parse_descs cc parse_descs_def request_type_from_def VIRTIO_BLK_T_IN_def)
  have bufs: "data_slices (rq_data ?r) = bufs" by (simp add: bufs_def)
  have "lens bufs = sum_list (map (\<lambda>d. unat (sd_len d)) data)"
    by (simp add: bufs_def lens_def data_slices_def comp_def)
  moreover have "0 < unat (sd_len st)" using st(2) by (simp add: unat_gt_0)
  ultimately have len: "lens bufs + 1 < 2 ^ 32" using chain(3) by simp
  have "\<forall>vs\<in>set (data_slices (rq_data ?r)). acc m (vs_addr vs) (vs_len vs) \<and>
      disjoint_ranges (vs_addr vs) (vs_len vs) (rq_status_addr ?r) 1"
    using data(1) by (auto simp: data_slices_def)
  from blk_disk.process_in_spec [OF disk, of ?r m, OF _ this] data(2-4) len st(3)
  obtain sb' m1 where pr: "process_request G V sb m ?r = Some (sb', m1, Inr (of_nat (lens bufs) + 1))"
      "disk (sb_inner sb') = disk (sb_inner sb)" "acc m1 = acc m" "peek m1 (sd_addr st) = VIRTIO_BLK_S_OK"
      "stream_of (peek m1) bufs = take (lens bufs) (drop (unat sector * 512) (disk (sb_inner sb)))"
    unfolding bufs by auto
  have wf: "wf_queue ?q" "used_ring_acc acc ?q m1" "?h < q_size ?q"
    using q(1,5) pr(3) lo(2) by (simp_all add: wf_queue_def used_ring_acc_def)
  obtain q2 m2 x where au: "add_used G ?q m1 ?h (of_nat (lens bufs) + 1) = (q2, m2, x)" by (metis prod.collapse)
  note rb = guest_mem.add_used_readback [OF g wf au]
  have "used_elem_at (peek m2) ?q (q_next_used ?q) = used_elem_at (peek m2) q (q_next_used q)"
    by (simp add: used_elem_at_def used_slot_def)
  moreover have "dc_head_index ?c = ?h" by (simp add: chain_new_def chain_with_ttl_def)
  ultimately show ?thesis using pop parse pr au rb(1,4) by auto
qed

text \<open>A read of sector 1 into one buffer of 512 bytes, published in a queue of four entries.\<close>

definition serve_queue :: queue where
  "serve_queue = demo_queue\<lparr>q_max_size := 4, q_size := 4\<rparr>"

definition serve_header :: split_desc where "serve_header = split_desc_new 1600 16 1 1"
definition serve_data :: split_desc where "serve_data = split_desc_new 1024 512 3 2"
definition serve_status :: split_desc where "serve_status = split_desc_new 2048 1 2 0"

definition serve_region :: region where
  "serve_region = demo_region
     (poke (poke (poke (poke (poke (\<lambda>_. 0) 256 (split_desc_bytes serve_header)) 272 (split_desc_bytes serve_data))
       288 (split_desc_bytes serve_status)) 512 (replicate 2 0 @ le_bytes 2 (1 :: u16) @ replicate 2 0))
       1600 (replicate 8 0 @ le_bytes 8 (1 :: u64)))"

lemmas serve_descs = serve_header_def serve_data_def serve_status_def

lemma serve_region_acc: "unat a + n < 4096 \<Longrightarrow> sr_acc serve_region a n"
  by (simp add: sr_acc_def serve_region_def demo_region_def)

lemma serve_chain:
  "laid_out (single_region LittleEndian) serve_region 256 4 0 [serve_header, serve_data, serve_status]"
proof -
  have "read_split_desc (single_region LittleEndian) serve_region 256 = Inr serve_header"
      "read_split_desc (single_region LittleEndian) serve_region 272 = Inr serve_data"
      "read_split_desc (single_region LittleEndian) serve_region 288 = Inr serve_status"
    unfolding serve_region_def
    by (rule demo_read_desc;
        simp add: peek_field_poke_same peek_bytes_poke_disjoint disjoint_ranges_def)+
  then show ?thesis
    by (simp add: table_entry_def serve_descs flag_simps)
qed

lemma serve_avail:
  "avail_idx_at (rg_data serve_region) serve_queue = 1" "avail_head_at (rg_data serve_region) serve_queue 0 = 0"
proof -
  have p: "peek_bytes (rg_data serve_region) 512 (2 + (2 + 2)) = replicate 2 0 @ le_bytes 2 (1 :: u16) @ replicate 2 0"
    by (simp add: serve_region_def demo_region_def peek_field_poke_same peek_bytes_poke_disjoint disjoint_ranges_def)
  then have "peek_bytes (rg_data serve_region) 514 2 = le_bytes 2 (1 :: u16)"
      "peek_bytes (rg_data serve_region) 516 2 = replicate 2 0"
    unfolding peek_bytes_append by (simp_all add: append_eq_append_conv)
  moreover have "le_word (replicate 2 0) = (0 :: u16)" by code_simp
  ultimately show "avail_idx_at (rg_data serve_region) serve_queue = 1" "avail_head_at (rg_data serve_region) serve_queue 0 = 0"
    by (simp_all add: avail_idx_at_def avail_head_at_def avail_slot_def serve_queue_def demo_queue_def)
qed

lemma serve_request:
  "request_header_of_bytes LittleEndian (peek_bytes (rg_data serve_region) 1600 16) =
     \<lparr>rh_request_type = VIRTIO_BLK_T_IN, rh_reserved = 0, rh_sector = 1\<rparr>"
proof -
  have "peek_bytes (rg_data serve_region) 1600 16 = replicate 8 0 @ le_bytes 8 (1 :: u64)"
    by (simp add: serve_region_def demo_region_def peek_field_poke_same)
  moreover have "request_header_of_bytes LittleEndian (replicate 8 0 @ le_bytes 8 (1 :: u64)) =
      \<lparr>rh_request_type = 0, rh_reserved = 0, rh_sector = 1\<rparr>"
    by code_simp
  ultimately show ?thesis by (simp add: VIRTIO_BLK_T_IN_def)
qed

theorem blk_read_served_witness:
  "\<exists>c r sb' m1. pop_descriptor_chain (single_region LittleEndian) serve_queue serve_region =
       (serve_queue\<lparr>q_next_avail := 1\<rparr>, Some c) \<and>
     snd (blk_parse (single_region LittleEndian) serve_region c) = Inr r \<and>
     process_request (single_region LittleEndian) file_io demo_backend serve_region r = Some (sb', m1, Inr 513) \<and>
     peek_bytes (rg_data m1) 1024 512 = replicate 512 7 \<and> rg_data m1 2048 = VIRTIO_BLK_S_OK"
proof -
  let ?G = "single_region LittleEndian"
  have q: "wf_queue serve_queue" "q_ready serve_queue" "q_avail_ring serve_queue \<noteq> 0"
      "avail_ring_acc sr_acc serve_queue serve_region" "used_ring_acc sr_acc serve_queue serve_region"
    by (simp_all add: wf_queue_def serve_queue_def demo_queue_def pow2_check_def MAX_QUEUE_SIZE_def avail_ring_acc_def
        used_ring_acc_def serve_region_acc)
  have f: "q_next_avail serve_queue = 0" "q_size serve_queue = 4" "q_desc_table serve_queue = 256"
    by (simp_all add: serve_queue_def demo_queue_def)
  have d: "sb_num_sectors demo_backend = 2" "fl_data (sb_inner demo_backend) = replicate 1024 7"
    by (simp_all add: demo_backend_def)
  have bufs: "data_slices (map (\<lambda>d. (sd_addr d, sd_len d)) [serve_data]) = [\<lparr>vs_addr = 1024, vs_len = 512\<rparr>]"
    by (simp add: serve_data_def)
  have ca: "gm_check_address ?G serve_region (sd_addr serve_status) \<noteq> None"
    by (simp add: sr_check_address_def sr_find_region_def to_region_addr_def serve_region_def demo_region_def serve_status_def)
  have p: "avail_idx_at (rg_data serve_region) serve_queue \<noteq> q_next_avail serve_queue"
      "unat (avail_idx_at (rg_data serve_region) serve_queue - q_next_avail serve_queue) \<le> unat (q_size serve_queue)"
    by (simp_all add: serve_avail f)
  have c: "laid_out ?G serve_region (q_desc_table serve_queue) (q_size serve_queue)
        (avail_head_at (rg_data serve_region) serve_queue (q_next_avail serve_queue))
        (serve_header # [serve_data] @ [serve_status])"
      "length [serve_data] + 2 \<le> unat (q_size serve_queue)"
      "sum_list (map (\<lambda>d. unat (sd_len d)) (serve_header # [serve_data] @ [serve_status])) < 2 ^ 32"
    using serve_chain by (simp_all add: f serve_avail) (simp add: serve_descs)
  have h: "\<not> is_write_only serve_header" "sr_acc serve_region (sd_addr serve_header) 16"
      "request_header_of_bytes (gm_endian ?G) (peek_bytes (rg_data serve_region) (sd_addr serve_header) 16) =
         \<lparr>rh_request_type = VIRTIO_BLK_T_IN, rh_reserved = 0, rh_sector = 1\<rparr>"
    using serve_request by (simp_all add: serve_header_def flag_simps serve_region_acc)
  have dt: "\<forall>d\<in>set [serve_data]. is_write_only d \<and> sr_acc serve_region (sd_addr d) (unat (sd_len d)) \<and>
        disjoint_ranges (sd_addr d) (unat (sd_len d)) (sd_addr serve_status) 1"
    by (simp add: serve_descs flag_simps serve_region_acc disjoint_ranges_def)
  have st: "is_write_only serve_status" "sd_len serve_status \<noteq> 0" "sr_acc serve_region (sd_addr serve_status) 1"
    by (simp_all add: serve_status_def flag_simps serve_region_acc)
  show ?thesis
    using blk_read_served [OF file_disk_laws demo_backend_ok q p c h dt _ _ _ st ca]
    unfolding bufs by (auto simp: f d separate_def serve_status_def)
qed

end
